(* ===== verification/Prelude.thy ===== *)
theory Prelude
  imports Complex_Main "HOL-Library.AList"
begin

text \<open>
  Shared vocabulary of the development: Go's error values and their wrapping, 64-bit signed
  arithmetic, the byte-string functions of Go's \<open>strings\<close> package that the sources call, and
  the decoding of a string into runes that \<open>for _, r := range s\<close> performs.
  Three collections carry the component proofs: \<open>go_int\<close> for machine integers, \<open>go_err\<close>
  for errors and \<open>go_str\<close> for strings.
\<close>

named_theorems go_int \<open>facts on 64-bit signed arithmetic\<close>
named_theorems go_err \<open>facts on Go error values\<close>
named_theorems go_str \<open>facts on byte strings\<close>

section \<open>Machine integers\<close>

text \<open>
  Go's \<open>int\<close>, \<open>int64\<close> and \<open>time.Duration\<close> are 64-bit two's complement. A value is an \<open>int\<close>
  and an operation that can leave the range is followed by \<open>i64\<close>, the wrap-around. Where the
  source's own conditions keep the result in range the wrap is dropped by \<open>i64_id\<close>.
\<close>

definition i64 :: "int \<Rightarrow> int" where
  "i64 x = (x + 2 ^ 63) mod 2 ^ 64 - 2 ^ 63"

definition in_i64 :: "int \<Rightarrow> bool" where
  "in_i64 x \<longleftrightarrow> - (2 ^ 63) \<le> x \<and> x < 2 ^ 63"

lemma i64_id [go_int]: "in_i64 x \<Longrightarrow> i64 x = x"
  by (simp add: i64_def in_i64_def)

lemma i64_in_range [go_int, simp]: "in_i64 (i64 x)"
proof -
  have "0 \<le> (x + 2 ^ 63) mod 2 ^ 64" "(x + 2 ^ 63) mod 2 ^ 64 < (2 ^ 64 :: int)"
    by simp_all
  then show ?thesis by (simp add: i64_def in_i64_def)
qed

lemma i64_wrap_high:
  assumes "2 ^ 63 \<le> x" and "x < 2 ^ 64"
  shows "i64 x = x - 2 ^ 64"
proof -
  have "(x + 2 ^ 63) mod 2 ^ 64 = ((x - 2 ^ 63) + 2 ^ 64) mod (2 ^ 64 :: int)"
    by (simp add: add.commute)
  also have "\<dots> = (x - 2 ^ 63) mod 2 ^ 64"
    by (rule mod_add_self2)
  also have "\<dots> = x - 2 ^ 63"
    using assms by (intro mod_pos_pos_trivial) simp_all
  finally show ?thesis by (simp add: i64_def)
qed

text \<open>Go's integer division truncates towards zero.\<close>

definition go_div :: "int \<Rightarrow> int \<Rightarrow> int" where
  "go_div a b = sgn a * sgn b * (\<bar>a\<bar> div \<bar>b\<bar>)"

lemma go_div_nonneg [go_int]: "0 \<le> a \<Longrightarrow> 0 < b \<Longrightarrow> go_div a b = a div b"
  by (cases "a = 0") (simp_all add: go_div_def)

section \<open>Time\<close>

text \<open>A \<open>time.Duration\<close> and a \<open>time.Time\<close> are nanosecond counts.\<close>

type_synonym duration = int
type_synonym gotime = int

definition Millisecond :: duration where "Millisecond = 1000000"
definition Second :: duration where "Second = 1000 * Millisecond"
definition Minute :: duration where "Minute = 60 * Second"

text \<open>The zero value of \<open>time.Time\<close>, January 1 of year 1, in nanoseconds since 1970.\<close>

definition zero_time :: gotime where "zero_time = - 62135596800 * Second"

lemmas duration_units = Millisecond_def Second_def Minute_def

section \<open>Errors\<close>

text \<open>
  The package-level error variables the sources compare with \<open>errors.Is\<close>: those of the
  repository, and those of the libraries it calls (prefix \<open>Nats\<close> and \<open>Ctx\<close>).
\<close>

datatype sentinel =
    ErrEmptySubjectNotAllowed | ErrEmptyConfigNotAllowed | ErrInvalidSubscription
  | ErrNatsConnectionNotEstablished | ErrInvalidStreamName | ErrInvalidDurableName
  | ErrInvalidQueueName | ErrInvalidBucketName | ErrInvalidSubject | ErrInvalidKVKey
  | ErrBackpressureHandled | ErrDrainTimeout | ErrJetStreamV2Required
  | ErrConsumerRecreateRequired | ErrConflictingAuth | ErrSupervisorGiveUp
  | ErrConsumerStall | ErrInvalidReplayBound | ErrInvalidMessageType
  | ErrInvalidTypeAssertion | ErrPoolFull | ErrAsyncPublishPendingLimit
  | ErrUnsupportedContentEncoding | ErrPayloadTooLarge | ErrClaimInFlight
  | ErrSendToDLQ | ErrDLQRouted | ErrPoolStopped | ErrSchemaMismatch
  | NatsErrMsgNotFound | NatsErrConsumerNotFound | NatsErrStreamNotFound
  | NatsErrMsgAlreadyAckd | NatsErrTimeout | NatsErrNoHeartbeat | NatsErrKeyNotFound
  | NatsErrKeyExists | NatsErrNoKeysFound | NatsErrNoObjectsFound | NatsErrConsumerNotActive
  | ErrEmptyAddressNotAllowed | ErrInvalidNKeySeed | ErrMonitoringBodyTooLarge
  | CtxCanceled | CtxDeadlineExceeded

text \<open>
  An error value: a sentinel, an error with no \<open>%w\<close> (its text, or what a library returned),
  or a wrapping of other errors by \<open>fmt.Errorf("...%w")\<close> or \<open>errors.Join\<close>. The label of a
  wrapping is the constant part of its format string.
\<close>

datatype err = ESent sentinel | EMsg string | EWrap string "err list"

type_synonym 'a result = "err + 'a"

text \<open>\<open>errors.Is\<close>: the error itself or any error it wraps is the target.\<close>

fun errors_Is :: "err \<Rightarrow> sentinel \<Rightarrow> bool" where
  "errors_Is (ESent s) t = (s = t)"
| "errors_Is (EMsg m) t = False"
| "errors_Is (EWrap m es) t = list_ex (\<lambda>e. errors_Is e t) es"

text \<open>\<open>errors.Is\<close> on an error that may be nil.\<close>

definition err_is :: "err option \<Rightarrow> sentinel \<Rightarrow> bool" where
  "err_is e t = (case e of None \<Rightarrow> False | Some x \<Rightarrow> errors_Is x t)"

text \<open>\<open>fmt.Errorf("label: %w", e)\<close>\<close>

abbreviation wrap1 :: "string \<Rightarrow> err \<Rightarrow> err" where
  "wrap1 m e \<equiv> EWrap m [e]"

lemma err_is_None [simp, go_err]: "err_is None t = False"
  by (simp add: err_is_def)

lemma err_is_Some [simp, go_err]: "err_is (Some e) t = errors_Is e t"
  by (simp add: err_is_def)

text \<open>\<open>if err := f(); err != nil { return err }\<close> in a function that returns only an error.\<close>

definition then_err :: "err option \<Rightarrow> err option \<Rightarrow> err option" where
  "then_err a b = (case a of Some e \<Rightarrow> Some e | None \<Rightarrow> b)"

lemma then_err_simps [simp, go_err]:
  "then_err None b = b" "then_err (Some e) b = Some e"
  by (simp_all add: then_err_def)

lemma then_err_None_iff [simp, go_err]: "then_err a b = None \<longleftrightarrow> a = None \<and> b = None"
  by (cases a) simp_all

definition is_ok :: "'a result \<Rightarrow> bool" where
  "is_ok r = (case r of Inl _ \<Rightarrow> False | Inr _ \<Rightarrow> True)"

lemma is_ok_simps [simp, go_err]: "is_ok (Inl e) = False" "is_ok (Inr v) = True"
  by (simp_all add: is_ok_def)

section \<open>Strings\<close>

text \<open>
  A Go string is a sequence of bytes; a \<open>char\<close> is a byte. \<open>strings.Split(s, sep)\<close> for a
  one-byte separator never returns the empty list.
\<close>

type_synonym bytes = "char list"

fun split_on :: "char \<Rightarrow> string \<Rightarrow> string list" where
  "split_on c [] = [[]]"
| "split_on c (x # xs) =
     (if x = c then [] # split_on c xs
      else (case split_on c xs of [] \<Rightarrow> [[x]] | t # ts \<Rightarrow> (x # t) # ts))"

fun join_with :: "char \<Rightarrow> string list \<Rightarrow> string" where
  "join_with c [] = []"
| "join_with c [t] = t"
| "join_with c (t # ts) = t @ c # join_with c ts"

lemma split_on_nonempty [simp, go_str]: "split_on c s \<noteq> []"
  by (induction s) (auto split: list.splits)

lemma length_split_on_pos [simp, go_str]: "0 < length (split_on c s)"
  by simp

lemma split_on_no_sep [go_str]: "t \<in> set (split_on c s) \<Longrightarrow> c \<notin> set t"
proof (induction s arbitrary: t)
  case Nil
  then show ?case by simp
next
  case (Cons x xs)
  then show ?case
    by (cases "split_on c xs") (auto split: if_splits)
qed

lemma split_on_append_sep [go_str]:
  "split_on c (a @ c # b) = split_on c a @ split_on c b"
  by (induction a) (auto split: list.splits simp: Cons_eq_append_conv)

lemma split_on_plain [go_str]: "c \<notin> set t \<Longrightarrow> split_on c t = [t]"
  by (induction t) auto

lemma join_with_Cons [go_str]: "ts \<noteq> [] \<Longrightarrow> join_with c (t # ts) = t @ c # join_with c ts"
  by (cases ts) simp_all

lemma join_split [simp, go_str]: "join_with c (split_on c s) = s"
proof (induction s)
  case Nil
  then show ?case by simp
next
  case (Cons x xs)
  obtain t ts where sp: "split_on c xs = t # ts"
    by (cases "split_on c xs") auto
  show ?case
  proof (cases "x = c")
    case True
    with Cons sp show ?thesis by (simp add: join_with_Cons)
  next
    case False
    have "join_with c ((x # t) # ts) = x # join_with c (t # ts)"
      by (cases ts) simp_all
    with False sp Cons show ?thesis by simp
  qed
qed

lemma split_join [go_str]:
  assumes "ts \<noteq> []" and "\<forall>t\<in>set ts. c \<notin> set t"
  shows "split_on c (join_with c ts) = ts"
  using assms
proof (induction ts)
  case Nil
  then show ?case by simp
next
  case (Cons t ts)
  then show ?case
    by (cases ts) (simp_all add: split_on_plain split_on_append_sep)
qed

definition contains_any :: "string \<Rightarrow> string \<Rightarrow> bool" where
  "contains_any s cs = list_ex (\<lambda>c. c \<in> set cs) s"

text \<open>
  ASCII case folding, what \<open>strings.ToLower\<close> and \<open>strings.EqualFold\<close> do on ASCII text. Every
  string the sources compare this way (header names, content encodings, DLQ reasons) is ASCII.
\<close>

definition ascii_lower :: "char \<Rightarrow> char" where
  "ascii_lower c = (if 65 \<le> (of_char c :: nat) \<and> (of_char c :: nat) \<le> 90
                    then char_of ((of_char c :: nat) + 32) else c)"

definition to_lower :: "string \<Rightarrow> string" where
  "to_lower s = map ascii_lower s"

definition equal_fold :: "string \<Rightarrow> string \<Rightarrow> bool" where
  "equal_fold a b \<longleftrightarrow> to_lower a = to_lower b"

lemma equal_fold_refl [simp, go_str]: "equal_fold a a"
  by (simp add: equal_fold_def)

text \<open>\<open>strings.TrimSpace\<close> on ASCII text.\<close>

definition ascii_space :: "char \<Rightarrow> bool" where
  "ascii_space c = (let n = (of_char c :: nat) in n = 32 \<or> (9 \<le> n \<and> n \<le> 13))"

definition trim_space :: "string \<Rightarrow> string" where
  "trim_space s = rev (dropWhile ascii_space (rev (dropWhile ascii_space s)))"

section \<open>Runes\<close>

text \<open>
  \<open>for _, r := range s\<close> decodes UTF-8. A byte that does not start a well-formed encoding yields
  the rune U+FFFD and the loop advances by one byte. The ranges of the continuation bytes are
  those of Go's \<open>unicode/utf8\<close> (no overlong forms, no surrogates, at most U+10FFFF).
\<close>

definition is_cont :: "nat \<Rightarrow> bool" where
  "is_cont b \<longleftrightarrow> 128 \<le> b \<and> b \<le> 191"

definition rune_error :: nat where "rune_error = 65533"

fun runes_of_bytes :: "nat list \<Rightarrow> nat list" where
  "runes_of_bytes [] = []"
| "runes_of_bytes (a # r1) =
     (if a < 128 then a # runes_of_bytes r1
      else (case r1 of
         b # r2 \<Rightarrow>
           (if 194 \<le> a \<and> a \<le> 223 \<and> is_cont b
            then ((a - 192) * 64 + (b - 128)) # runes_of_bytes r2
            else (case r2 of
               c # r3 \<Rightarrow>
                 (if 224 \<le> a \<and> a \<le> 239 \<and> is_cont b \<and> is_cont c
                     \<and> (a = 224 \<longrightarrow> 160 \<le> b) \<and> (a = 237 \<longrightarrow> b \<le> 159)
                  then ((a - 224) * 4096 + (b - 128) * 64 + (c - 128)) # runes_of_bytes r3
                  else (case r3 of
                     d # r4 \<Rightarrow>
                       (if 240 \<le> a \<and> a \<le> 244 \<and> is_cont b \<and> is_cont c \<and> is_cont d
                           \<and> (a = 240 \<longrightarrow> 144 \<le> b) \<and> (a = 244 \<longrightarrow> b \<le> 143)
                        then ((a - 240) * 262144 + (b - 128) * 4096 + (c - 128) * 64 + (d - 128))
                             # runes_of_bytes r4
                        else rune_error # runes_of_bytes r1)
                   | [] \<Rightarrow> rune_error # runes_of_bytes r1))
             | [] \<Rightarrow> rune_error # runes_of_bytes r1))
       | [] \<Rightarrow> rune_error # runes_of_bytes r1))"

definition runes :: "string \<Rightarrow> nat list" where
  "runes s = runes_of_bytes (map of_char s)"

definition is_ascii :: "string \<Rightarrow> bool" where
  "is_ascii s = list_all (\<lambda>c. (of_char c :: nat) < 128) s"

lemma runes_ascii [go_str]: "is_ascii s \<Longrightarrow> runes s = map of_char s"
  by (induction s) (simp_all add: runes_def is_ascii_def)

text \<open>\<open>unicode.IsSpace\<close>.\<close>

definition unicode_is_space :: "nat \<Rightarrow> bool" where
  "unicode_is_space r \<longleftrightarrow>
     r \<in> {9, 10, 11, 12, 13, 32, 133, 160, 5760, 8232, 8233, 8239, 8287, 12288}
     \<or> (8192 \<le> r \<and> r \<le> 8202)"

section \<open>Headers\<close>

text \<open>
  A message header is a Go map from keys to value lists that may be nil: an association list with
  one entry per key, or \<open>None\<close>. \<open>Header.Get\<close> of nats.go looks a key up verbatim and returns its
  first value, or the empty string. Assigning to a key of a nil header is only done after the
  header has been made.
\<close>

type_synonym header = "(string \<times> string list) list option"

definition header_lookup :: "header \<Rightarrow> string \<Rightarrow> string list option" where
  "header_lookup h k = (case h of None \<Rightarrow> None | Some m \<Rightarrow> map_of m k)"

definition header_Get :: "header \<Rightarrow> string \<Rightarrow> string" where
  "header_Get h k = (case header_lookup h k of Some (v # _) \<Rightarrow> v | _ \<Rightarrow> [])"

definition header_Set :: "header \<Rightarrow> string \<Rightarrow> string list \<Rightarrow> header" where
  "header_Set h k vs = Some (AList.update k vs (case h of None \<Rightarrow> [] | Some m \<Rightarrow> m))"

definition header_Del :: "header \<Rightarrow> string \<Rightarrow> header" where
  "header_Del h k = map_option (AList.delete k) h"

definition header_len :: "header \<Rightarrow> nat" where
  "header_len h = (case h of None \<Rightarrow> 0 | Some m \<Rightarrow> length m)"

lemma header_lookup_simps [simp, go_str]:
  "header_lookup None k = None"
  "header_lookup (Some m) k = map_of m k"
  "header_lookup (header_Set h k vs) k = Some vs"
  "k' \<noteq> k \<Longrightarrow> header_lookup (header_Set h k vs) k' = header_lookup h k'"
  "header_lookup (header_Del h k) k = None"
  "k' \<noteq> k \<Longrightarrow> header_lookup (header_Del h k) k' = header_lookup h k'"
  by (auto simp: header_lookup_def header_Set_def header_Del_def update_conv' delete_conv'
      split: option.splits)

lemma header_Get_Set [simp, go_str]:
  "header_Get (header_Set h k [v]) k = v"
  "k' \<noteq> k \<Longrightarrow> header_Get (header_Set h k vs) k' = header_Get h k'"
  by (simp_all add: header_Get_def)

lemma header_Get_Del [simp, go_str]:
  "header_Get (header_Del h k) k = []"
  "k' \<noteq> k \<Longrightarrow> header_Get (header_Del h k) k' = header_Get h k'"
  by (simp_all add: header_Get_def)

lemma header_Get_None [simp, go_str]: "header_Get None k = []"
  by (simp add: header_Get_def)

lemma header_len_Set [simp]: "header_len (header_Set h k vs) \<noteq> 0"
  by (auto simp: header_len_def header_Set_def split: option.splits)

lemma header_len_zero: "header_len h = 0 \<Longrightarrow> header_lookup h k = None"
  by (auto simp: header_len_def split: option.splits)

end
