(* ===== verification/Shard.thy ===== *)
theory Shard
  imports Prelude "HOL-Library.Word"
begin

text \<open>
  Subject sharding (\<open>shard/shard.go\<close> and \<open>internal/bytesconv\<close>): the FNV-1a hash of a key
  reduced to a shard index, the decimal rendering of the index, and the sharded subject.
  \<open>uint32\<close> is \<open>32 word\<close>. A Go panic (division by zero, index out of range) is \<open>None\<close>.
\<close>

unbundle bit_operations_syntax

definition fnvOffset32 :: "32 word" where "fnvOffset32 = 2166136261"
definition fnvPrime32 :: "32 word" where "fnvPrime32 = 16777619"
abbreviation itoaBufLen :: nat where "itoaBufLen \<equiv> 20"

text \<open>\<open>bytesconv.IsEmpty\<close>, and the two conversions, which share memory and so copy no byte.\<close>

definition IsEmpty :: "string \<Rightarrow> bool" where
  "IsEmpty s \<longleftrightarrow> s = []"

definition StringToBytes :: "string \<Rightarrow> bytes option" where
  "StringToBytes s = (if IsEmpty s then None else Some s)"

definition BytesToString :: "bytes \<Rightarrow> string" where
  "BytesToString b = (if length b = 0 then [] else b)"

text \<open>The hash loop, one byte at a time.\<close>

primrec fnv32a_loop :: "32 word \<Rightarrow> string \<Rightarrow> 32 word" where
  "fnv32a_loop hash [] = hash"
| "fnv32a_loop hash (c # s) =
     fnv32a_loop ((hash XOR word_of_nat (of_char c)) * fnvPrime32) s"

definition fnv32aString :: "string \<Rightarrow> 32 word" where
  "fnv32aString s = fnv32a_loop fnvOffset32 s"

text \<open>
  \<open>Index\<close>: the modulus is \<open>uint32(numShards)\<close>, so a shard count that is a multiple of \<open>2\<^sup>3\<^sup>2\<close>
  divides by zero.
\<close>

definition Index :: "string \<Rightarrow> int \<Rightarrow> int option" where
  "Index key numShards =
     (if numShards \<le> 0 then Some 0
      else let m = (word_of_int numShards :: 32 word) in
           if m = 0 then None else Some (uint (fnv32aString key mod m)))"

text \<open>The digit loop of \<open>itoa\<close>: fills a 20-byte buffer from the right.\<close>

function itoa_loop :: "int \<Rightarrow> nat \<Rightarrow> bytes \<Rightarrow> (nat \<times> bytes) option" where
  "itoa_loop n i buf =
     (if n > 0 then
        (if i = 0 then None
         else itoa_loop (n div 10) (i - 1) (buf[i - 1 := char_of (nat (48 + n mod 10))]))
      else Some (i, buf))"
  by pat_completeness auto
termination
  by (relation "measure (\<lambda>(n, i, buf). nat n)") auto

declare itoa_loop.simps [simp del]

definition itoa :: "int \<Rightarrow> string option" where
  "itoa n =
     (if n = 0 then Some ''0''
      else case itoa_loop n itoaBufLen (replicate itoaBufLen (CHR 0x00)) of
             None \<Rightarrow> None
           | Some (i, buf) \<Rightarrow> Some (BytesToString (drop i buf)))"

definition Subject :: "string \<Rightarrow> string \<Rightarrow> int \<Rightarrow> string \<Rightarrow> string option" where
  "Subject prefix key numShards action =
     (case Index key numShards of
        None \<Rightarrow> None
      | Some idx \<Rightarrow>
          (case itoa idx of
             None \<Rightarrow> None
           | Some d \<Rightarrow>
               Some (if IsEmpty action then prefix @ ''.'' @ d
                     else prefix @ ''.'' @ d @ ''.'' @ action)))"

lemma BytesToString_id [simp]: "BytesToString b = b"
  by (simp add: BytesToString_def)

section \<open>Decimal rendering\<close>

text \<open>Reading a decimal numeral back.\<close>

definition digit_val :: "char \<Rightarrow> int" where
  "digit_val c = int (of_char c) - 48"

fun dec_val :: "string \<Rightarrow> int" where
  "dec_val [] = 0"
| "dec_val (c # s) = digit_val c * 10 ^ length s + dec_val s"

definition is_digit :: "char \<Rightarrow> bool" where
  "is_digit c \<longleftrightarrow> 48 \<le> (of_char c :: nat) \<and> (of_char c :: nat) \<le> 57"

text \<open>The digits of a positive number, most significant first.\<close>

fun digits_of :: "nat \<Rightarrow> string" where
  "digits_of n = (if n = 0 then [] else digits_of (n div 10) @ [char_of (48 + n mod 10)])"

declare digits_of.simps [simp del]

lemma digits_of_0 [simp]: "digits_of 0 = []"
  by (simp add: digits_of.simps)

lemma of_char_digit [simp]: "of_char (char_of (48 + n mod 10 :: nat)) = (48 + n mod 10 :: nat)"
proof -
  have "n mod 10 < 10"
    by simp
  then have "48 + n mod 10 < 256"
    by linarith
  then show ?thesis by (simp add: of_char_of)
qed

lemma length_digits_of: "n < 10 ^ k \<Longrightarrow> length (digits_of n) \<le> k"
proof (induction k arbitrary: n)
  case 0
  then show ?case by simp
next
  case (Suc k)
  then have "n div 10 < 10 ^ k" by (simp add: less_mult_imp_div_less mult.commute)
  with Suc.IH have "length (digits_of (n div 10)) \<le> k" by blast
  then show ?case by (subst digits_of.simps) simp
qed

lemma digits_of_is_digit: "c \<in> set (digits_of n) \<Longrightarrow> is_digit c"
proof (induction n rule: digits_of.induct)
  case (1 n)
  have "n mod 10 < 10"
    by simp
  then have "n mod 10 \<le> 9"
    by linarith
  with 1 show ?case
    by (subst (asm) digits_of.simps) (auto simp: is_digit_def split: if_splits)
qed

lemma dec_val_snoc: "dec_val (s @ [c]) = dec_val s * 10 + digit_val c"
  by (induction s) (simp_all add: algebra_simps)

lemma dec_val_digits_of: "dec_val (digits_of n) = int n"
proof (induction n rule: digits_of.induct)
  case (1 n)
  show ?case
  proof (cases "n = 0")
    case True
    then show ?thesis by simp
  next
    case False
    have "dec_val (digits_of n) = dec_val (digits_of (n div 10)) * 10 + int (n mod 10)"
      using False by (subst digits_of.simps) (simp add: dec_val_snoc digit_val_def)
    also have "\<dots> = int n"
      using 1 False by (simp add: zdiv_int zmod_int)
    finally show ?thesis .
  qed
qed

text \<open>
  The buffer loop writes exactly those digits: with room for \<open>length (digits_of n)\<close> bytes left of
  \<open>i\<close> it stops without an out-of-range write, and the part of the buffer from the final index on
  is the digits followed by what was there.
\<close>

lemma itoa_loop_digits:
  assumes "0 \<le> n" and "length (digits_of (nat n)) \<le> i" and "i \<le> length buf"
  shows "\<exists>buf'. itoa_loop n i buf = Some (i - length (digits_of (nat n)), buf')
           \<and> length buf' = length buf
           \<and> drop (i - length (digits_of (nat n))) buf' = digits_of (nat n) @ drop i buf"
  using assms
proof (induction n i buf rule: itoa_loop.induct)
  case (1 n i buf)
  show ?case
  proof (cases "n > 0")
    case False
    with "1.prems" show ?thesis by (simp add: itoa_loop.simps [of 0 i buf])
  next
    case True
    define c where "c = (char_of (nat (48 + n mod 10)) :: char)"
    define ds where "ds = digits_of (nat (n div 10))"
    have dig: "digits_of (nat n) = ds @ [c]"
      using True by (subst digits_of.simps)
        (simp add: ds_def c_def nat_div_distrib nat_mod_distrib nat_add_distrib)
    with "1.prems" have i: "i \<noteq> 0" "length ds \<le> i - 1" by simp_all
    let ?buf = "buf[i - 1 := c]"
    have h: "0 \<le> n div 10" "length (digits_of (nat (n div 10))) \<le> i - 1"
        "i - 1 \<le> length (buf[i - 1 := char_of (nat (48 + n mod 10))])"
      using True i "1.prems"(3) by (simp_all add: ds_def pos_imp_zdiv_nonneg_iff)
    obtain buf' where IH: "itoa_loop (n div 10) (i - 1) ?buf = Some (i - 1 - length ds, buf')"
        "length buf' = length ?buf"
        "drop (i - 1 - length ds) buf' = ds @ drop (i - 1) ?buf"
      using "1.IH" [OF True i(1) h] unfolding ds_def c_def by blast
    have "drop (i - 1) ?buf = c # drop i buf"
      using i "1.prems"(3) by (simp add: Cons_nth_drop_Suc [symmetric])
    with IH True i dig show ?thesis
      by (simp add: itoa_loop.simps [of n i buf] c_def)
  qed
qed

lemma itoa_digits:
  assumes "0 \<le> n" and "n < 2 ^ 63"
  shows "itoa n = Some (if n = 0 then ''0'' else digits_of (nat n))"
proof (cases "n = 0")
  case True
  then show ?thesis by (simp add: itoa_def)
next
  case False
  have "nat n < 10 ^ 20" using assms by simp
  then have len: "length (digits_of (nat n)) \<le> itoaBufLen"
    by (rule length_digits_of)
  obtain buf' where
    "itoa_loop n itoaBufLen (replicate itoaBufLen (CHR 0x00)) =
       Some (itoaBufLen - length (digits_of (nat n)), buf')"
    "drop (itoaBufLen - length (digits_of (nat n))) buf' = digits_of (nat n)"
    using itoa_loop_digits [OF assms(1) len, of "replicate itoaBufLen (CHR 0x00)"] by auto
  with False show ?thesis by (simp add: itoa_def BytesToString_id)
qed

lemma Index_bounds:
  assumes "1 \<le> n" and "n < 2 ^ 32"
  shows "\<exists>i. Index key n = Some i \<and> 0 \<le> i \<and> i < n"
proof -
  let ?m = "word_of_int n :: 32 word"
  have u: "uint ?m = n" using assms by (simp add: uint_word_of_int)
  then have nz: "?m \<noteq> 0" using assms by (auto dest: arg_cong [where f = uint])
  have "uint (fnv32aString key mod ?m) = uint (fnv32aString key) mod n"
    by (simp add: uint_mod_distrib u)
  moreover have "0 \<le> uint (fnv32aString key) mod n" "uint (fnv32aString key) mod n < n"
    using assms by simp_all
  ultimately show ?thesis using assms nz by (simp add: Index_def Let_def)
qed

text \<open>
  For every shard count from 1 to \<open>2\<^sup>3\<^sup>2 - 1\<close>, \<open>Subject\<close> returns (no panic) a subject whose
  dot-separated tokens are those of the prefix, then one token made of decimal digits only whose
  value is a shard index in \<open>[0, numShards)\<close> that depends on the key and the count alone, then
  those of the action when there is one.
\<close>

theorem Subject_tokens:
  assumes "1 \<le> n" and "n < 2 ^ 32"
  shows "\<exists>s i d. Subject prefix key n action = Some s \<and> Index key n = Some i
           \<and> 0 \<le> i \<and> i < n \<and> dec_val d = i \<and> d \<noteq> [] \<and> (\<forall>c\<in>set d. is_digit c)
           \<and> split_on CHR ''.'' s = split_on CHR ''.'' prefix @ [d] @
               (if action = [] then [] else split_on CHR ''.'' action)"
proof -
  obtain i where i: "Index key n = Some i" "0 \<le> i" "i < n"
    using Index_bounds [OF assms] by blast
  define d where "d = (if i = 0 then ''0'' else digits_of (nat i))"
  have d: "itoa i = Some d" using i assms by (simp add: d_def itoa_digits)
  have ne: "d \<noteq> []" using i(2) by (subst d_def, subst digits_of.simps) simp
  have dig: "\<forall>c\<in>set d. is_digit c"
    by (auto simp: d_def digits_of_is_digit is_digit_def dest: digits_of_is_digit split: if_splits)
  have val: "dec_val d = i" using i(2) by (simp add: d_def dec_val_digits_of digit_val_def)
  have nodot: "CHR ''.'' \<notin> set d"
    using dig by (auto simp: is_digit_def)
  have "split_on CHR ''.'' (prefix @ ''.'' @ d) = split_on CHR ''.'' prefix @ [d]"
    using split_on_append_sep [of "CHR ''.''" prefix d] nodot by (simp add: split_on_plain)
  moreover have "split_on CHR ''.'' (prefix @ ''.'' @ d @ ''.'' @ action) =
      split_on CHR ''.'' prefix @ [d] @ split_on CHR ''.'' action"
    using split_on_append_sep [of "CHR ''.''" prefix "d @ ''.'' @ action"]
      split_on_append_sep [of "CHR ''.''" d action] nodot by (simp add: split_on_plain)
  ultimately show ?thesis
    using i d ne dig val by (auto simp: Subject_def IsEmpty_def)
qed

theorem Subject_tokens_witness:
  "(1::int) \<le> 8 \<and> (8::int) < 2 ^ 32 \<and>
   (\<exists>s i d. Subject ''orders.shard'' ''acct-1'' 8 ''created'' = Some s
      \<and> Index ''acct-1'' 8 = Some i \<and> 0 \<le> i \<and> i < 8 \<and> dec_val d = i \<and> d \<noteq> []
      \<and> (\<forall>c\<in>set d. is_digit c)
      \<and> split_on CHR ''.'' s = [''orders'', ''shard''] @ [d] @ [''created''])"
  using Subject_tokens [of 8 "''orders.shard''" "''acct-1''" "''created''"] by simp

text \<open>
  The other end of the range: a shard count that is a positive multiple of \<open>2\<^sup>3\<^sup>2\<close> makes the
  modulus zero and \<open>Index\<close> panics, for every key.
\<close>

lemma Index_panics_at_multiple_of_2_32:
  assumes "0 < k"
  shows "Index key (k * 2 ^ 32) = None"
proof -
  have "uint (word_of_int (k * 2 ^ 32) :: 32 word) = 0"
    by (simp only: uint_word_of_int) simp
  then have "(word_of_int (k * 2 ^ 32) :: 32 word) = 0"
    by (simp only: uint_0_iff)
  with assms show ?thesis by (simp add: Index_def)
qed

end
