(* ===== verification/Page.thy ===== *)
theory Page
  imports Prelude
begin

text \<open>
  Paging of listings (\<open>src/page.go\<close>). \<open>pageSlice\<close> cuts a page out of a list by offset and limit,
  \<open>pageInfos\<close> fetches the item of every name of a page. A Go slice expression whose bounds are
  out of order panics: the model returns \<^const>\<open>None\<close> there.
\<close>

section \<open>Operations\<close>

text \<open>\<open>items[lo:hi]\<close>, with the run-time check of its bounds.\<close>

definition slice_expr :: "'a list \<Rightarrow> int \<Rightarrow> int \<Rightarrow> 'a list option" where
  "slice_expr items lo hi =
     (if 0 \<le> lo \<and> lo \<le> hi \<and> hi \<le> int (length items)
      then Some (take (nat (hi - lo)) (drop (nat lo) items)) else None)"

definition pageSlice :: "'a list \<Rightarrow> int \<Rightarrow> int \<Rightarrow> ('a list \<times> nat) option" where
  "pageSlice items offset0 limit =
     (let total = length items;
          offset = (if offset0 < 0 then 0 else offset0) in
      if offset \<ge> int total then Some ([], total)
      else if limit < 0 then Some (drop (nat offset) items, total)
      else
        let end0 = i64 (offset + limit);
            end1 = (if end0 > int total then int total else end0) in
        map_option (\<lambda>page. (page, total)) (slice_expr items offset end1))"

text \<open>
  \<open>fetch\<close> reaches the server, so it takes and returns the state \<open>'w\<close> of the outside world.
\<close>

fun fetch_infos ::
  "(string \<Rightarrow> 'w \<Rightarrow> 'a result \<times> 'w) \<Rightarrow> (err \<Rightarrow> bool) \<Rightarrow> string list \<Rightarrow> 'a list \<Rightarrow> 'w \<Rightarrow>
   'a list result \<times> 'w" where
  "fetch_infos fetch isNotFound [] infos w = (Inr infos, w)"
| "fetch_infos fetch isNotFound (name # names) infos w =
     (case fetch name w of
        (Inl e, w') \<Rightarrow>
          (if isNotFound e then fetch_infos fetch isNotFound names infos w' else (Inl e, w'))
      | (Inr info, w') \<Rightarrow> fetch_infos fetch isNotFound names (infos @ [info]) w')"

definition pageInfos ::
  "string list \<Rightarrow> int \<Rightarrow> int \<Rightarrow> (string \<Rightarrow> 'w \<Rightarrow> 'a result \<times> 'w) \<Rightarrow> (err \<Rightarrow> bool) \<Rightarrow> 'w \<Rightarrow>
   ('a list result \<times> nat \<times> 'w) option" where
  "pageInfos names offset limit fetch isNotFound w =
     (case pageSlice names offset limit of
        None \<Rightarrow> None
      | Some (pageNames, _) \<Rightarrow>
          (case fetch_infos fetch isNotFound pageNames [] w of
             (r, w') \<Rightarrow> Some (r, length names, w')))"

section \<open>Properties\<close>

text \<open>The page a caller means: at most \<open>limit\<close> items from \<open>offset\<close> on, all of them if \<open>limit\<close> is negative.\<close>

definition page_spec :: "'a list \<Rightarrow> int \<Rightarrow> int \<Rightarrow> 'a list" where
  "page_spec items offset limit =
     (if limit < 0 then drop (nat offset) items else take (nat limit) (drop (nat offset) items))"

lemma pageSlice_page_spec:
  assumes "in_i64 offset" "in_i64 limit" "offset < int (length items) \<longrightarrow> in_i64 (offset + limit)"
  shows "pageSlice items offset limit = Some (page_spec items offset limit, length items)"
proof -
  define o' where "o' = (if offset < 0 then 0 else offset)"
  have o': "0 \<le> o'" "nat o' = nat offset" by (simp_all add: o'_def)
  have wrap: "i64 (o' + limit) = o' + limit" if "o' < int (length items)"
    using assms that by (intro i64_id) (auto simp: o'_def split: if_splits)
  show ?thesis
  proof (cases "o' \<ge> int (length items) \<or> limit < 0")
    case True
    with o' show ?thesis
      by (auto simp: pageSlice_def page_spec_def Let_def o'_def [symmetric])
  next
    case False
    with o' wrap show ?thesis
      by (simp add: pageSlice_def page_spec_def slice_expr_def Let_def o'_def [symmetric]
          nat_diff_distrib nat_add_distrib)
  qed
qed

text \<open>Consecutive pages of one size neither lose nor repeat an item.\<close>

lemma pages_concat:
  "concat (map (\<lambda>k. page_spec items (int (k * n)) (int n)) [0..<m]) = take (m * n) items"
proof (induction m)
  case (Suc m)
  then show ?case
    by (simp add: page_spec_def take_add [symmetric] add.commute nat_mult_distrib)
qed simp

lemma page_in_range:
  assumes "in_i64 (int (m * n))" "k < m"
  shows "pageSlice items (int (k * n)) (int n)
    = Some (page_spec items (int (k * n)) (int n), length items)"
proof -
  have "k * n + n \<le> m * n" using mult_le_mono1 [of "Suc k" m n] assms(2) by simp
  then have le: "int (k * n) + int n \<le> int (m * n)" by linarith
  show ?thesis
    by (intro pageSlice_page_spec)
      (use le assms(1) in \<open>simp_all add: in_i64_def del: of_nat_mult\<close>)
qed

text \<open>
  Reading a listing page by page returns the listing: with enough pages of one size to hold
  it, every page that starts at a multiple of the size is returned without a panic and with the
  right total, and the pages concatenated are the listing.
\<close>

theorem pageSlice_pages:
  assumes "length items \<le> m * n" "in_i64 (int (m * n))"
  shows "(\<forall>k<m. pageSlice items (int (k * n)) (int n) \<noteq> None)
    \<and> (\<forall>k<m. snd (the (pageSlice items (int (k * n)) (int n))) = length items)
    \<and> concat (map (\<lambda>k. fst (the (pageSlice items (int (k * n)) (int n)))) [0..<m]) = items"
proof -
  have "concat (map (\<lambda>k. fst (the (pageSlice items (int (k * n)) (int n)))) [0..<m])
      = concat (map (\<lambda>k. page_spec items (int (k * n)) (int n)) [0..<m])"
    using page_in_range [OF assms(2), of _ items] by (intro arg_cong [of _ _ concat] map_cong) auto
  with assms page_in_range [OF assms(2), of _ items] show ?thesis
    by (simp add: pages_concat del: of_nat_mult)
qed

theorem pageSlice_pages_witness:
  "concat (map (\<lambda>k. fst (the (pageSlice [1, 2, 3, 4, 5::nat] (int (k * 2)) (int 2)))) [0..<3])
    = [1, 2, 3, 4, 5]"
  using pageSlice_pages [of "[1, 2, 3, 4, 5::nat]" 3 2] by (simp add: in_i64_def)

text \<open>
  A limit close to the largest \<open>int\<close> wraps \<open>offset + limit\<close> to a negative bound: the slice
  expression panics although the request is just "everything from here on".
\<close>

lemma pageSlice_overflow_panics:
  assumes "0 < offset" "offset < int (length items)" "in_i64 offset"
  shows "pageSlice items offset (2 ^ 63 - 1) = None"
proof -
  have "i64 (offset + (2 ^ 63 - 1)) < 0"
    using assms i64_wrap_high [of "offset + (2 ^ 63 - 1)"] by (simp add: in_i64_def)
  with assms show ?thesis by (simp add: pageSlice_def slice_expr_def Let_def)
qed

text \<open>What \<open>fetch_infos\<close> returns when the fetches do not depend on each other.\<close>

definition found_infos :: "(string \<Rightarrow> 'a result) \<Rightarrow> string list \<Rightarrow> 'a list" where
  "found_infos lookup names = [v. n \<leftarrow> names, v \<leftarrow> (case lookup n of Inr v \<Rightarrow> [v] | Inl _ \<Rightarrow> [])]"

lemma fetch_infos_ok:
  assumes "\<And>n w. n \<in> set names \<Longrightarrow> fst (fetch n w) = lookup n"
    and "\<And>n e. n \<in> set names \<Longrightarrow> lookup n = Inl e \<Longrightarrow> isNotFound e"
  shows "fst (fetch_infos fetch isNotFound names infos w) = Inr (infos @ found_infos lookup names)"
  using assms
proof (induction names arbitrary: infos w)
  case Nil
  then show ?case by (simp add: found_infos_def)
next
  case (Cons n names)
  obtain r w' where f: "fetch n w = (r, w')" by (cases "fetch n w")
  with Cons.prems(1) [of n w] have r: "r = lookup n" by simp
  have IH: "fst (fetch_infos fetch isNotFound names infos' w')
      = Inr (infos' @ found_infos lookup names)" for infos'
    using Cons.prems by (intro Cons.IH) auto
  show ?case
    using f r Cons.prems(2) [of n] IH by (cases "lookup n") (simp_all add: found_infos_def)
qed

lemma fetch_infos_error:
  assumes "fst (fetch n w) = Inl e" "\<not> isNotFound e"
  shows "fst (fetch_infos fetch isNotFound (n # names) infos w) = Inl e"
  using assms by (cases "fetch n w") simp

end
