(* ===== verification/WorkerPool.thy ===== *)
theory WorkerPool
  imports Prelude "HOL-Library.Word" "HOL-Library.Multiset"
begin

text \<open>
  The worker pool (\<open>src/workerpool/workerpool.go\<close>) as an interleaving of its goroutines. A state
  holds the shared fields of \<open>WorkerPool\<close> and one program counter per goroutine: the workers
  started by \<open>Consume\<close>, the calls of \<open>tryPublish\<close> and the calls of \<open>GracefulStop\<close>. One step is one
  atomic action of one goroutine: an atomic load, add, store or compare-and-swap, a channel
  operation, a lock or unlock of \<open>mu\<close>, a wait on \<open>cond\<close>, or the return of a handler. The section
  \<open>Lock; Broadcast; Unlock\<close> of \<open>signalDrain\<close> is one action that needs the mutex.

  The pooled task objects of \<open>sync.Pool\<close> are values here: an object goes back to the pool only
  after its last use, so no two goroutines share one. Log output is left out.
\<close>

section \<open>State\<close>

abbreviation stateRunning :: "32 word" where "stateRunning \<equiv> 1"
abbreviation stateDraining :: "32 word" where "stateDraining \<equiv> 2"
abbreviation stateStopped :: "32 word" where "stateStopped \<equiv> 3"

lemma pool_states_distinct [simp]:
  "stateRunning \<noteq> stateDraining" "stateDraining \<noteq> stateRunning" "stateRunning \<noteq> stateStopped"
  "stateStopped \<noteq> stateRunning" "stateDraining \<noteq> stateStopped" "stateStopped \<noteq> stateDraining"
  by simp_all

type_synonym ctx_id = nat
type_synonym 'm msgFn = "ctx_id \<Rightarrow> 'm \<Rightarrow> err option"

record 'm task =
  t_ctx :: ctx_id
  t_msg :: 'm
  t_applyFn :: bool
  t_processFn :: "'m msgFn option"

text \<open>Where \<open>process\<close> returns to: \<open>runner\<close>, or one of its two calls in \<open>drain\<close>.\<close>

datatype kont = KRunner | KDrain | KDrainLocked

datatype 'm wpc =
    RunnerSelect
  | ProcDepth "'m task" kont
  | ProcInFlight "'m task" kont
  | ProcSignal "'m task" kont
  | ProcHandle "'m task" kont
  | ProcDone kont
  | ProcSignalDone kont
  | DrainRecv
  | DrainPublishers | DrainDepth | DrainInFlight
  | DrainLock
  | LoopPublishers | LoopDepth | LoopInFlight
  | LoopRecv
  | LoopUnlockTask "'m task"
  | BreakPublishers | BreakDepth | BreakInFlight
  | CondWait
  | CondParked
  | CondRelock
  | LoopUnlock
  | RunnerReturn
  | RunnerGone

record 'm pub_call =
  pc_task :: "'m task"
  pc_nonBlocking :: bool

datatype rollback_cause = BufferFull | CtxDone err | PoolDone

datatype 'm ppc =
    PubEnter "'m pub_call"
  | PubState "'m pub_call"
  | PubDepth "'m pub_call"
  | PubSelect "'m pub_call"
  | PubSent "'m pub_call"
  | PubRollback "'m pub_call" rollback_cause
  | PubRecheck "'m pub_call"
  | PubLeave "'m pub_call" bool "err option"
  | PubSignal "'m pub_call" bool "err option"
  | PubReturned "'m pub_call" bool "err option"

datatype spc = StopCAS | StopCancel | StopSignal | StopWait | StopStore | StopClose
  | StopAwait | StopReturned

record 'm pool =
  w_len :: nat
  w_cap :: nat
  w_registerFn :: "'m msgFn option"
  w_input :: "'m task list"
  w_ctxErr :: "err option"
  w_stopped :: bool
  w_wg :: int
  w_depth :: int
  w_inFlight :: int
  w_publishers :: int
  w_mu :: bool
  w_state :: "32 word"
  w_workers :: "'m wpc list"
  w_pubs :: "'m ppc list"
  w_stops :: "spc list"
  w_log :: "('m task \<times> err option) list"

section \<open>Operations\<close>

definition New :: "int \<Rightarrow> int \<Rightarrow> 'm msgFn option \<Rightarrow> 'm pool" where
  "New workerPoolLen messageBufLen registerFn =
     \<lparr> w_len = nat (if workerPoolLen < 1 then 1 else workerPoolLen),
       w_cap = nat (if messageBufLen < 0 then 0 else messageBufLen),
       w_registerFn = registerFn, w_input = [], w_ctxErr = None, w_stopped = False, w_wg = 0,
       w_depth = 0, w_inFlight = 0, w_publishers = 0, w_mu = False, w_state = stateRunning,
       w_workers = [], w_pubs = [], w_stops = [], w_log = [] \<rparr>"

definition Consume :: "'m pool \<Rightarrow> 'm pool" where
  "Consume w = w\<lparr> w_wg := w_wg w + int (w_len w),
                   w_workers := w_workers w @ replicate (w_len w) RunnerSelect \<rparr>"

definition set_worker :: "nat \<Rightarrow> 'm wpc \<Rightarrow> 'm pool \<Rightarrow> 'm pool" where
  "set_worker i pc w = w\<lparr> w_workers := (w_workers w)[i := pc] \<rparr>"

definition set_pub :: "nat \<Rightarrow> 'm ppc \<Rightarrow> 'm pool \<Rightarrow> 'm pool" where
  "set_pub i pc w = w\<lparr> w_pubs := (w_pubs w)[i := pc] \<rparr>"

definition set_stop :: "nat \<Rightarrow> spc \<Rightarrow> 'm pool \<Rightarrow> 'm pool" where
  "set_stop i pc w = w\<lparr> w_stops := (w_stops w)[i := pc] \<rparr>"

text \<open>\<open>signalDrain\<close>: with the mutex free, every parked worker is woken and will relock.\<close>

definition wake :: "'m wpc \<Rightarrow> 'm wpc" where
  "wake pc = (case pc of CondParked \<Rightarrow> CondRelock | _ \<Rightarrow> pc)"

definition signalDrain :: "'m pool \<Rightarrow> 'm pool option" where
  "signalDrain w = (if w_mu w then None else Some (w\<lparr> w_workers := map wake (w_workers w) \<rparr>))"

text \<open>The handler \<open>process\<close> calls.\<close>

definition run_task :: "'m msgFn option \<Rightarrow> 'm task \<Rightarrow> err option" where
  "run_task registerFn t =
     (case (t_applyFn t, t_processFn t) of
        (True, Some f) \<Rightarrow> f (t_ctx t) (t_msg t)
      | _ \<Rightarrow> (case registerFn of
               Some f \<Rightarrow> f (t_ctx t) (t_msg t)
             | None \<Rightarrow> Some (EMsg ''worker pool: missing handler'')))"

fun resume :: "kont \<Rightarrow> 'm wpc" where
  "resume KRunner = RunnerSelect"
| "resume KDrain = DrainRecv"
| "resume KDrainLocked = CondRelock"

text \<open>A receive from the buffered input channel, with what to do when nothing is there.\<close>

definition recv_else :: "nat \<Rightarrow> ('m task \<Rightarrow> 'm wpc) \<Rightarrow> 'm pool option \<Rightarrow> 'm pool \<Rightarrow> 'm pool option" where
  "recv_else i got dflt w =
     (case w_input w of t # ts \<Rightarrow> Some (set_worker i (got t) (w\<lparr> w_input := ts \<rparr>)) | [] \<Rightarrow> dflt)"

text \<open>
  One step of worker \<open>i\<close>. The flag \<open>done\<close> picks the case of the \<open>select\<close> in \<open>runner\<close>: the
  receive, or \<open>ctx.Done()\<close>. \<^const>\<open>None\<close>: the goroutine is blocked there.
\<close>

definition worker_step :: "bool \<Rightarrow> nat \<Rightarrow> 'm pool \<Rightarrow> 'm pool option" where
  "worker_step done i w =
     (case w_workers w ! i of
        RunnerSelect \<Rightarrow>
          (if done then (if w_ctxErr w \<noteq> None then Some (set_worker i DrainRecv w) else None)
           else recv_else i (\<lambda>t. ProcDepth t KRunner) None w)
      | ProcDepth t k \<Rightarrow> Some (set_worker i (ProcInFlight t k) (w\<lparr> w_depth := w_depth w - 1 \<rparr>))
      | ProcInFlight t k \<Rightarrow>
          Some (set_worker i (ProcSignal t k) (w\<lparr> w_inFlight := w_inFlight w + 1 \<rparr>))
      | ProcSignal t k \<Rightarrow> map_option (set_worker i (ProcHandle t k)) (signalDrain w)
      | ProcHandle t k \<Rightarrow>
          Some (set_worker i (ProcDone k)
            (w\<lparr> w_log := w_log w @ [(t, run_task (w_registerFn w) t)] \<rparr>))
      | ProcDone k \<Rightarrow>
          Some (set_worker i (ProcSignalDone k) (w\<lparr> w_inFlight := w_inFlight w - 1 \<rparr>))
      | ProcSignalDone k \<Rightarrow> map_option (set_worker i (resume k)) (signalDrain w)
      | DrainRecv \<Rightarrow>
          recv_else i (\<lambda>t. ProcDepth t KDrain) (Some (set_worker i DrainPublishers w)) w
      | DrainPublishers \<Rightarrow>
          Some (set_worker i (if w_publishers w = 0 then DrainDepth else DrainLock) w)
      | DrainDepth \<Rightarrow> Some (set_worker i (if w_depth w = 0 then DrainInFlight else DrainLock) w)
      | DrainInFlight \<Rightarrow>
          Some (set_worker i (if w_inFlight w = 0 then RunnerReturn else DrainLock) w)
      | DrainLock \<Rightarrow>
          (if w_mu w then None else Some (set_worker i LoopPublishers (w\<lparr> w_mu := True \<rparr>)))
      | LoopPublishers \<Rightarrow>
          Some (set_worker i (if w_publishers w \<noteq> 0 then LoopRecv else LoopDepth) w)
      | LoopDepth \<Rightarrow> Some (set_worker i (if w_depth w \<noteq> 0 then LoopRecv else LoopInFlight) w)
      | LoopInFlight \<Rightarrow> Some (set_worker i (if w_inFlight w \<noteq> 0 then LoopRecv else LoopUnlock) w)
      | LoopRecv \<Rightarrow> recv_else i LoopUnlockTask (Some (set_worker i BreakPublishers w)) w
      | LoopUnlockTask t \<Rightarrow>
          Some (set_worker i (ProcDepth t KDrainLocked) (w\<lparr> w_mu := False \<rparr>))
      | BreakPublishers \<Rightarrow>
          Some (set_worker i (if w_publishers w = 0 then BreakDepth else CondWait) w)
      | BreakDepth \<Rightarrow> Some (set_worker i (if w_depth w = 0 then BreakInFlight else CondWait) w)
      | BreakInFlight \<Rightarrow> Some (set_worker i (if w_inFlight w = 0 then LoopUnlock else CondWait) w)
      | CondWait \<Rightarrow> Some (set_worker i CondParked (w\<lparr> w_mu := False \<rparr>))
      | CondParked \<Rightarrow> None
      | CondRelock \<Rightarrow>
          (if w_mu w then None else Some (set_worker i LoopPublishers (w\<lparr> w_mu := True \<rparr>)))
      | LoopUnlock \<Rightarrow> Some (set_worker i DrainRecv (w\<lparr> w_mu := False \<rparr>))
      | RunnerReturn \<Rightarrow> Some (set_worker i RunnerGone (w\<lparr> w_wg := w_wg w - 1 \<rparr>))
      | RunnerGone \<Rightarrow> None)"

text \<open>
  One step of the \<open>tryPublish\<close> call \<open>i\<close>. In its \<open>select\<close> the case is picked by \<open>choice\<close>.
\<close>

datatype choice = TrySend | TryCtx err | TryPool

definition publish_step :: "choice \<Rightarrow> nat \<Rightarrow> 'm pool \<Rightarrow> 'm pool option" where
  "publish_step ch i w =
     (case w_pubs w ! i of
        PubEnter c \<Rightarrow> Some (set_pub i (PubState c) (w\<lparr> w_publishers := w_publishers w + 1 \<rparr>))
      | PubState c \<Rightarrow>
          Some (set_pub i (if w_state w \<noteq> stateRunning
                           then PubLeave c False (Some (ESent ErrPoolStopped)) else PubDepth c) w)
      | PubDepth c \<Rightarrow> Some (set_pub i (PubSelect c) (w\<lparr> w_depth := w_depth w + 1 \<rparr>))
      | PubSelect c \<Rightarrow>
          (case ch of
             TrySend \<Rightarrow>
               (if length (w_input w) < w_cap w
                then Some (set_pub i (PubSent c) (w\<lparr> w_input := w_input w @ [pc_task c] \<rparr>))
                else if pc_nonBlocking c then Some (set_pub i (PubRollback c BufferFull) w) else None)
           | TryCtx e \<Rightarrow>
               (if pc_nonBlocking c then None else Some (set_pub i (PubRollback c (CtxDone e)) w))
           | TryPool \<Rightarrow>
               (if pc_nonBlocking c \<or> w_ctxErr w = None then None
                else Some (set_pub i (PubRollback c PoolDone) w)))
      | PubSent c \<Rightarrow> map_option (set_pub i (PubLeave c True None)) (signalDrain w)
      | PubRollback c r \<Rightarrow>
          Some (set_pub i (case r of BufferFull \<Rightarrow> PubLeave c False None
                                   | CtxDone e \<Rightarrow> PubLeave c False (Some e)
                                   | PoolDone \<Rightarrow> PubRecheck c)
            (w\<lparr> w_depth := w_depth w - 1 \<rparr>))
      | PubRecheck c \<Rightarrow>
          Some (set_pub i (PubLeave c False
            (if w_state w \<noteq> stateRunning then Some (ESent ErrPoolStopped) else w_ctxErr w)) w)
      | PubLeave c ok e \<Rightarrow> Some (set_pub i (PubSignal c ok e) (w\<lparr> w_publishers := w_publishers w - 1 \<rparr>))
      | PubSignal c ok e \<Rightarrow> map_option (set_pub i (PubReturned c ok e)) (signalDrain w)
      | PubReturned c ok e \<Rightarrow> None)"

text \<open>
  A channel of capacity 0 hands the task from the call \<open>i\<close> to a worker \<open>j\<close> that is at a receive;
  one of the two has to be waiting, so a non-blocking send only meets the blocking receive of
  \<open>runner\<close>.
\<close>

definition rendezvous :: "nat \<Rightarrow> nat \<Rightarrow> 'm pool \<Rightarrow> 'm pool option" where
  "rendezvous i j w =
     (case (w_pubs w ! i, w_workers w ! j) of
        (PubSelect c, pc) \<Rightarrow>
          (if w_cap w \<noteq> 0 then None
           else case pc of
               RunnerSelect \<Rightarrow>
                 Some (set_pub i (PubSent c) (set_worker j (ProcDepth (pc_task c) KRunner) w))
             | DrainRecv \<Rightarrow> (if pc_nonBlocking c then None else
                 Some (set_pub i (PubSent c) (set_worker j (ProcDepth (pc_task c) KDrain) w)))
             | LoopRecv \<Rightarrow> (if pc_nonBlocking c then None else
                 Some (set_pub i (PubSent c) (set_worker j (LoopUnlockTask (pc_task c)) w)))
             | _ \<Rightarrow> None)
      | _ \<Rightarrow> None)"

text \<open>One step of the \<open>GracefulStop\<close> call \<open>i\<close>.\<close>

definition stop_step :: "nat \<Rightarrow> 'm pool \<Rightarrow> 'm pool option" where
  "stop_step i w =
     (case w_stops w ! i of
        StopCAS \<Rightarrow>
          (if w_state w = stateRunning
           then Some (set_stop i StopCancel (w\<lparr> w_state := stateDraining \<rparr>))
           else Some (set_stop i StopAwait w))
      | StopCancel \<Rightarrow>
          Some (set_stop i StopSignal (w\<lparr> w_ctxErr :=
            (case w_ctxErr w of None \<Rightarrow> Some (ESent CtxCanceled) | Some e \<Rightarrow> Some e) \<rparr>))
      | StopSignal \<Rightarrow> map_option (set_stop i StopWait) (signalDrain w)
      | StopWait \<Rightarrow> (if w_wg w = 0 then Some (set_stop i StopStore w) else None)
      | StopStore \<Rightarrow> Some (set_stop i StopClose (w\<lparr> w_state := stateStopped \<rparr>))
      | StopClose \<Rightarrow> Some (set_stop i StopReturned (w\<lparr> w_stopped := True \<rparr>))
      | StopAwait \<Rightarrow> (if w_stopped w then Some (set_stop i StopReturned w) else None)
      | StopReturned \<Rightarrow> None)"

definition QueueDepth :: "'m pool \<Rightarrow> int" where
  "QueueDepth w = w_depth w"

record pool_stats =
  st_Depth :: int
  st_Workers :: nat
  st_State :: "32 word"

definition pool_Stats :: "'m pool \<Rightarrow> pool_stats" where
  "pool_Stats w = \<lparr> st_Depth = QueueDepth w, st_Workers = w_len w, st_State = w_state w \<rparr>"

section \<open>Executions\<close>

text \<open>
  The steps of the pool. New calls may start at any time. The context given to \<open>New\<close> may be
  cancelled from outside when \<open>parent\<close> is set.
\<close>

inductive pool_step :: "bool \<Rightarrow> 'm pool \<Rightarrow> 'm pool \<Rightarrow> bool" for parent :: bool where
  call_publish: "pool_step parent w (w\<lparr> w_pubs := w_pubs w @ [PubEnter c] \<rparr>)"
| call_stop: "pool_step parent w (w\<lparr> w_stops := w_stops w @ [StopCAS] \<rparr>)"
| parent_cancel: "parent \<Longrightarrow> w_ctxErr w = None \<Longrightarrow> pool_step parent w (w\<lparr> w_ctxErr := Some e \<rparr>)"
| worker: "i < length (w_workers w) \<Longrightarrow> worker_step d i w = Some w' \<Longrightarrow> pool_step parent w w'"
| publisher: "i < length (w_pubs w) \<Longrightarrow> publish_step ch i w = Some w' \<Longrightarrow> pool_step parent w w'"
| hand_over: "i < length (w_pubs w) \<Longrightarrow> j < length (w_workers w) \<Longrightarrow> rendezvous i j w = Some w' \<Longrightarrow>
    pool_step parent w w'"
| stopper: "i < length (w_stops w) \<Longrightarrow> stop_step i w = Some w' \<Longrightarrow> pool_step parent w w'"

inductive pool_reachable :: "bool \<Rightarrow> int \<Rightarrow> int \<Rightarrow> 'm msgFn option \<Rightarrow> 'm pool \<Rightarrow> bool"
  for parent :: bool and n m :: int and reg :: "'m msgFn option" where
  start: "pool_reachable parent n m reg (Consume (New n m reg))"
| step: "pool_reachable parent n m reg w \<Longrightarrow> pool_step parent w w' \<Longrightarrow> pool_reachable parent n m reg w'"


section \<open>Accounting\<close>

text \<open>Counting the goroutines at certain places.\<close>

definition cnt :: "('a \<Rightarrow> bool) \<Rightarrow> 'a list \<Rightarrow> int" where
  "cnt P xs = int (length (filter P xs))"

lemma cnt_simps [simp]:
  "cnt P [] = 0" "cnt P (x # xs) = of_bool (P x) + cnt P xs" "cnt P (xs @ ys) = cnt P xs + cnt P ys"
  by (simp_all add: cnt_def)

lemma cnt_nonneg [simp]: "0 \<le> cnt P xs"
  by (simp add: cnt_def)

lemma cnt_zero_iff: "cnt P xs = 0 \<longleftrightarrow> (\<forall>x\<in>set xs. \<not> P x)"
  by (auto simp: cnt_def filter_empty_conv)

lemma cnt_replicate [simp]: "cnt P (replicate n x) = (if P x then int n else 0)"
  by (simp add: cnt_def)

lemma list_update_map_append [simp]: "(map f l @ x # r)[length l := y] = map f l @ y # r"
  using list_update_length [of "map f l" x r y] by simp

lemma cnt_map_wake: "(\<And>x. P (wake x) = P x) \<Longrightarrow> cnt P (map wake ws) = cnt P ws"
  by (induction ws) simp_all

lemma nth_split:
  assumes "i < length xs"
  obtains l x r where "xs = l @ x # r" "i = length l"
  using id_take_nth_drop [OF assms] assms that [of "take i xs" "xs ! i" "drop (Suc i) xs"] by simp

fun holds_queued :: "'m wpc \<Rightarrow> bool" where
  "holds_queued (ProcDepth t k) = True"
| "holds_queued (LoopUnlockTask t) = True"
| "holds_queued pc = False"

fun handling :: "'m wpc \<Rightarrow> bool" where
  "handling (ProcSignal t k) = True"
| "handling (ProcHandle t k) = True"
| "handling (ProcDone k) = True"
| "handling pc = False"

fun holds_mu :: "'m wpc \<Rightarrow> bool" where
  "holds_mu LoopPublishers = True"
| "holds_mu LoopDepth = True"
| "holds_mu LoopInFlight = True"
| "holds_mu LoopRecv = True"
| "holds_mu (LoopUnlockTask t) = True"
| "holds_mu BreakPublishers = True"
| "holds_mu BreakDepth = True"
| "holds_mu BreakInFlight = True"
| "holds_mu CondWait = True"
| "holds_mu LoopUnlock = True"
| "holds_mu pc = False"

fun alive :: "'m wpc \<Rightarrow> bool" where
  "alive RunnerGone = False"
| "alive pc = True"

fun pub_queued :: "'m ppc \<Rightarrow> bool" where
  "pub_queued (PubSelect c) = True"
| "pub_queued (PubRollback c r) = True"
| "pub_queued pc = False"

fun pub_active :: "'m ppc \<Rightarrow> bool" where
  "pub_active (PubEnter c) = False"
| "pub_active (PubSignal c ok e) = False"
| "pub_active (PubReturned c ok e) = False"
| "pub_active pc = True"

fun held_task :: "'m wpc \<Rightarrow> 'm task multiset" where
  "held_task (ProcDepth t k) = {#t#}"
| "held_task (ProcInFlight t k) = {#t#}"
| "held_task (ProcSignal t k) = {#t#}"
| "held_task (ProcHandle t k) = {#t#}"
| "held_task (LoopUnlockTask t) = {#t#}"
| "held_task pc = {#}"

text \<open>The task of a call that was accepted: its send succeeded, so that it returns \<open>true\<close>.\<close>

fun sent_task :: "'m ppc \<Rightarrow> 'm task multiset" where
  "sent_task (PubSent c) = {#pc_task c#}"
| "sent_task (PubLeave c ok e) = (if ok then {#pc_task c#} else {#})"
| "sent_task (PubSignal c ok e) = (if ok then {#pc_task c#} else {#})"
| "sent_task (PubReturned c ok e) = (if ok then {#pc_task c#} else {#})"
| "sent_task pc = {#}"

definition accepted :: "'m pool \<Rightarrow> 'm task multiset" where
  "accepted w = sum_list (map sent_task (w_pubs w))"

definition handled :: "'m pool \<Rightarrow> 'm task multiset" where
  "handled w = mset (map fst (w_log w))"

lemma wake_simps [simp]:
  "holds_queued (wake pc) = holds_queued pc" "handling (wake pc) = handling pc"
  "holds_mu (wake pc) = holds_mu pc" "alive (wake pc) = alive pc"
  "held_task (wake pc) = held_task pc"
  by (cases pc; simp add: wake_def)+

lemma resume_simps [simp]:
  "\<not> holds_queued (resume k)" "\<not> handling (resume k)" "\<not> holds_mu (resume k)" "alive (resume k)"
  "held_task (resume k) = {#}"
  by (cases k; simp)+

lemma map_wake_simps [simp]:
  "cnt holds_queued (map wake ws) = cnt holds_queued ws" "cnt handling (map wake ws) = cnt handling ws"
  "cnt holds_mu (map wake ws) = cnt holds_mu ws" "cnt alive (map wake ws) = cnt alive ws"
  "held_task \<circ> wake = held_task"
  by (simp_all add: fun_eq_iff cnt_map_wake)

lemmas pool_ops = set_worker_def set_pub_def set_stop_def signalDrain_def recv_else_def

definition accounted :: "'m pool \<Rightarrow> bool" where
  "accounted w \<longleftrightarrow>
     w_depth w = int (length (w_input w)) + cnt holds_queued (w_workers w) + cnt pub_queued (w_pubs w)
     \<and> w_inFlight w = cnt handling (w_workers w)
     \<and> w_publishers w = cnt pub_active (w_pubs w)
     \<and> w_wg w = cnt alive (w_workers w)
     \<and> cnt holds_mu (w_workers w) = of_bool (w_mu w)
     \<and> length (w_workers w) = w_len w \<and> 0 < w_len w \<and> length (w_input w) \<le> w_cap w
     \<and> accepted w = mset (w_input w) + sum_list (map held_task (w_workers w)) + handled w"

lemma sum_list_replicate_empty [simp]: "sum_list (replicate n {#}) = {#}"
  by (induction n) simp_all

lemma accounted_start: "accounted (Consume (New n m reg))"
  by (simp add: accounted_def Consume_def New_def accepted_def handled_def)

lemmas account_defs = accounted_def accepted_def handled_def

lemma accounted_worker:
  assumes "accounted w" "i < length (w_workers w)"
  shows "pred_option accounted (worker_step d i w)"
proof -
  obtain l pc r where "w_workers w = l @ pc # r" "i = length l"
    using nth_split [OF assms(2)] by blast
  with assms(1) cnt_nonneg [of holds_mu l] cnt_nonneg [of holds_mu r] show ?thesis
    by (cases pc; cases "w_mu w"; cases "w_input w")
      (simp_all add: worker_step_def pool_ops account_defs)
qed

lemma accounted_publisher:
  assumes "accounted w" "i < length (w_pubs w)"
  shows "pred_option accounted (publish_step ch i w)"
proof -
  obtain l pc r where "w_pubs w = l @ pc # r" "i = length l"
    using nth_split [OF assms(2)] by blast
  with assms(1) show ?thesis
    by (cases pc; cases ch)
      (simp_all add: publish_step_def pool_ops account_defs split: rollback_cause.split)
qed

lemma accounted_rendezvous:
  assumes "accounted w" "i < length (w_pubs w)" "j < length (w_workers w)"
  shows "pred_option accounted (rendezvous i j w)"
proof -
  obtain l pc r where "w_pubs w = l @ pc # r" "i = length l"
    using nth_split [OF assms(2)] by blast
  moreover obtain l' pc' r' where "w_workers w = l' @ pc' # r'" "j = length l'"
    using nth_split [OF assms(3)] by blast
  ultimately show ?thesis
  proof (cases "w_cap w = 0 \<and> (\<exists>c. pc = PubSelect c)")
    case True
    with \<open>w_pubs w = l @ pc # r\<close> \<open>i = length l\<close> \<open>w_workers w = l' @ pc' # r'\<close> \<open>j = length l'\<close> assms(1)
    show ?thesis
      by (cases pc') (auto simp: rendezvous_def pool_ops account_defs)
  qed (auto simp: rendezvous_def split: ppc.split)
qed

lemma accounted_stopper:
  assumes "accounted w"
  shows "pred_option accounted (stop_step i w)"
  using assms by (cases "w_stops w ! i") (simp_all add: stop_step_def pool_ops account_defs)

lemma accounted_step: "pool_step parent w w' \<Longrightarrow> accounted w \<Longrightarrow> accounted w'"
proof (induction rule: pool_step.induct)
  case (worker i w d w')
  then show ?case using accounted_worker [of w i d] by simp
next
  case (publisher i w ch w')
  then show ?case using accounted_publisher [of w i ch] by simp
next
  case (hand_over i w j w')
  then show ?case using accounted_rendezvous [of w i j] by simp
next
  case (stopper i w w')
  then show ?case using accounted_stopper [of w i] by simp
qed (simp_all add: account_defs)

lemma pool_accounted: "pool_reachable parent n m reg w \<Longrightarrow> accounted w"
  by (induction rule: pool_reachable.induct) (auto intro: accounted_start accounted_step)

end
