(* ===== verification/WorkerPool_Stop.thy ===== *)
theory WorkerPool_Stop
  imports WorkerPool
begin

text \<open>
  \<open>GracefulStop\<close> of the worker pool: when it has returned, nothing that was accepted is lost,
  provided the context of the pool is not cancelled from outside.
\<close>

section \<open>Stopping\<close>

text \<open>
  When the pool's context is cancelled by \<open>GracefulStop\<close> only, the state word leaves
  \<open>stateRunning\<close> before the context is done. A worker that has read \<open>publishers = 0\<close> while
  draining then knows that no call can be on its way to the channel, now or later, and one that
  has also read \<open>depth = 0\<close> knows that the channel is empty for good.
\<close>

fun draining :: "'m wpc \<Rightarrow> bool" where
  "draining RunnerSelect = False"
| "draining (ProcDepth t k) = (k \<noteq> KRunner)"
| "draining (ProcInFlight t k) = (k \<noteq> KRunner)"
| "draining (ProcSignal t k) = (k \<noteq> KRunner)"
| "draining (ProcHandle t k) = (k \<noteq> KRunner)"
| "draining (ProcDone k) = (k \<noteq> KRunner)"
| "draining (ProcSignalDone k) = (k \<noteq> KRunner)"
| "draining pc = True"

fun saw_no_publishers :: "'m wpc \<Rightarrow> bool" where
  "saw_no_publishers DrainDepth = True"
| "saw_no_publishers DrainInFlight = True"
| "saw_no_publishers RunnerReturn = True"
| "saw_no_publishers RunnerGone = True"
| "saw_no_publishers pc = False"

fun saw_empty :: "'m wpc \<Rightarrow> bool" where
  "saw_empty DrainInFlight = True"
| "saw_empty RunnerReturn = True"
| "saw_empty RunnerGone = True"
| "saw_empty pc = False"

text \<open>Calls that passed the state check and may still send.\<close>

fun pub_committed :: "'m ppc \<Rightarrow> bool" where
  "pub_committed (PubDepth c) = True"
| "pub_committed (PubSelect c) = True"
| "pub_committed pc = False"

fun stop_past_wait :: "spc \<Rightarrow> bool" where
  "stop_past_wait StopStore = True"
| "stop_past_wait StopClose = True"
| "stop_past_wait StopReturned = True"
| "stop_past_wait pc = False"

lemma draining_wake [simp]:
  "draining (wake pc) = draining pc" "saw_no_publishers (wake pc) = saw_no_publishers pc"
  "saw_empty (wake pc) = saw_empty pc" "draining (resume k) = (k \<noteq> KRunner)"
  "\<not> saw_no_publishers (resume k)" "\<not> saw_empty (resume k)"
  by (cases pc; cases k; simp add: wake_def)+

lemma list_ex_map_comp [simp]: "list_ex P (map f xs) = list_ex (P \<circ> f) xs"
  by (induction xs) simp_all

lemma draining_comp_wake [simp]:
  "draining \<circ> wake = draining" "saw_no_publishers \<circ> wake = saw_no_publishers"
  "saw_empty \<circ> wake = saw_empty"
  by (simp_all add: fun_eq_iff)

definition draining_inv :: "'m pool \<Rightarrow> bool" where
  "draining_inv w \<longleftrightarrow>
     (w_ctxErr w \<noteq> None \<or> list_ex ((=) StopCancel) (w_stops w) \<longrightarrow> w_state w \<noteq> stateRunning)
     \<and> (list_ex draining (w_workers w) \<longrightarrow> w_ctxErr w \<noteq> None)
     \<and> (list_ex saw_no_publishers (w_workers w) \<longrightarrow> \<not> list_ex pub_committed (w_pubs w))
     \<and> (list_ex saw_empty (w_workers w) \<longrightarrow> w_input w = [])
     \<and> (w_stopped w \<or> w_state w = stateStopped \<or> list_ex stop_past_wait (w_stops w) \<longrightarrow> w_wg w = 0)"

lemma list_ex_replicate [simp]: "list_ex P (replicate n x) \<longleftrightarrow> P x \<and> 0 < n"
  by (induction n) auto

lemma draining_start: "draining_inv (Consume (New n m reg))"
  by (simp add: draining_inv_def Consume_def New_def)

text \<open>What the counters tell.\<close>

lemma cnt_zero_list_ex: "cnt P xs = 0 \<longleftrightarrow> \<not> list_ex P xs"
  by (simp add: cnt_zero_iff list_ex_iff)

lemma list_ex_mono: "list_ex P xs \<Longrightarrow> (\<And>x. P x \<Longrightarrow> Q x) \<Longrightarrow> list_ex Q xs"
  by (auto simp: list_ex_iff)

lemma committed_active: "pub_committed p \<Longrightarrow> pub_active p"
  by (cases p) simp_all

lemma publishers_zero:
  assumes "accounted w"
  shows "w_publishers w = 0 \<longrightarrow> \<not> list_ex pub_active (w_pubs w) \<and> \<not> list_ex pub_committed (w_pubs w)"
  using assms list_ex_mono [of pub_committed "w_pubs w" pub_active, OF _ committed_active]
  by (auto simp: accounted_def cnt_zero_list_ex)

lemma depth_zero:
  assumes "accounted w"
  shows "w_depth w = 0 \<longrightarrow> w_input w = [] \<and> \<not> list_ex holds_queued (w_workers w)
    \<and> \<not> list_ex pub_queued (w_pubs w)"
proof
  assume "w_depth w = 0"
  with assms have "int (length (w_input w)) + cnt holds_queued (w_workers w) + cnt pub_queued (w_pubs w) = 0"
    by (simp add: accounted_def)
  with cnt_nonneg [of holds_queued "w_workers w"] cnt_nonneg [of pub_queued "w_pubs w"]
  have "int (length (w_input w)) = 0 \<and> cnt holds_queued (w_workers w) = 0
      \<and> cnt pub_queued (w_pubs w) = 0"
    by linarith
  then show "w_input w = [] \<and> \<not> list_ex holds_queued (w_workers w) \<and> \<not> list_ex pub_queued (w_pubs w)"
    by (simp add: cnt_zero_list_ex)
qed

lemma wg_zero: "accounted w \<Longrightarrow> w_wg w = 0 \<longleftrightarrow> \<not> list_ex alive (w_workers w)"
  by (simp add: accounted_def cnt_zero_list_ex)

lemma draining_worker:
  assumes "accounted w" "draining_inv w" "i < length (w_workers w)"
  shows "pred_option draining_inv (worker_step d i w)"
proof -
  obtain l pc r where ws: "w_workers w = l @ pc # r" "i = length l"
    using nth_split [OF assms(3)] by blast
  then show ?thesis
    using assms(2) wg_zero [OF assms(1)] publishers_zero [OF assms(1)] depth_zero [OF assms(1)]
    by (cases pc; cases "w_input w")
      (simp_all add: worker_step_def pool_ops draining_inv_def)
qed


lemma saw_mono:
  "list_ex saw_empty ws \<longrightarrow> list_ex saw_no_publishers ws"
  "list_ex saw_no_publishers ws \<longrightarrow> list_ex draining ws"
proof -
  have "saw_empty pc \<Longrightarrow> saw_no_publishers pc" "saw_no_publishers pc \<Longrightarrow> draining pc" for pc :: "'a wpc"
    by (cases pc; simp)+
  then show "list_ex saw_empty ws \<longrightarrow> list_ex saw_no_publishers ws"
    "list_ex saw_no_publishers ws \<longrightarrow> list_ex draining ws"
    by (blast intro: list_ex_mono)+
qed

lemma draining_publisher:
  assumes "draining_inv w" "i < length (w_pubs w)"
  shows "pred_option draining_inv (publish_step ch i w)"
proof -
  obtain l pc r where "w_pubs w = l @ pc # r" "i = length l"
    using nth_split [OF assms(2)] by blast
  with assms(1) saw_mono [of "w_workers w"] show ?thesis
    by (cases pc; cases ch; cases "w_ctxErr w")
      (simp_all add: publish_step_def pool_ops draining_inv_def split: rollback_cause.split)
qed

fun received :: "'m wpc \<Rightarrow> 'm task \<Rightarrow> 'm wpc option" where
  "received RunnerSelect t = Some (ProcDepth t KRunner)"
| "received DrainRecv t = Some (ProcDepth t KDrain)"
| "received LoopRecv t = Some (LoopUnlockTask t)"
| "received pc t = None"

lemma rendezvous_cases:
  assumes "rendezvous i j w = Some w'" "i < length (w_pubs w)" "j < length (w_workers w)"
  obtains c l r l' pc r' pc' where "w_pubs w = l @ PubSelect c # r" "i = length l"
    "w_workers w = l' @ pc # r'" "j = length l'" "w_cap w = 0" "received pc (pc_task c) = Some pc'"
    "w' = w\<lparr> w_pubs := l @ PubSent c # r, w_workers := l' @ pc' # r' \<rparr>"
proof -
  obtain l p r where p: "w_pubs w = l @ p # r" "i = length l"
    using nth_split [OF assms(2)] by blast
  obtain l' pc r' where pc: "w_workers w = l' @ pc # r'" "j = length l'"
    using nth_split [OF assms(3)] by blast
  from assms(1) p obtain c where c: "p = PubSelect c" "w_cap w = 0"
    by (cases p) (simp_all add: rendezvous_def split: if_splits)
  have "\<exists>pc'. received pc (pc_task c) = Some pc'
      \<and> w' = w\<lparr> w_pubs := l @ PubSent c # r, w_workers := l' @ pc' # r' \<rparr>"
    using assms(1) p pc c
    by (cases pc) (auto simp: rendezvous_def pool_ops split: if_splits)
  with that [OF p(1) [unfolded c(1)] p(2) pc c(2)] show thesis by blast
qed

lemma received_simps:
  "received pc t = Some pc' \<Longrightarrow> draining pc' = draining pc \<and> \<not> saw_no_publishers pc'
    \<and> \<not> saw_empty pc' \<and> \<not> saw_no_publishers pc \<and> \<not> saw_empty pc"
  by (cases pc) auto

lemma draining_rendezvous:
  assumes "draining_inv w" "rendezvous i j w = Some w'" "i < length (w_pubs w)" "j < length (w_workers w)"
  shows "draining_inv w'"
proof -
  obtain c l r l' pc r' pc' where "w_pubs w = l @ PubSelect c # r"
    "w_workers w = l' @ pc # r'" "received pc (pc_task c) = Some pc'"
    "w' = w\<lparr> w_pubs := l @ PubSent c # r, w_workers := l' @ pc' # r' \<rparr>"
    using rendezvous_cases [OF assms(2-4)] by metis
  with assms(1) received_simps [of pc "pc_task c" pc'] show ?thesis
    by (simp add: draining_inv_def)
qed

lemma draining_stopper:
  assumes "draining_inv w" "i < length (w_stops w)"
  shows "pred_option draining_inv (stop_step i w)"
proof -
  obtain l pc r where "w_stops w = l @ pc # r" "i = length l"
    using nth_split [OF assms(2)] by blast
  with assms(1) show ?thesis
    by (cases pc; cases "w_ctxErr w")
      (simp_all add: stop_step_def pool_ops draining_inv_def)
qed

lemma draining_step: "pool_step False w w' \<Longrightarrow> accounted w \<Longrightarrow> draining_inv w \<Longrightarrow> draining_inv w'"
proof (induction rule: pool_step.induct)
  case (worker i w d w')
  then show ?case using draining_worker [of w i d] by simp
next
  case (publisher i w ch w')
  then show ?case using draining_publisher [of w i ch] by simp
next
  case (hand_over i w j w')
  then show ?case using draining_rendezvous by blast
next
  case (stopper i w w')
  then show ?case using draining_stopper [of w i] by simp
qed (simp_all add: draining_inv_def)

lemma pool_draining: "pool_reachable False n m reg w \<Longrightarrow> draining_inv w"
  by (induction rule: pool_reachable.induct)
    (auto intro: draining_start draining_step dest: pool_accounted)


section \<open>Executing a schedule\<close>

datatype 'm label = LPublish "'m pub_call" | LStop | LParent err | LWorker bool nat
  | LPub choice nat | LHand nat nat | LStopper nat

definition pool_exec1 :: "'m label \<Rightarrow> 'm pool \<Rightarrow> 'm pool option" where
  "pool_exec1 a w =
     (case a of
        LPublish c \<Rightarrow> Some (w\<lparr> w_pubs := w_pubs w @ [PubEnter c] \<rparr>)
      | LStop \<Rightarrow> Some (w\<lparr> w_stops := w_stops w @ [StopCAS] \<rparr>)
      | LParent e \<Rightarrow> (if w_ctxErr w = None then Some (w\<lparr> w_ctxErr := Some e \<rparr>) else None)
      | LWorker d i \<Rightarrow> (if i < length (w_workers w) then worker_step d i w else None)
      | LPub ch i \<Rightarrow> (if i < length (w_pubs w) then publish_step ch i w else None)
      | LHand i j \<Rightarrow> (if i < length (w_pubs w) \<and> j < length (w_workers w) then rendezvous i j w else None)
      | LStopper i \<Rightarrow> (if i < length (w_stops w) then stop_step i w else None))"

fun pool_exec :: "'m label list \<Rightarrow> 'm pool \<Rightarrow> 'm pool option" where
  "pool_exec [] w = Some w"
| "pool_exec (a # as) w = (case pool_exec1 a w of None \<Rightarrow> None | Some w' \<Rightarrow> pool_exec as w')"

lemma pool_exec1_step:
  assumes "pool_exec1 a w = Some w'" "parent \<or> (\<forall>e. a \<noteq> LParent e)"
  shows "pool_step parent w w'"
  using assms by (cases a) (auto simp: pool_exec1_def intro: pool_step.intros split: if_splits)

lemma pool_exec_reachable:
  assumes "pool_exec as w = Some w'" "pool_reachable parent n m reg w"
    "parent \<or> (\<forall>a\<in>set as. \<forall>e. a \<noteq> LParent e)"
  shows "pool_reachable parent n m reg w'"
  using assms
proof (induction as arbitrary: w)
  case (Cons a as)
  then obtain w1 where w1: "pool_exec1 a w = Some w1" "pool_exec as w1 = Some w'"
    by (auto split: option.splits)
  then have "pool_step parent w w1" using Cons.prems(3) by (intro pool_exec1_step) auto
  then have "pool_reachable parent n m reg w1" using Cons.prems(2) pool_reachable.step by blast
  with Cons.IH [OF w1(2)] Cons.prems(3) show ?case by auto
qed simp

section \<open>Nothing accepted is lost\<close>

lemma all_gone:
  assumes "accounted w" "w_wg w = 0"
  shows "w_workers w = replicate (w_len w) RunnerGone"
proof -
  have "\<not> alive pc" if "pc \<in> set (w_workers w)" for pc
    using that wg_zero [OF assms(1)] assms(2) by (simp add: list_ex_iff)
  then have "pc = RunnerGone" if "pc \<in> set (w_workers w)" for pc
    using that alive.elims(3) by blast
  then show ?thesis using assms(1) by (metis accounted_def replicate_eqI)
qed

lemma quiet_when_gone:
  assumes "accounted w" "draining_inv w" "w_wg w = 0"
  shows "w_input w = []" "accepted w = handled w" "w_depth w = cnt pub_queued (w_pubs w)"
    "\<not> list_ex pub_committed (w_pubs w)"
proof -
  have ws: "w_workers w = replicate (w_len w) RunnerGone" "0 < w_len w"
    using all_gone [OF assms(1,3)] assms(1) by (simp_all add: accounted_def)
  then show "w_input w = []" "\<not> list_ex pub_committed (w_pubs w)"
    using assms(2) by (simp_all add: draining_inv_def)
  then show "accepted w = handled w" "w_depth w = cnt pub_queued (w_pubs w)"
    using assms(1) ws by (simp_all add: accounted_def)
qed

text \<open>
  C1. \<open>GracefulStop\<close> drains the pool. In every execution in which only \<open>GracefulStop\<close> cancels the
  pool's context, once a call of \<open>GracefulStop\<close> has returned, every worker goroutine has ended, the
  channel is empty, and the tasks whose publication was accepted are exactly, with multiplicity,
  the tasks that were given to a handler. This holds for every number of workers and buffer size,
  for the unbuffered channel, and for any number of publishing and stopping goroutines.
\<close>

theorem GracefulStop_drains:
  assumes "pool_reachable False n m reg w" "StopReturned \<in> set (w_stops w)"
  shows "w_workers w = replicate (w_len w) RunnerGone \<and> w_input w = [] \<and> accepted w = handled w"
proof -
  have inv: "accounted w" "draining_inv w"
    using pool_accounted [OF assms(1)] pool_draining [OF assms(1)] by simp_all
  have "list_ex stop_past_wait (w_stops w)"
    using assms(2) by (auto simp: list_ex_iff intro: bexI [of _ StopReturned])
  then have "w_wg w = 0" using inv(2) by (simp add: draining_inv_def)
  then show ?thesis using all_gone [OF inv(1)] quiet_when_gone [OF inv] by simp
qed

definition demo_call :: "nat pub_call" where
  "demo_call = \<lparr> pc_task = \<lparr> t_ctx = 0, t_msg = 7, t_applyFn = False, t_processFn = None \<rparr>,
                 pc_nonBlocking = False \<rparr>"

text \<open>One task is published, the pool is stopped before a worker has taken it, and the worker drains.\<close>

definition demo_schedule :: "nat label list" where
  "demo_schedule = [LPublish demo_call] @ replicate 7 (LPub TrySend 0) @ [LStop] @ replicate 3 (LStopper 0)
     @ [LWorker True 0] @ replicate 12 (LWorker False 0) @ replicate 3 (LStopper 0)"

theorem GracefulStop_drains_witness:
  "\<exists>w. pool_exec demo_schedule (Consume (New 1 1 (Some (\<lambda>_ _. None)))) = Some w
    \<and> StopReturned \<in> set (w_stops w)
    \<and> w_input w = [] \<and> accepted w = handled w \<and> handled w = {# pc_task demo_call #}"
proof -
  have run: "\<exists>w. pool_exec demo_schedule (Consume (New 1 1 (Some (\<lambda>_ _. None)))) = Some w
      \<and> StopReturned \<in> set (w_stops w) \<and> handled w = {# pc_task demo_call #}"
    by (simp add: demo_schedule_def demo_call_def Consume_def New_def numeral_eq_Suc pool_exec1_def
        worker_step_def publish_step_def stop_step_def pool_ops wake_def run_task_def handled_def)
  then obtain w where w: "pool_exec demo_schedule (Consume (New 1 1 (Some (\<lambda>_ _. None)))) = Some w"
      "StopReturned \<in> set (w_stops w)" "handled w = {# pc_task demo_call #}" by blast
  have "pool_reachable False 1 1 (Some (\<lambda>_ _. None)) w"
    by (rule pool_exec_reachable [OF w(1) pool_reachable.start]) (auto simp: demo_schedule_def)
  with GracefulStop_drains [OF _ w(2)] w show ?thesis by blast
qed

text \<open>
  C34. No task is invented, duplicated or handled without having been accepted, whoever cancels the
  context: at every moment the handled tasks are among the accepted ones, with multiplicity, and
  the three counters count what they are meant to count, so that none of them is ever negative.
\<close>

theorem pool_counters:
  assumes "pool_reachable parent n m reg w"
  shows "handled w \<subseteq># accepted w
    \<and> QueueDepth w = int (length (w_input w)) + cnt holds_queued (w_workers w) + cnt pub_queued (w_pubs w)
    \<and> w_inFlight w = cnt handling (w_workers w) \<and> w_publishers w = cnt pub_active (w_pubs w)
    \<and> 0 \<le> QueueDepth w \<and> 0 \<le> w_inFlight w \<and> w_inFlight w \<le> int (w_len w)
    \<and> length (w_input w) \<le> w_cap w"
proof -
  have "accounted w" by (rule pool_accounted [OF assms])
  moreover have "cnt handling (w_workers w) \<le> int (length (w_workers w))"
    by (simp add: cnt_def)
  ultimately show ?thesis by (simp add: accounted_def QueueDepth_def)
qed


theorem pool_counters_witness:
  "\<exists>w. pool_exec [LPublish demo_call, LPub TrySend 0, LPub TrySend 0, LPub TrySend 0, LPub TrySend 0]
      (Consume (New 2 1 None)) = Some w
    \<and> length (w_input w) = 1 \<and> QueueDepth w = 1 + cnt holds_queued (w_workers w) + cnt pub_queued (w_pubs w)"
proof -
  obtain w where w: "pool_exec [LPublish demo_call, LPub TrySend 0, LPub TrySend 0, LPub TrySend 0,
      LPub TrySend 0] (Consume (New 2 1 None)) = Some w" "length (w_input w) = 1"
    by (simp add: demo_call_def Consume_def New_def pool_exec1_def publish_step_def pool_ops)
  have "pool_reachable False 2 1 None w"
    by (rule pool_exec_reachable [OF w(1) pool_reachable.start]) simp
  from pool_counters [OF this] w show ?thesis by simp
qed

text \<open>
  The pool loses an accepted task when the context given to \<open>New\<close> is cancelled from outside.
  The workers drain and end while the state is still \<open>stateRunning\<close>; a later \<open>TryPublish\<close> passes
  the state check, and its \<open>select\<close> may pick the send into the free buffer although the context is
  done. It returns success, \<open>GracefulStop\<close> returns, and the task is never handled.
\<close>

theorem parent_cancel_loses_task:
  "\<exists>w. pool_reachable True 1 1 (Some (\<lambda>_ _. None)) w
    \<and> StopReturned \<in> set (w_stops w) \<and> PubReturned demo_call True None \<in> set (w_pubs w)
    \<and> accepted w = {# pc_task demo_call #} \<and> handled w = {#} \<and> QueueDepth w = 1"
proof -
  let ?as = "[LParent (ESent CtxCanceled)] @ replicate 6 (LWorker True 0) @ [LPublish demo_call]
    @ replicate 7 (LPub TrySend 0) @ [LStop] @ replicate 6 (LStopper 0)"
  have "\<exists>w. pool_exec ?as (Consume (New 1 1 (Some (\<lambda>_ _. None)))) = Some w
      \<and> StopReturned \<in> set (w_stops w) \<and> PubReturned demo_call True None \<in> set (w_pubs w)
      \<and> accepted w = {# pc_task demo_call #} \<and> handled w = {#} \<and> QueueDepth w = 1"
    by (simp add: demo_call_def Consume_def New_def numeral_eq_Suc pool_exec1_def QueueDepth_def
        worker_step_def publish_step_def stop_step_def pool_ops wake_def handled_def accepted_def)
  then show ?thesis using pool_exec_reachable [OF _ pool_reachable.start] by blast
qed

end
