(* ===== verification/WorkerPool_Live.thy ===== *)
theory WorkerPool_Live
  imports WorkerPool_Stop
begin

text \<open>
  Liveness of a stopping worker pool: no wake-up of the condition variable is missed, the pool never
  deadlocks, and every execution without new calls ends, with all workers gone.
\<close>

section \<open>No missed wake-up\<close>

text \<open>
  A goroutine that is between a change of a counter and its \<open>signalDrain\<close>, or on its way there.
\<close>

fun will_signal :: "'m wpc \<Rightarrow> bool" where
  "will_signal (ProcDepth t k) = True"
| "will_signal (ProcInFlight t k) = True"
| "will_signal (ProcSignal t k) = True"
| "will_signal (ProcHandle t k) = True"
| "will_signal (ProcDone k) = True"
| "will_signal (ProcSignalDone k) = True"
| "will_signal (LoopUnlockTask t) = True"
| "will_signal pc = False"

fun pub_will_signal :: "'m ppc \<Rightarrow> bool" where
  "pub_will_signal (PubEnter c) = False"
| "pub_will_signal (PubReturned c ok e) = False"
| "pub_will_signal pc = True"

definition signal_pending :: "'m pool \<Rightarrow> bool" where
  "signal_pending w \<longleftrightarrow> list_ex will_signal (w_workers w) \<or> list_ex pub_will_signal (w_pubs w)"

fun breaking :: "'m wpc \<Rightarrow> bool" where
  "breaking BreakPublishers = True"
| "breaking BreakDepth = True"
| "breaking BreakInFlight = True"
| "breaking pc = False"

fun waiting :: "'m wpc \<Rightarrow> bool" where
  "waiting CondWait = True"
| "waiting CondParked = True"
| "waiting pc = False"

text \<open>
  A worker waits only while a signal is pending; between its last look at the channel and the
  wait, the channel stays empty or a signal is pending.
\<close>

definition wakeup_inv :: "'m pool \<Rightarrow> bool" where
  "wakeup_inv w \<longleftrightarrow>
     (list_ex waiting (w_workers w) \<longrightarrow> signal_pending w)
     \<and> (list_ex breaking (w_workers w) \<longrightarrow> w_input w = [] \<or> signal_pending w)"

lemma wake_signal_simps [simp]: "will_signal (wake pc) = will_signal pc" "breaking (wake pc) = breaking pc"
  by (cases pc; simp add: wake_def)+

lemma comp_wake_signal [simp]: "will_signal \<circ> wake = will_signal" "breaking \<circ> wake = breaking"
  by (simp_all add: fun_eq_iff)

lemma will_signal_resume [simp]: "\<not> will_signal (resume k)" "\<not> breaking (resume k)" "\<not> waiting (resume k)"
  by (cases k; simp)+

lemma free_mu:
  assumes "accounted w" "\<not> w_mu w"
  shows "\<not> list_ex holds_mu (w_workers w)"
  using assms by (simp add: accounted_def cnt_zero_list_ex)

lemma breaking_mu: "list_ex breaking ws \<longrightarrow> list_ex holds_mu ws"
proof -
  have "breaking pc \<Longrightarrow> holds_mu pc" for pc :: "'a wpc" by (cases pc) simp_all
  then show ?thesis by (blast intro: list_ex_mono)
qed

text \<open>Once the parked workers are woken and nobody holds the mutex, nobody waits.\<close>

lemma waiting_wake:
  assumes "\<not> list_ex holds_mu ws"
  shows "\<not> list_ex waiting (map wake ws)"
proof -
  have "waiting (wake pc) \<Longrightarrow> holds_mu pc" for pc :: "'a wpc" by (cases pc) (simp_all add: wake_def)
  with assms show ?thesis by (auto simp: list_ex_iff)
qed

lemma handling_signals: "list_ex handling ws \<longrightarrow> list_ex will_signal ws"
  "list_ex holds_queued ws \<longrightarrow> list_ex will_signal ws"
proof -
  have "handling pc \<Longrightarrow> will_signal pc" "holds_queued pc \<Longrightarrow> will_signal pc" for pc :: "'a wpc"
    by (cases pc; simp)+
  then show "list_ex handling ws \<longrightarrow> list_ex will_signal ws"
    "list_ex holds_queued ws \<longrightarrow> list_ex will_signal ws"
    by (blast intro: list_ex_mono)+
qed

lemma pub_signals: "list_ex pub_active ps \<longrightarrow> list_ex pub_will_signal ps"
  "list_ex pub_queued ps \<longrightarrow> list_ex pub_will_signal ps"
proof -
  have "pub_active p \<Longrightarrow> pub_will_signal p" "pub_queued p \<Longrightarrow> pub_will_signal p" for p :: "'a ppc"
    by (cases p; simp)+
  then show "list_ex pub_active ps \<longrightarrow> list_ex pub_will_signal ps"
    "list_ex pub_queued ps \<longrightarrow> list_ex pub_will_signal ps"
    by (blast intro: list_ex_mono)+
qed

text \<open>A counter that is not zero means a pending signal, apart from tasks in the channel.\<close>

lemma counters_signal:
  assumes "accounted w"
  shows "w_publishers w \<noteq> 0 \<longrightarrow> signal_pending w" "w_inFlight w \<noteq> 0 \<longrightarrow> signal_pending w"
    "w_depth w \<noteq> 0 \<longrightarrow> w_input w \<noteq> [] \<or> signal_pending w"
proof -
  show "w_publishers w \<noteq> 0 \<longrightarrow> signal_pending w" "w_inFlight w \<noteq> 0 \<longrightarrow> signal_pending w"
    using assms handling_signals [of "w_workers w"] pub_signals [of "w_pubs w"]
    by (auto simp: accounted_def cnt_zero_list_ex signal_pending_def)
  show "w_depth w \<noteq> 0 \<longrightarrow> w_input w \<noteq> [] \<or> signal_pending w"
  proof (rule impI, rule ccontr)
    assume d: "w_depth w \<noteq> 0" and n: "\<not> (w_input w \<noteq> [] \<or> signal_pending w)"
    have "cnt holds_queued (w_workers w) = 0" "cnt pub_queued (w_pubs w) = 0"
      using n handling_signals [of "w_workers w"] pub_signals [of "w_pubs w"]
      by (auto simp: cnt_zero_list_ex signal_pending_def)
    with assms d n show False by (simp add: accounted_def)
  qed
qed


lemma wakeup_start: "wakeup_inv (Consume (New n m reg))"
  by (simp add: wakeup_inv_def Consume_def New_def)

lemma waiting_wake_split:
  assumes "accounted w" "\<not> w_mu w" "w_workers w = l @ pc # r"
  shows "\<not> list_ex waiting (map wake l)" "\<not> list_ex waiting (map wake r)"
    "\<not> list_ex breaking l" "\<not> list_ex breaking r"
  using free_mu [OF assms(1,2)] assms(3) waiting_wake [of l] waiting_wake [of r] breaking_mu [of l]
    breaking_mu [of r] by (simp_all del: list_ex_map_comp)

lemma wakeup_worker:
  assumes "accounted w" "wakeup_inv w" "i < length (w_workers w)"
  shows "pred_option wakeup_inv (worker_step d i w)"
proof -
  obtain l pc r where ws: "w_workers w = l @ pc # r" "i = length l"
    using nth_split [OF assms(3)] by blast
  have w: "\<not> w_mu w \<longrightarrow> \<not> list_ex (waiting \<circ> wake) l \<and> \<not> list_ex (waiting \<circ> wake) r
      \<and> \<not> list_ex breaking l \<and> \<not> list_ex breaking r"
    using waiting_wake_split [OF assms(1) _ ws(1)] by simp
  show ?thesis
    using assms(2) ws counters_signal [OF assms(1)] w
    by (cases pc; cases "w_input w"; cases "w_mu w")
      (simp_all add: worker_step_def pool_ops wakeup_inv_def signal_pending_def)
qed


lemma wakeup_publisher:
  assumes "accounted w" "wakeup_inv w" "i < length (w_pubs w)"
  shows "pred_option wakeup_inv (publish_step ch i w)"
proof -
  obtain l pc r where ws: "w_pubs w = l @ pc # r" "i = length l"
    using nth_split [OF assms(3)] by blast
  have w: "\<not> w_mu w \<longrightarrow> \<not> list_ex (waiting \<circ> wake) (w_workers w) \<and> \<not> list_ex breaking (w_workers w)"
    using free_mu [OF assms(1)] waiting_wake [of "w_workers w"] breaking_mu [of "w_workers w"] by auto
  show ?thesis
    using assms(2) ws w
    by (cases pc; cases ch; cases "w_mu w")
      (simp_all add: publish_step_def pool_ops wakeup_inv_def signal_pending_def split: rollback_cause.split)
qed

lemma wakeup_rendezvous:
  assumes "rendezvous i j w = Some w'" "i < length (w_pubs w)" "j < length (w_workers w)"
  shows "wakeup_inv w'"
proof -
  obtain c l r l' pc r' pc' where
    "w' = w\<lparr> w_pubs := l @ PubSent c # r, w_workers := l' @ pc' # r' \<rparr>"
    using rendezvous_cases [OF assms] by metis
  then show ?thesis by (simp add: wakeup_inv_def signal_pending_def)
qed

lemma wakeup_stopper:
  assumes "accounted w" "wakeup_inv w"
  shows "pred_option wakeup_inv (stop_step i w)"
proof -
  have w: "\<not> w_mu w \<longrightarrow> \<not> list_ex (waiting \<circ> wake) (w_workers w) \<and> \<not> list_ex breaking (w_workers w)"
    using free_mu [OF assms(1)] waiting_wake [of "w_workers w"] breaking_mu [of "w_workers w"] by auto
  with assms(2) show ?thesis
    by (cases "w_stops w ! i")
      (simp_all add: stop_step_def pool_ops wakeup_inv_def signal_pending_def)
qed

lemma wakeup_step: "pool_step parent w w' \<Longrightarrow> accounted w \<Longrightarrow> wakeup_inv w \<Longrightarrow> wakeup_inv w'"
proof (induction rule: pool_step.induct)
  case (worker i w d w')
  then show ?case using wakeup_worker [of w i d] by simp
next
  case (publisher i w ch w')
  then show ?case using wakeup_publisher [of w i ch] by simp
next
  case (hand_over i w j w')
  then show ?case using wakeup_rendezvous by blast
next
  case (stopper i w w')
  then show ?case using wakeup_stopper [of w i] by simp
qed (auto simp: wakeup_inv_def signal_pending_def)

lemma pool_wakeup: "pool_reachable parent n m reg w \<Longrightarrow> wakeup_inv w"
  by (induction rule: pool_reachable.induct)
    (auto intro: wakeup_start wakeup_step dest: pool_accounted)

section \<open>No deadlock\<close>

text \<open>The steps of goroutines that are already running: workers and publishing calls.\<close>

definition can_progress :: "'m pool \<Rightarrow> bool" where
  "can_progress w \<longleftrightarrow> (\<exists>i<length (w_workers w). \<exists>d. worker_step d i w \<noteq> None)
     \<or> (\<exists>i<length (w_pubs w). \<exists>ch. publish_step ch i w \<noteq> None)"

lemma mu_holder_progress:
  assumes "accounted w" "w_mu w"
  shows "can_progress w"
proof -
  have "list_ex holds_mu (w_workers w)"
    using assms cnt_zero_list_ex [of holds_mu "w_workers w"] by (auto simp: accounted_def)
  then obtain i where i: "i < length (w_workers w)" "holds_mu (w_workers w ! i)"
    by (auto simp: list_ex_length)
  then have "worker_step False i w \<noteq> None"
    by (cases "w_workers w ! i") (auto simp: worker_step_def recv_else_def split: list.split)
  with i(1) show ?thesis by (auto simp: can_progress_def)
qed

lemma free_worker_progress:
  assumes "\<not> w_mu w" "w_ctxErr w \<noteq> None" "i < length (w_workers w)"
    "w_workers w ! i \<noteq> RunnerGone" "w_workers w ! i \<noteq> CondParked"
  shows "can_progress w"
proof -
  have "worker_step True i w \<noteq> None"
    using assms(1,2,4,5)
    by (cases "w_workers w ! i") (auto simp: worker_step_def recv_else_def signalDrain_def split: list.split)
  with assms(3) show ?thesis by (auto simp: can_progress_def)
qed

lemma free_pub_progress:
  assumes "\<not> w_mu w" "w_ctxErr w \<noteq> None" "i < length (w_pubs w)" "pub_will_signal (w_pubs w ! i)"
  shows "can_progress w"
proof -
  have "\<exists>ch. publish_step ch i w \<noteq> None"
  proof (cases "w_pubs w ! i")
    case (PubSelect c)
    then show ?thesis
      using assms(2)
      by (cases "pc_nonBlocking c")
        (auto simp: publish_step_def intro: exI [of _ TrySend] exI [of _ TryPool])
  qed (use assms in \<open>auto simp: publish_step_def signalDrain_def\<close>)
  with assms(3) show ?thesis by (auto simp: can_progress_def)
qed

lemma will_signal_pc: "will_signal pc \<Longrightarrow> pc \<noteq> RunnerGone \<and> pc \<noteq> CondParked"
  by (cases pc) simp_all

lemma progress_until_gone:
  assumes "pool_reachable parent n m reg w" "w_ctxErr w \<noteq> None" "w_wg w \<noteq> 0"
  shows "can_progress w"
proof -
  have inv: "accounted w" "wakeup_inv w"
    using pool_accounted [OF assms(1)] pool_wakeup [OF assms(1)] by simp_all
  obtain i where i: "i < length (w_workers w)" "alive (w_workers w ! i)"
    using wg_zero [OF inv(1)] assms(3) by (auto simp: list_ex_length)
  show ?thesis
  proof (cases "w_mu w")
    case True
    then show ?thesis by (rule mu_holder_progress [OF inv(1)])
  next
    case free: False
    show ?thesis
    proof (cases "w_workers w ! i = CondParked")
      case True
      then have "signal_pending w" using inv(2) i(1) by (auto simp: wakeup_inv_def list_ex_length)
      then consider j where "j < length (w_workers w)" "will_signal (w_workers w ! j)"
        | j where "j < length (w_pubs w)" "pub_will_signal (w_pubs w ! j)"
        by (auto simp: signal_pending_def list_ex_length)
      then show ?thesis
        using free_worker_progress [OF free assms(2)] free_pub_progress [OF free assms(2)] will_signal_pc
        by cases blast+
    next
      case False
      moreover have "w_workers w ! i \<noteq> RunnerGone" using i(2) by (metis alive.simps(1))
      ultimately show ?thesis using free_worker_progress [OF free assms(2) i(1)] by blast
    qed
  qed
qed

text \<open>
  C3. A stopping pool never deadlocks: in every reachable state in which the pool's context is done
  and some worker has not ended, a worker or a publishing call can take a step, whatever the number
  of workers, publishers and stoppers and whoever cancelled the context. In particular no worker
  sleeps on the condition variable for want of a \<open>signalDrain\<close>.
\<close>

theorem pool_never_stuck:
  assumes "pool_reachable parent n m reg w" "w_ctxErr w \<noteq> None" "w_wg w \<noteq> 0"
  shows "(\<exists>i<length (w_workers w). \<exists>d. worker_step d i w \<noteq> None)
    \<or> (\<exists>i<length (w_pubs w). \<exists>ch. publish_step ch i w \<noteq> None)"
  using progress_until_gone [OF assms] by (simp add: can_progress_def)

definition parked_schedule :: "nat label list" where
  "parked_schedule = [LPublish demo_call] @ replicate 7 (LPub TrySend 0) @ replicate 4 (LWorker False 0)
     @ [LStop] @ replicate 3 (LStopper 0) @ [LWorker True 1] @ replicate 13 (LWorker False 1)"

theorem pool_never_stuck_witness:
  "\<exists>w. pool_exec parked_schedule (Consume (New 2 1 None)) = Some w \<and> w_workers w ! 1 = CondParked
    \<and> ((\<exists>i<length (w_workers w). \<exists>d. worker_step d i w \<noteq> None)
       \<or> (\<exists>i<length (w_pubs w). \<exists>ch. publish_step ch i w \<noteq> None))"
proof -
  have "\<exists>w. pool_exec parked_schedule (Consume (New 2 1 None)) = Some w \<and> w_workers w ! 1 = CondParked
      \<and> w_ctxErr w \<noteq> None \<and> w_wg w \<noteq> 0"
    by (simp add: parked_schedule_def demo_call_def Consume_def New_def numeral_eq_Suc pool_exec1_def
        worker_step_def publish_step_def stop_step_def pool_ops wake_def run_task_def)
  then obtain w where w: "pool_exec parked_schedule (Consume (New 2 1 None)) = Some w"
      "w_workers w ! 1 = CondParked" "w_ctxErr w \<noteq> None" "w_wg w \<noteq> 0" by blast
  have "pool_reachable False 2 1 None w"
    by (rule pool_exec_reachable [OF w(1) pool_reachable.start]) (auto simp: parked_schedule_def)
  from pool_never_stuck [OF this w(3,4)] w(1,2) show ?thesis by blast
qed

section \<open>Termination\<close>

text \<open>
  Steps of the goroutines that are running, new calls apart. Every change of a counter and every
  broadcast uses up \<open>work\<close>; between two of them each worker runs down \<open>idle\<close>, the distance to the
  place where it sleeps or ends, given which counters are zero.
\<close>

inductive pool_internal :: "'m pool \<Rightarrow> 'm pool \<Rightarrow> bool" where
  worker: "i < length (w_workers w) \<Longrightarrow> worker_step d i w = Some w' \<Longrightarrow> pool_internal w w'"
| publisher: "i < length (w_pubs w) \<Longrightarrow> publish_step ch i w = Some w' \<Longrightarrow> pool_internal w w'"
| hand_over: "i < length (w_pubs w) \<Longrightarrow> j < length (w_workers w) \<Longrightarrow> rendezvous i j w = Some w' \<Longrightarrow>
    pool_internal w w'"
| stopper: "i < length (w_stops w) \<Longrightarrow> stop_step i w = Some w' \<Longrightarrow> pool_internal w w'"

lemma pool_internal_step: "pool_internal w w' \<Longrightarrow> pool_step parent w w'"
  by (induction rule: pool_internal.induct) (auto intro: pool_step.intros)

fun pub_work :: "'m ppc \<Rightarrow> nat" where
  "pub_work (PubEnter c) = 16"
| "pub_work (PubState c) = 15"
| "pub_work (PubDepth c) = 14"
| "pub_work (PubSelect c) = 13"
| "pub_work (PubSent c) = 3"
| "pub_work (PubRollback c r) = 4"
| "pub_work (PubRecheck c) = 3"
| "pub_work (PubLeave c ok e) = 2"
| "pub_work (PubSignal c ok e) = 1"
| "pub_work (PubReturned c ok e) = 0"

fun worker_work :: "'m wpc \<Rightarrow> nat" where
  "worker_work (LoopUnlockTask t) = 7"
| "worker_work (ProcDepth t k) = 6"
| "worker_work (ProcInFlight t k) = 5"
| "worker_work (ProcSignal t k) = 4"
| "worker_work (ProcHandle t k) = 3"
| "worker_work (ProcDone k) = 2"
| "worker_work (ProcSignalDone k) = 1"
| "worker_work pc = 0"

fun stop_work :: "spc \<Rightarrow> nat" where
  "stop_work StopCAS = 6"
| "stop_work StopCancel = 5"
| "stop_work StopSignal = 4"
| "stop_work StopWait = 3"
| "stop_work StopStore = 2"
| "stop_work StopClose = 1"
| "stop_work StopAwait = 1"
| "stop_work StopReturned = 0"

definition work :: "'m pool \<Rightarrow> nat" where
  "work w = sum_list (map pub_work (w_pubs w)) + 8 * length (w_input w)
     + sum_list (map worker_work (w_workers w)) + sum_list (map stop_work (w_stops w))"

text \<open>\<open>d\<close> and \<open>f\<close>: the depth, the number of running handlers is not zero; \<open>busy\<close>: some counter is not.\<close>

fun idle_rank :: "bool \<Rightarrow> bool \<Rightarrow> bool \<Rightarrow> 'm wpc \<Rightarrow> nat" where
  "idle_rank busy d f CondWait = 1"
| "idle_rank busy d f RunnerReturn = 1"
| "idle_rank busy d f BreakInFlight = (if f then 2 else if busy then 15 else 7)"
| "idle_rank busy d f BreakDepth = (if d \<or> f then 3 else if busy then 16 else 8)"
| "idle_rank busy d f BreakPublishers = (if busy then 4 else 9)"
| "idle_rank busy d f LoopRecv = (if busy then 5 else 10)"
| "idle_rank busy d f LoopInFlight = (if f then 6 else if busy then 15 else 7)"
| "idle_rank busy d f LoopDepth = (if d \<or> f then 7 else if busy then 16 else 8)"
| "idle_rank busy d f LoopPublishers = (if busy then 8 else 9)"
| "idle_rank busy d f DrainLock = (if busy then 9 else 10)"
| "idle_rank busy d f CondRelock = (if busy then 9 else 10)"
| "idle_rank busy d f DrainInFlight = (if busy then 10 else 2)"
| "idle_rank busy d f DrainDepth = (if busy then 11 else 3)"
| "idle_rank busy d f DrainPublishers = (if busy then 12 else 4)"
| "idle_rank busy d f DrainRecv = (if busy then 13 else 5)"
| "idle_rank busy d f LoopUnlock = (if busy then 14 else 6)"
| "idle_rank busy d f RunnerSelect = (if busy then 14 else 6)"
| "idle_rank busy d f pc = 0"

definition idle :: "'m pool \<Rightarrow> nat" where
  "idle w = sum_list (map (idle_rank
     (w_publishers w \<noteq> 0 \<or> w_depth w \<noteq> 0 \<or> w_inFlight w \<noteq> 0) (w_depth w \<noteq> 0) (w_inFlight w \<noteq> 0))
     (w_workers w))"

definition less_left :: "'m pool \<Rightarrow> 'm pool \<Rightarrow> bool" where
  "less_left w' w \<longleftrightarrow> work w' < work w \<or> work w' = work w \<and> idle w' < idle w"

lemma wf_less_left: "wf {(w', w). less_left w' w}"
  by (rule wf_subset [OF wf_measures [of "[work, idle]"]]) (auto simp: less_left_def)

lemma work_wake [simp]: "worker_work \<circ> wake = worker_work"
proof
  show "(worker_work \<circ> wake) pc = worker_work pc" for pc by (cases pc) (simp_all add: wake_def)
qed

lemma work_resume [simp]: "worker_work (resume k) = 0"
  by (cases k) simp_all

lemma worker_less_left:
  assumes "i < length (w_workers w)"
  shows "pred_option (\<lambda>w'. less_left w' w) (worker_step d i w)"
proof -
  obtain l pc r where "w_workers w = l @ pc # r" "i = length l"
    using nth_split [OF assms] by blast
  then show ?thesis
    by (cases pc; cases "w_input w")
      (simp_all add: worker_step_def pool_ops less_left_def work_def idle_def)
qed

lemma publisher_less_left:
  assumes "i < length (w_pubs w)"
  shows "pred_option (\<lambda>w'. less_left w' w) (publish_step ch i w)"
proof -
  obtain l pc r where "w_pubs w = l @ pc # r" "i = length l"
    using nth_split [OF assms] by blast
  then show ?thesis
    by (cases pc; cases ch)
      (simp_all add: publish_step_def pool_ops less_left_def work_def split: rollback_cause.split)
qed

lemma stopper_less_left:
  assumes "i < length (w_stops w)"
  shows "pred_option (\<lambda>w'. less_left w' w) (stop_step i w)"
proof -
  obtain l pc r where "w_stops w = l @ pc # r" "i = length l"
    using nth_split [OF assms] by blast
  then show ?thesis
    by (cases pc) (simp_all add: stop_step_def pool_ops less_left_def work_def)
qed

lemma rendezvous_less_left:
  assumes "rendezvous i j w = Some w'" "i < length (w_pubs w)" "j < length (w_workers w)"
  shows "less_left w' w"
proof -
  obtain c l r l' pc r' pc' where "w_pubs w = l @ PubSelect c # r"
    "w_workers w = l' @ pc # r'" "received pc (pc_task c) = Some pc'"
    "w' = w\<lparr> w_pubs := l @ PubSent c # r, w_workers := l' @ pc' # r' \<rparr>"
    using rendezvous_cases [OF assms] by metis
  then show ?thesis by (cases pc) (auto simp: less_left_def work_def)
qed

lemma internal_less_left: "pool_internal w w' \<Longrightarrow> less_left w' w"
proof (induction rule: pool_internal.induct)
  case (worker i w d w')
  then show ?case using worker_less_left [of i w d] by simp
next
  case (publisher i w ch w')
  then show ?case using publisher_less_left [of i w ch] by simp
next
  case (hand_over i w j w')
  then show ?case using rendezvous_less_left by blast
next
  case (stopper i w w')
  then show ?case using stopper_less_left [of i w] by simp
qed


text \<open>Whoever left \<open>stateRunning\<close> will close \<open>stopped\<close>; the others wait for that.\<close>

fun stop_owner :: "spc \<Rightarrow> bool" where
  "stop_owner StopCancel = True"
| "stop_owner StopSignal = True"
| "stop_owner StopWait = True"
| "stop_owner StopStore = True"
| "stop_owner StopClose = True"
| "stop_owner pc = False"

definition stop_inv :: "'m pool \<Rightarrow> bool" where
  "stop_inv w \<longleftrightarrow>
     (w_state w \<noteq> stateRunning \<longrightarrow> w_stopped w \<or> list_ex stop_owner (w_stops w))
     \<and> (list_ex (\<lambda>pc. pc \<noteq> StopCAS) (w_stops w) \<longrightarrow> w_state w \<noteq> stateRunning)
     \<and> (list_ex (\<lambda>pc. pc = StopSignal \<or> pc = StopWait \<or> pc = StopStore \<or> pc = StopClose) (w_stops w)
          \<or> w_stopped w \<longrightarrow> w_ctxErr w \<noteq> None)"

lemma stop_inv_frame:
  "stop_inv w \<Longrightarrow> w_state w' = w_state w \<Longrightarrow> w_stopped w' = w_stopped w \<Longrightarrow> w_stops w' = w_stops w \<Longrightarrow>
    (w_ctxErr w \<noteq> None \<longrightarrow> w_ctxErr w' \<noteq> None) \<Longrightarrow> stop_inv w'"
  by (auto simp: stop_inv_def)

lemma stop_inv_worker: "stop_inv w \<Longrightarrow> pred_option stop_inv (worker_step d i w)"
  by (cases "w_workers w ! i"; cases "w_input w")
    (auto simp: worker_step_def pool_ops elim!: stop_inv_frame)

lemma stop_inv_publisher: "stop_inv w \<Longrightarrow> pred_option stop_inv (publish_step ch i w)"
  by (cases "w_pubs w ! i"; cases ch)
    (auto simp: publish_step_def pool_ops elim!: stop_inv_frame split: rollback_cause.split)

lemma stop_inv_stopper:
  assumes "stop_inv w" "i < length (w_stops w)"
  shows "pred_option stop_inv (stop_step i w)"
proof -
  obtain l pc r where "w_stops w = l @ pc # r" "i = length l"
    using nth_split [OF assms(2)] by blast
  with assms(1) show ?thesis
    by (cases pc; cases "w_ctxErr w") (simp_all add: stop_step_def pool_ops stop_inv_def)
qed

lemma stop_inv_step: "pool_step parent w w' \<Longrightarrow> stop_inv w \<Longrightarrow> stop_inv w'"
proof (induction rule: pool_step.induct)
  case (worker i w d w')
  then show ?case using stop_inv_worker [of w d i] by simp
next
  case (publisher i w ch w')
  then show ?case using stop_inv_publisher [of w ch i] by simp
next
  case (hand_over i w j w')
  then show ?case by (elim rendezvous_cases) (auto elim!: stop_inv_frame)
next
  case (stopper i w w')
  then show ?case using stop_inv_stopper [of w i] by simp
qed (auto simp: stop_inv_def)

lemma pool_stop_inv: "pool_reachable parent n m reg w \<Longrightarrow> stop_inv w"
proof (induction rule: pool_reachable.induct)
  case start
  then show ?case by (simp add: stop_inv_def Consume_def New_def)
qed (rule stop_inv_step)

text \<open>At rest after a stop: every goroutine has ended.\<close>

definition all_returned :: "'m pool \<Rightarrow> bool" where
  "all_returned w \<longleftrightarrow> (\<forall>pc\<in>set (w_workers w). pc = RunnerGone)
     \<and> (\<forall>pc\<in>set (w_stops w). pc = StopReturned)
     \<and> (\<forall>pc\<in>set (w_pubs w). \<exists>c ok e. pc = PubReturned c ok e)"


lemma at_rest_ctx:
  assumes "stop_inv w" "w_stops w \<noteq> []" "\<nexists>w'. pool_internal w w'"
  shows "w_ctxErr w \<noteq> None"
proof -
  have stuck: "stop_step i w = None" if "i < length (w_stops w)" for i
    using assms(3) that pool_internal.stopper by fastforce
  have no: "pc \<noteq> StopCAS" "pc \<noteq> StopCancel" if pc: "pc \<in> set (w_stops w)" for pc
  proof -
    obtain i where "i < length (w_stops w)" "pc = w_stops w ! i" using pc by (auto simp: in_set_conv_nth)
    with stuck [of i] show "pc \<noteq> StopCAS" "pc \<noteq> StopCancel"
      by (auto simp: stop_step_def split: if_splits)
  qed
  obtain pc where "pc \<in> set (w_stops w)" using assms(2) by (cases "w_stops w") auto
  then have "w_state w \<noteq> stateRunning"
    using assms(1) no by (auto simp: stop_inv_def list_ex_iff)
  then consider "w_stopped w" | pc where "pc \<in> set (w_stops w)" "stop_owner pc"
    using assms(1) by (auto simp: stop_inv_def list_ex_iff)
  then show ?thesis
  proof cases
    case 2
    with no [OF 2(1)] assms(1) show ?thesis
      by (cases pc) (auto simp: stop_inv_def list_ex_iff)
  qed (use assms(1) in \<open>auto simp: stop_inv_def\<close>)
qed

lemma at_rest_returned:
  assumes "pool_reachable parent n m reg w" "w_stops w \<noteq> []" "\<nexists>w'. pool_internal w w'"
  shows "all_returned w"
proof -
  have acc: "accounted w" and si: "stop_inv w"
    using pool_accounted [OF assms(1)] pool_stop_inv [OF assms(1)] .
  have ctx: "w_ctxErr w \<noteq> None" by (rule at_rest_ctx [OF si assms(2,3)])
  have nop: "\<not> can_progress w"
    using assms(3) by (fastforce simp: can_progress_def intro: pool_internal.intros)
  then have wg: "w_wg w = 0" using progress_until_gone [OF assms(1) ctx] by blast
  have free: "\<not> w_mu w" using mu_holder_progress [OF acc] nop by blast
  have ws: "\<forall>pc\<in>set (w_workers w). pc = RunnerGone" using all_gone [OF acc wg] by (metis in_set_replicate)
  have ps: "\<exists>c ok e. pc = PubReturned c ok e" if pc: "pc \<in> set (w_pubs w)" for pc
  proof -
    obtain i where i: "i < length (w_pubs w)" "pc = w_pubs w ! i" using pc by (auto simp: in_set_conv_nth)
    have "\<not> pub_will_signal pc" using free_pub_progress [OF free ctx i(1)] nop i(2) by blast
    moreover have "\<nexists>c. pc = PubEnter c"
      using nop i by (auto simp: can_progress_def publish_step_def dest!: spec [of _ i])
    ultimately show ?thesis by (cases pc) auto
  qed
  have stuck: "stop_step i w = None" if "i < length (w_stops w)" for i
    using assms(3) that pool_internal.stopper by fastforce
  have owner: "\<not> stop_owner pc" if pc: "pc \<in> set (w_stops w)" for pc
  proof -
    obtain i where "i < length (w_stops w)" "pc = w_stops w ! i" using pc by (auto simp: in_set_conv_nth)
    with stuck [of i] wg free show ?thesis
      by (cases pc) (auto simp: stop_step_def signalDrain_def)
  qed
  have "pc = StopReturned" if pc: "pc \<in> set (w_stops w)" for pc
  proof -
    obtain i where i: "i < length (w_stops w)" "pc = w_stops w ! i" using pc by (auto simp: in_set_conv_nth)
    have "w_stopped w \<or> pc = StopCAS"
      using si owner pc by (auto simp: stop_inv_def list_ex_iff)
    with stuck [OF i(1)] i owner [OF pc] show ?thesis
      by (cases pc) (auto simp: stop_step_def split: if_splits)
  qed
  with ws ps show ?thesis by (auto simp: all_returned_def)
qed

text \<open>
  C4. \<open>GracefulStop\<close> terminates: from any reachable state there is no infinite sequence of steps of
  the running goroutines, however they are scheduled, and where such a sequence comes to rest after
  a call of \<open>GracefulStop\<close>, every worker has ended and every \<open>tryPublish\<close> and \<open>GracefulStop\<close> call has
  returned. Handlers are taken to return.
\<close>

theorem GracefulStop_terminates:
  "wf {(w', w). pool_reachable parent n m reg w \<and> pool_internal w w'}
   \<and> (\<forall>w. pool_reachable parent n m reg w \<and> w_stops w \<noteq> [] \<and> (\<nexists>w'. pool_internal w w') \<longrightarrow> all_returned w)"
proof
  show "wf {(w', w). pool_reachable parent n m reg w \<and> pool_internal w w'}"
    by (rule wf_subset [OF wf_less_left]) (auto dest: internal_less_left)
qed (use at_rest_returned in blast)

theorem GracefulStop_terminates_witness:
  "\<exists>w. pool_exec demo_schedule (Consume (New 1 1 None)) = Some w \<and> w_stops w \<noteq> [] \<and> all_returned w"
proof -
  have "\<exists>w. pool_exec demo_schedule (Consume (New 1 1 None)) = Some w \<and> w_stops w = [StopReturned]
      \<and> w_workers w = [RunnerGone] \<and> w_pubs w = [PubReturned demo_call True None]"
    by (simp add: demo_schedule_def demo_call_def Consume_def New_def numeral_eq_Suc pool_exec1_def
        worker_step_def publish_step_def stop_step_def pool_ops wake_def run_task_def)
  then obtain w where w: "pool_exec demo_schedule (Consume (New 1 1 None)) = Some w"
      "w_stops w = [StopReturned]" "w_workers w = [RunnerGone]" "w_pubs w = [PubReturned demo_call True None]"
    by blast
  have reach: "pool_reachable False 1 1 None w"
    by (rule pool_exec_reachable [OF w(1) pool_reachable.start]) (auto simp: demo_schedule_def)
  have rest: "\<nexists>w'. pool_internal w w'"
    using w by (auto simp: worker_step_def publish_step_def stop_step_def rendezvous_def
        elim!: pool_internal.cases)
  from GracefulStop_terminates [of False 1 1 None] reach rest w(1,2) show ?thesis by auto
qed

end
