(* ===== verification/Payload.thy ===== *)
theory Payload
  imports Shard
begin

text \<open>
  Messages and their payloads: content types and modes (\<open>protocol.go\<close>), the message helpers
  (\<open>model.go\<close>), compression (\<open>compress.go\<close>), encoding (\<open>codec.go\<close>) and schema headers
  (\<open>schema.go\<close>). The compressors and encoders themselves are third-party packages: they are the
  fields of the records \<open>compressors\<close> and \<open>encoders\<close>, arguments of the definitions here. Pooled
  scratch buffers are left out: their contents are copied before they are released.
\<close>

section \<open>Protocol constants\<close>

type_synonym MessageType = int

abbreviation JSON :: MessageType where "JSON \<equiv> 1"
abbreviation Proto :: MessageType where "Proto \<equiv> 2"
abbreviation MessagePack :: MessageType where "MessagePack \<equiv> 3"
abbreviation Raw :: MessageType where "Raw \<equiv> 4"

definition HeaderContentType :: string where "HeaderContentType = ''Nats-Content-Type''"
abbreviation HeaderNATSContentType :: string where "HeaderNATSContentType \<equiv> HeaderContentType"
definition HeaderMsgID :: string where "HeaderMsgID = ''Nats-Msg-Id''"
definition HeaderTraceID :: string where "HeaderTraceID = ''Trace-Id''"
definition HeaderContentEncoding :: string where "HeaderContentEncoding = ''Content-Encoding''"

definition ContentTypeJSON :: string where "ContentTypeJSON = ''json''"
definition ContentTypeProto :: string where "ContentTypeProto = ''protobuf''"
definition ContentTypeMsgPack :: string where "ContentTypeMsgPack = ''msgpack''"

lemmas header_names = HeaderContentType_def HeaderMsgID_def HeaderTraceID_def
  HeaderContentEncoding_def

lemmas content_types = ContentTypeJSON_def ContentTypeProto_def ContentTypeMsgPack_def

lemma header_names_distinct [simp]:
  "HeaderContentType \<noteq> HeaderContentEncoding" "HeaderContentEncoding \<noteq> HeaderContentType"
  "HeaderMsgID \<noteq> HeaderContentEncoding" "HeaderContentEncoding \<noteq> HeaderMsgID"
  "HeaderMsgID \<noteq> HeaderContentType" "HeaderContentType \<noteq> HeaderMsgID"
  by (simp_all add: header_names)

type_synonym PayloadCompressionMode = nat

abbreviation PayloadCompressionOff :: PayloadCompressionMode where "PayloadCompressionOff \<equiv> 0"
abbreviation PayloadCompressionAuto :: PayloadCompressionMode where "PayloadCompressionAuto \<equiv> 1"
abbreviation PayloadCompressionGzip :: PayloadCompressionMode where "PayloadCompressionGzip \<equiv> 2"
abbreviation PayloadCompressionBrotli :: PayloadCompressionMode where "PayloadCompressionBrotli \<equiv> 3"

section \<open>Messages\<close>

text \<open>
  \<open>Data any\<close>: what the code can tell of a value by its type assertions, bytes or a proto message.
\<close>

datatype 'v any = AnyBytes bytes | AnyProto 'v | AnyOther 'v

record PublishExpectation =
  ex_LastSeq :: "nat option"
  ex_LastSeqPerSubject :: "nat option"
  ex_Stream :: string
  ex_LastMsgID :: string

definition no_expectation :: PublishExpectation where
  "no_expectation = \<lparr> ex_LastSeq = None, ex_LastSeqPerSubject = None, ex_Stream = [], ex_LastMsgID = [] \<rparr>"

record 'v Message =
  m_Data :: "'v any"
  m_Header :: header
  m_Expect :: "PublishExpectation option"
  m_MessageType :: MessageType

definition WithMsgID :: "string \<Rightarrow> 'v Message \<Rightarrow> 'v Message" where
  "WithMsgID msgID m = m\<lparr> m_Header := header_Set (m_Header m) HeaderMsgID [msgID] \<rparr>"

definition with_expect :: "(PublishExpectation \<Rightarrow> PublishExpectation) \<Rightarrow> 'v Message \<Rightarrow> 'v Message" where
  "with_expect f m = m\<lparr> m_Expect := Some (f (case m_Expect m of None \<Rightarrow> no_expectation | Some e \<Rightarrow> e)) \<rparr>"

definition WithExpectedStream :: "string \<Rightarrow> 'v Message \<Rightarrow> 'v Message" where
  "WithExpectedStream stream = with_expect (\<lambda>e. e\<lparr> ex_Stream := stream \<rparr>)"

definition WithExpectedLastSeq :: "nat \<Rightarrow> 'v Message \<Rightarrow> 'v Message" where
  "WithExpectedLastSeq seq = with_expect (\<lambda>e. e\<lparr> ex_LastSeq := Some seq \<rparr>)"

definition WithExpectedLastSeqPerSubject :: "nat \<Rightarrow> 'v Message \<Rightarrow> 'v Message" where
  "WithExpectedLastSeqPerSubject seq = with_expect (\<lambda>e. e\<lparr> ex_LastSeqPerSubject := Some seq \<rparr>)"

definition WithExpectedLastMsgID :: "string \<Rightarrow> 'v Message \<Rightarrow> 'v Message" where
  "WithExpectedLastMsgID msgID = with_expect (\<lambda>e. e\<lparr> ex_LastMsgID := msgID \<rparr>)"

text \<open>A delivered message of nats.go, as far as the library reads it.\<close>

record msg_meta =
  md_StreamSeq :: nat
  md_ConsumerSeq :: nat
  md_NumDelivered :: nat
  md_Stream :: string
  md_Consumer :: string

record msg =
  msg_Subject :: string
  msg_Reply :: string
  msg_Data :: bytes
  msg_Header :: header
  msg_Metadata :: "msg_meta option"

section \<open>Compression\<close>

definition MinPayloadCompressBytes :: nat where "MinPayloadCompressBytes = 32 * 1024"
definition MaxPayloadDecompressBytes :: nat where "MaxPayloadDecompressBytes = 64 * 1024 * 1024"
definition EncodingBrotli :: string where "EncodingBrotli = ''br''"
definition EncodingGzip :: string where "EncodingGzip = ''gzip''"

text \<open>
  The compressors: a writer gives the compressed bytes or an error; a reader gives the bytes it
  yields and the error that ends them, if it is not the end of the stream; opening a gzip reader
  may fail on its header.
\<close>

record compressors =
  br_write :: "bytes \<Rightarrow> bytes result"
  br_read :: "bytes \<Rightarrow> bytes \<times> err option"
  gz_write :: "bytes \<Rightarrow> bytes result"
  gz_open :: "bytes \<Rightarrow> err option"
  gz_read :: "bytes \<Rightarrow> bytes \<times> err option"

text \<open>\<open>io.ReadAll(io.LimitReader(r, limit))\<close>: nothing after the limit is read, not even an error.\<close>

definition read_limited :: "nat \<Rightarrow> bytes \<times> err option \<Rightarrow> bytes result" where
  "read_limited limit r =
     (case r of (out, e) \<Rightarrow>
        if limit \<le> length out then Inr (take limit out)
        else (case e of None \<Rightarrow> Inr out | Some e \<Rightarrow> Inl e))"

definition compressBrotli :: "compressors \<Rightarrow> bytes \<Rightarrow> bytes result" where
  "compressBrotli z plain = br_write z plain"

definition compressGzip :: "compressors \<Rightarrow> bytes \<Rightarrow> bytes result" where
  "compressGzip z plain = gz_write z plain"

definition MaybeCompressPayload :: "compressors \<Rightarrow> bytes \<Rightarrow> bytes \<times> string \<times> bool" where
  "MaybeCompressPayload z plain =
     (if length plain \<le> MinPayloadCompressBytes then (plain, [], False)
      else
        let gzip = (case compressGzip z plain of
                Inr compressed \<Rightarrow> if length compressed < length plain
                  then (compressed, EncodingGzip, True) else (plain, [], False)
              | Inl _ \<Rightarrow> (plain, [], False)) in
        case compressBrotli z plain of
          Inr compressed \<Rightarrow>
            if length compressed < length plain then (compressed, EncodingBrotli, True) else gzip
        | Inl _ \<Rightarrow> gzip)"

definition decompressBrotli :: "compressors \<Rightarrow> bytes \<Rightarrow> bytes result" where
  "decompressBrotli z data =
     (case read_limited (MaxPayloadDecompressBytes + 1) (br_read z data) of
        Inl e \<Rightarrow> Inl (wrap1 ''brotli decompress: %w'' e)
      | Inr out \<Rightarrow>
          if length out > MaxPayloadDecompressBytes
          then Inl (wrap1 ''%w: brotli exceeds %d bytes'' (ESent ErrPayloadTooLarge)) else Inr out)"

definition decompressGzip :: "compressors \<Rightarrow> bytes \<Rightarrow> bytes result" where
  "decompressGzip z data =
     (case gz_open z data of
        Some e \<Rightarrow> Inl (wrap1 ''gzip decompress: %w'' e)
      | None \<Rightarrow>
          (case read_limited (MaxPayloadDecompressBytes + 1) (gz_read z data) of
             Inl e \<Rightarrow> Inl (wrap1 ''gzip decompress: %w'' e)
           | Inr out \<Rightarrow>
               if length out > MaxPayloadDecompressBytes
               then Inl (wrap1 ''%w: gzip exceeds %d bytes'' (ESent ErrPayloadTooLarge)) else Inr out))"

definition DecompressPayload :: "compressors \<Rightarrow> bytes \<Rightarrow> string \<Rightarrow> bytes result" where
  "DecompressPayload z data encoding =
     (let enc = to_lower (trim_space encoding) in
      if enc = [] \<or> enc = ''identity'' then Inr data
      else if enc = EncodingBrotli then decompressBrotli z data
      else if enc = EncodingGzip then decompressGzip z data
      else Inl (wrap1 ''%w: %q'' (ESent ErrUnsupportedContentEncoding)))"

definition contentEncodingFromHeader :: "header \<Rightarrow> string" where
  "contentEncodingFromHeader h =
     (case h of None \<Rightarrow> [] | Some m \<Rightarrow>
        (case map_of m HeaderContentEncoding of None \<Rightarrow> [] | Some [] \<Rightarrow> [] | Some (v # _) \<Rightarrow> v))"

definition compressPayloadAlgo :: "compressors \<Rightarrow> bytes \<Rightarrow> string \<Rightarrow> bytes \<times> string \<times> bool" where
  "compressPayloadAlgo z plain encoding =
     (if length plain \<le> MinPayloadCompressBytes then (plain, [], False)
      else if encoding = EncodingGzip \<or> encoding = EncodingBrotli then
        (case (if encoding = EncodingGzip then compressGzip z plain else compressBrotli z plain) of
           Inl _ \<Rightarrow> (plain, [], False)
         | Inr compressed \<Rightarrow>
             if length compressed \<ge> length plain then (plain, [], False)
             else (compressed, encoding, True))
      else (plain, [], False))"

text \<open>A header that is not nil is changed in place: the caller's map is the returned one.\<close>

definition applyPayloadCompression ::
  "compressors \<Rightarrow> PayloadCompressionMode \<Rightarrow> bytes \<Rightarrow> header \<Rightarrow> bytes \<times> header" where
  "applyPayloadCompression z mode data hdr =
     (if mode = PayloadCompressionOff then (data, hdr)
      else if \<not> IsEmpty (contentEncodingFromHeader hdr) then (data, hdr)
      else
        case (if mode = PayloadCompressionAuto then MaybeCompressPayload z data
              else if mode = PayloadCompressionGzip then compressPayloadAlgo z data EncodingGzip
              else if mode = PayloadCompressionBrotli then compressPayloadAlgo z data EncodingBrotli
              else (data, [], False)) of
          (out, enc, ok) \<Rightarrow>
            if \<not> ok then (data, hdr) else (out, header_Set hdr HeaderContentEncoding [enc]))"

definition maybeDecompressMsg :: "compressors \<Rightarrow> msg \<Rightarrow> msg result" where
  "maybeDecompressMsg z msg =
     (if msg_Header msg = None then Inr msg
      else
        let enc = header_Get (msg_Header msg) HeaderContentEncoding in
        if IsEmpty enc then Inr msg
        else case DecompressPayload z (msg_Data msg) enc of
          Inl e \<Rightarrow> Inl e
        | Inr out \<Rightarrow>
            Inr (msg\<lparr> msg_Data := out, msg_Header := header_Del (msg_Header msg) HeaderContentEncoding \<rparr>))"

section \<open>Encoding\<close>

text \<open>
  The encoders: sonic's stream encoder and \<open>Unmarshal\<close>, protobuf and msgpack. \<open>Decode\<close> fills \<open>dst\<close>;
  the model returns the value, and \<open>is_proto\<close> says whether \<open>dst\<close> is a proto message.
\<close>

record 'v encoders =
  sonic_encode :: "'v any \<Rightarrow> bytes result"
  sonic_unmarshal :: "bytes \<Rightarrow> 'v any result"
  proto_marshal :: "'v \<Rightarrow> bytes result"
  proto_unmarshal :: "bytes \<Rightarrow> 'v result"
  msgpack_encode :: "'v any \<Rightarrow> bytes result"
  msgpack_unmarshal :: "bytes \<Rightarrow> 'v any result"

definition newline :: char where "newline = CHR 0x0A"

definition encodeJSONPooled :: "'v encoders \<Rightarrow> 'v any \<Rightarrow> bytes result" where
  "encodeJSONPooled c data =
     (case sonic_encode c data of
        Inl e \<Rightarrow> Inl e
      | Inr b \<Rightarrow> Inr (if b \<noteq> [] \<and> last b = newline then butlast b else b))"

definition encodeMsgPackPooled :: "'v encoders \<Rightarrow> 'v any \<Rightarrow> bytes result" where
  "encodeMsgPackPooled c data = msgpack_encode c data"

definition Encode :: "'v encoders \<Rightarrow> 'v Message \<Rightarrow> bytes result" where
  "Encode c msg =
     (if m_MessageType msg = JSON then encodeJSONPooled c (m_Data msg)
      else if m_MessageType msg = Proto then
        (case m_Data msg of
           AnyProto v \<Rightarrow> proto_marshal c v
         | _ \<Rightarrow> Inl (wrap1 ''encode proto: %w'' (ESent ErrInvalidTypeAssertion)))
      else if m_MessageType msg = MessagePack then encodeMsgPackPooled c (m_Data msg)
      else if m_MessageType msg = Raw then
        (case m_Data msg of
           AnyBytes b \<Rightarrow> Inr b
         | _ \<Rightarrow> Inl (wrap1 ''encode raw: %w'' (ESent ErrInvalidTypeAssertion)))
      else Inl (wrap1 ''encode: %w'' (ESent ErrInvalidMessageType)))"

definition Decode :: "'v encoders \<Rightarrow> bytes \<Rightarrow> MessageType \<Rightarrow> bool \<Rightarrow> 'v any result" where
  "Decode c data typ is_proto =
     (if typ = JSON then sonic_unmarshal c data
      else if typ = Proto then
        (if \<not> is_proto then Inl (wrap1 ''decode proto: %w'' (ESent ErrInvalidTypeAssertion))
         else map_sum id AnyProto (proto_unmarshal c data))
      else if typ = MessagePack then msgpack_unmarshal c data
      else Inl (wrap1 ''decode: %w'' (ESent ErrInvalidMessageType)))"

definition MessageTypeFromHeader :: "header \<Rightarrow> MessageType" where
  "MessageTypeFromHeader h =
     (if h = None then JSON
      else let ct = header_Get h HeaderNATSContentType in
        if ct = ContentTypeProto then Proto
        else if ct = ContentTypeMsgPack then MessagePack
        else JSON)"

definition DecodeMsg :: "'v encoders \<Rightarrow> msg \<Rightarrow> MessageType \<Rightarrow> bool \<Rightarrow> 'v any result" where
  "DecodeMsg c msg typ0 is_proto =
     (let typ = (if typ0 = 0 then MessageTypeFromHeader (msg_Header msg) else typ0) in
      Decode c (msg_Data msg) typ is_proto)"

definition DecodeMsgWithDecompress ::
  "'v encoders \<Rightarrow> compressors \<Rightarrow> msg \<Rightarrow> MessageType \<Rightarrow> bool \<Rightarrow> 'v any result" where
  "DecodeMsgWithDecompress c z msg typ is_proto =
     (case maybeDecompressMsg z msg of Inl e \<Rightarrow> Inl e | Inr msg' \<Rightarrow> DecodeMsg c msg' typ is_proto)"

definition validMessageType :: "MessageType \<Rightarrow> bool" where
  "validMessageType typ \<longleftrightarrow> typ = JSON \<or> typ = Proto \<or> typ = MessagePack \<or> typ = Raw"

definition applyContentTypeHeader :: "'v Message \<Rightarrow> 'v Message" where
  "applyContentTypeHeader msg =
     (let hdr = (case m_Header msg of None \<Rightarrow> Some [] | Some m \<Rightarrow> Some m);
          put = (\<lambda>v. msg\<lparr> m_Header := header_Set hdr HeaderNATSContentType [v] \<rparr>) in
      if m_MessageType msg = Proto then put ContentTypeProto
      else if m_MessageType msg = MessagePack then put ContentTypeMsgPack
      else if m_MessageType msg = Raw then msg\<lparr> m_Header := hdr \<rparr>
      else put ContentTypeJSON)"

definition needsContentTypeHeader :: "'v Message \<Rightarrow> bool" where
  "needsContentTypeHeader msg =
     (if m_MessageType msg = Raw then False
      else if m_MessageType msg = JSON \<or> m_MessageType msg = 0 then
        (if header_len (m_Header msg) = 0 then False
         else header_lookup (m_Header msg) HeaderNATSContentType = None)
      else if header_len (m_Header msg) = 0 then True
      else header_lookup (m_Header msg) HeaderNATSContentType = None)"

lemma MessageTypeFromHeader_lookup:
  "MessageTypeFromHeader h = (case header_lookup h HeaderContentType of
     Some (v # _) \<Rightarrow> if v = ContentTypeProto then Proto else if v = ContentTypeMsgPack then MessagePack else JSON
   | _ \<Rightarrow> JSON)"
  by (auto simp: MessageTypeFromHeader_def header_Get_def content_types Let_def
      split: option.splits list.splits)

lemma MessageTypeFromHeader_cong:
  "header_lookup h HeaderContentType = header_lookup h' HeaderContentType \<Longrightarrow>
    MessageTypeFromHeader h = MessageTypeFromHeader h'"
  by (simp add: MessageTypeFromHeader_lookup)

section \<open>Schema headers\<close>

definition HeaderSchema :: string where "HeaderSchema = ''X-NATS-Schema''"
definition HeaderSchemaVersion :: string where "HeaderSchemaVersion = ''X-NATS-Schema-Version''"
definition HeaderContractEncoding :: string where "HeaderContractEncoding = ''X-NATS-Contract-Encoding''"

lemmas schema_headers = HeaderSchema_def HeaderSchemaVersion_def HeaderContractEncoding_def

record SchemaExpectation =
  se_Name :: string
  se_Version :: string
  se_Encoding :: string
  se_Required :: bool

definition ApplySchemaHeaders :: "'v Message \<Rightarrow> string \<Rightarrow> string \<Rightarrow> string \<Rightarrow> 'v Message" where
  "ApplySchemaHeaders msg name version encoding =
     (let h0 = (case m_Header msg of None \<Rightarrow> Some [] | Some m \<Rightarrow> Some m);
          h1 = (if \<not> IsEmpty name then header_Set h0 HeaderSchema [name] else h0);
          h2 = (if \<not> IsEmpty version then header_Set h1 HeaderSchemaVersion [version] else h1);
          h3 = (if \<not> IsEmpty encoding then header_Set h2 HeaderContractEncoding [encoding] else h2) in
      msg\<lparr> m_Header := h3 \<rparr>)"

definition SchemaFromHeader :: "header \<Rightarrow> string \<times> string \<times> string" where
  "SchemaFromHeader h =
     (if h = None then ([], [], [])
      else (header_Get h HeaderSchema, header_Get h HeaderSchemaVersion, header_Get h HeaderContractEncoding))"

definition CheckSchema :: "msg option \<Rightarrow> SchemaExpectation \<Rightarrow> err option" where
  "CheckSchema msg expect =
     (case msg of
        None \<Rightarrow> Some (EMsg ''check schema: message is nil'')
      | Some msg \<Rightarrow>
          (case SchemaFromHeader (msg_Header msg) of (name, version, encoding) \<Rightarrow>
             if IsEmpty name \<and> IsEmpty version \<and> IsEmpty encoding then
               (if se_Required expect
                then Some (wrap1 ''%w: missing schema headers'' (ESent ErrSchemaMismatch)) else None)
             else if \<not> IsEmpty (se_Name expect) \<and> name \<noteq> se_Name expect
               then Some (wrap1 ''%w: schema name want %q got %q'' (ESent ErrSchemaMismatch))
             else if \<not> IsEmpty (se_Version expect) \<and> version \<noteq> se_Version expect
               then Some (wrap1 ''%w: schema version want %q got %q'' (ESent ErrSchemaMismatch))
             else if \<not> IsEmpty (se_Encoding expect) \<and> encoding \<noteq> se_Encoding expect
               then Some (wrap1 ''%w: encoding want %q got %q'' (ESent ErrSchemaMismatch))
             else None))"

definition DecodeMsgWithSchema ::
  "'v encoders \<Rightarrow> msg \<Rightarrow> MessageType \<Rightarrow> bool \<Rightarrow> SchemaExpectation \<Rightarrow> 'v any result" where
  "DecodeMsgWithSchema c msg typ is_proto expect =
     (case CheckSchema (Some msg) expect of Some e \<Rightarrow> Inl e | None \<Rightarrow> DecodeMsg c msg typ is_proto)"


section \<open>Compression is transparent\<close>

text \<open>
  What the library relies on: what a compressor has written, its reader gives back, to the end of
  the stream.
\<close>

definition compressor_laws :: "compressors \<Rightarrow> bool" where
  "compressor_laws z \<longleftrightarrow>
     (\<forall>p c. br_write z p = Inr c \<longrightarrow> br_read z c = (p, None))
     \<and> (\<forall>p c. gz_write z p = Inr c \<longrightarrow> gz_open z c = None \<and> gz_read z c = (p, None))"

lemma contentEncodingFromHeader_Get: "contentEncodingFromHeader h = header_Get h HeaderContentEncoding"
  by (auto simp: contentEncodingFromHeader_def header_Get_def split: option.splits list.splits)

text \<open>An algorithm and what it produced.\<close>

definition compressed_as :: "compressors \<Rightarrow> bytes \<Rightarrow> bytes \<Rightarrow> string \<Rightarrow> bool" where
  "compressed_as z plain out enc \<longleftrightarrow>
     length out < length plain \<and> MinPayloadCompressBytes < length plain
     \<and> (enc = EncodingBrotli \<and> br_write z plain = Inr out \<or> enc = EncodingGzip \<and> gz_write z plain = Inr out)"

lemma MaybeCompressPayload_cases:
  "MaybeCompressPayload z plain = (plain, [], False)
   \<or> (\<exists>out enc. MaybeCompressPayload z plain = (out, enc, True) \<and> compressed_as z plain out enc)"
  by (cases "br_write z plain"; cases "gz_write z plain")
    (auto simp: MaybeCompressPayload_def compressed_as_def compressBrotli_def compressGzip_def Let_def)

lemma compressPayloadAlgo_cases:
  "compressPayloadAlgo z plain alg = (plain, [], False)
   \<or> (\<exists>out enc. compressPayloadAlgo z plain alg = (out, enc, True) \<and> compressed_as z plain out enc)"
  by (cases "br_write z plain"; cases "gz_write z plain")
    (auto simp: compressPayloadAlgo_def compressed_as_def compressBrotli_def compressGzip_def)

lemma applyPayloadCompression_cases:
  obtains (plain) "applyPayloadCompression z mode data hdr = (data, hdr)"
  | (compressed) out enc where "compressed_as z data out enc" "header_Get hdr HeaderContentEncoding = []"
      "applyPayloadCompression z mode data hdr = (out, header_Set hdr HeaderContentEncoding [enc])"
proof -
  define r where "r = (if mode = PayloadCompressionAuto then MaybeCompressPayload z data
    else if mode = PayloadCompressionGzip then compressPayloadAlgo z data EncodingGzip
    else if mode = PayloadCompressionBrotli then compressPayloadAlgo z data EncodingBrotli
    else (data, [], False))"
  have apply_r: "applyPayloadCompression z mode data hdr =
      (if mode = PayloadCompressionOff \<or> header_Get hdr HeaderContentEncoding \<noteq> [] then (data, hdr)
       else case r of (out, enc, ok) \<Rightarrow>
         if \<not> ok then (data, hdr) else (out, header_Set hdr HeaderContentEncoding [enc]))"
    by (simp add: applyPayloadCompression_def r_def IsEmpty_def contentEncodingFromHeader_Get)
  have "r = (data, [], False) \<or> (\<exists>out enc. r = (out, enc, True) \<and> compressed_as z data out enc)"
    using MaybeCompressPayload_cases [of z data] compressPayloadAlgo_cases [of z data EncodingGzip]
      compressPayloadAlgo_cases [of z data EncodingBrotli] by (simp add: r_def)
  then consider "r = (data, [], False)" | out enc where "r = (out, enc, True)" "compressed_as z data out enc"
    by blast
  then show thesis
    using apply_r plain compressed
    by cases (simp_all split: if_splits)
qed

lemma encoding_names:
  "to_lower (trim_space EncodingBrotli) = EncodingBrotli" "to_lower (trim_space EncodingGzip) = EncodingGzip"
  "EncodingBrotli \<noteq> []" "EncodingGzip \<noteq> []" "EncodingBrotli \<noteq> ''identity''"
  "EncodingGzip \<noteq> ''identity''" "EncodingGzip \<noteq> EncodingBrotli"
  by code_simp+

lemma DecompressPayload_compressed:
  assumes "compressor_laws z" "compressed_as z plain out enc" "length plain \<le> MaxPayloadDecompressBytes"
  shows "DecompressPayload z out enc = Inr plain" "enc \<noteq> []"
  using assms encoding_names
  by (auto simp: compressed_as_def DecompressPayload_def decompressBrotli_def decompressGzip_def
      compressor_laws_def read_limited_def)

lemma decompress_restores:
  assumes "compressor_laws z" "length data \<le> MaxPayloadDecompressBytes"
    and "header_Get hdr HeaderContentEncoding = []"
    and "applyPayloadCompression z mode data hdr = (data', hdr')"
  shows "\<exists>m. maybeDecompressMsg z \<lparr> msg_Subject = s, msg_Reply = r, msg_Data = data', msg_Header = hdr',
        msg_Metadata = md \<rparr> = Inr m
    \<and> msg_Data m = data \<and> header_Get (msg_Header m) HeaderContentEncoding = []
    \<and> (\<forall>k. k \<noteq> HeaderContentEncoding \<longrightarrow> header_lookup (msg_Header m) k = header_lookup hdr k)
    \<and> length data' \<le> length data"
proof (cases rule: applyPayloadCompression_cases [of z mode data hdr])
  case plain
  with assms(3,4) show ?thesis by (auto simp: maybeDecompressMsg_def IsEmpty_def)
next
  case (compressed out enc)
  then have len: "length out \<le> length data" by (simp add: compressed_as_def)
  from DecompressPayload_compressed [OF assms(1) compressed(1) assms(2)] compressed(3) assms(4) len
  show ?thesis by (auto simp: maybeDecompressMsg_def IsEmpty_def header_Set_def [symmetric] Let_def)
      (auto simp: header_Set_def)
qed

text \<open>
  Payload compression is transparent: for every mode, a payload of at most 64 MiB published
  under a header without \<open>Content-Encoding\<close> is restored byte for byte by \<open>maybeDecompressMsg\<close>, which
  also removes the encoding header and leaves every other header alone; and what goes over the
  wire is never larger than the payload.
\<close>

theorem compression_roundtrip:
  assumes "compressor_laws z" "length data \<le> MaxPayloadDecompressBytes"
    and "header_Get hdr HeaderContentEncoding = []"
    and "applyPayloadCompression z mode data hdr = (data', hdr')"
  shows "\<exists>m. maybeDecompressMsg z \<lparr> msg_Subject = s, msg_Reply = r, msg_Data = data', msg_Header = hdr',
        msg_Metadata = md \<rparr> = Inr m
    \<and> msg_Data m = data \<and> header_Get (msg_Header m) HeaderContentEncoding = []
    \<and> (\<forall>k. k \<noteq> HeaderContentEncoding \<longrightarrow> header_lookup (msg_Header m) k = header_lookup hdr k)
    \<and> length data' \<le> length data"
  using decompress_restores [OF assms] .

text \<open>A compressor for one payload only, and its reader.\<close>

definition one_payload :: bytes where "one_payload = replicate 40000 CHR ''a''"

definition one_compressor :: compressors where
  "one_compressor = \<lparr>
     br_write = (\<lambda>p. if p = one_payload then Inr ''z'' else Inl (EMsg ''unsupported'')),
     br_read = (\<lambda>c. (one_payload, None)),
     gz_write = (\<lambda>p. Inl (EMsg ''unsupported'')), gz_open = (\<lambda>_. Some (EMsg ''unsupported'')),
     gz_read = (\<lambda>_. ([], None)) \<rparr>"

lemma one_compressor_laws: "compressor_laws one_compressor"
  by (simp add: compressor_laws_def one_compressor_def)

theorem compression_roundtrip_witness:
  "\<exists>m. maybeDecompressMsg one_compressor \<lparr> msg_Subject = ''s'', msg_Reply = [], msg_Data = ''z'',
        msg_Header = Some [(HeaderContentEncoding, [EncodingBrotli])], msg_Metadata = None \<rparr> = Inr m
    \<and> msg_Data m = one_payload"
proof -
  have "applyPayloadCompression one_compressor PayloadCompressionAuto one_payload None
      = (''z'', Some [(HeaderContentEncoding, [EncodingBrotli])])"
    by (simp add: applyPayloadCompression_def MaybeCompressPayload_def compressBrotli_def
        one_compressor_def IsEmpty_def contentEncodingFromHeader_def
        MinPayloadCompressBytes_def header_Set_def one_payload_def Let_def)
  from compression_roundtrip [OF one_compressor_laws _ _ this, of "''s''" "[]" None] show ?thesis
    by (auto simp: one_payload_def MaxPayloadDecompressBytes_def)
qed

text \<open>
  The publisher has no upper bound where the consumer has one: a compressible payload of more than
  64 MiB is published compressed, and every consumer then refuses it.
\<close>

lemma oversized_payload_not_readable:
  assumes "compressor_laws z" "compressed_as z plain out enc" "MaxPayloadDecompressBytes < length plain"
  shows "\<exists>e. DecompressPayload z out enc = Inl e \<and> errors_Is e ErrPayloadTooLarge"
  using assms encoding_names
  by (auto simp: compressed_as_def DecompressPayload_def decompressBrotli_def decompressGzip_def
      compressor_laws_def read_limited_def go_err)

lemma DecompressPayload_bounded:
  assumes "DecompressPayload z data enc = Inr out" "to_lower (trim_space enc) \<notin> {[], ''identity''}"
  shows "length out \<le> MaxPayloadDecompressBytes"
  using assms
  by (auto simp: DecompressPayload_def decompressBrotli_def decompressGzip_def Let_def
      split: if_splits option.splits sum.splits)

end
