(* ===== verification/Validate.thy ===== *)
theory Validate
  imports Shard
begin

text \<open>
  Name and subject validation (\<open>validate.go\<close>), the outbound check of \<open>helpers.go\<close>, delayed
  subjects (\<open>schedule.go\<close>) and the covering filter subject of a consumer
  (\<open>consumer_filter.go\<close>). A validator returns \<open>None\<close> for Go's nil.
\<close>

abbreviation maxNameLen :: nat where "maxNameLen \<equiv> 255"
definition asciiSpace :: nat where "asciiSpace = 32"
definition asciiDEL :: nat where "asciiDEL = 127"
definition maxSubjectLenMultiplier :: nat where "maxSubjectLenMultiplier = 4"

section \<open>Asset names\<close>

definition validateAssetName :: "string \<Rightarrow> string \<Rightarrow> err option" where
  "validateAssetName name kind =
     (if IsEmpty name then Some (EMsg (kind @ '' name is empty''))
      else if length name > maxNameLen then Some (EMsg (kind @ '' name exceeds 255 characters''))
      else if contains_any name
           [CHR '' '', CHR 0x09, CHR 0x0D, CHR 0x0A, CHR 0x0C, CHR ''.'', CHR ''*'', CHR ''>'',
            CHR 0x5C, CHR ''/'']
        then Some (EMsg (kind @ '' name contains forbidden characters''))
      else if list_ex (\<lambda>r. r < asciiSpace \<or> r = asciiDEL) (runes name)
        then Some (EMsg (kind @ '' name contains non-printable characters''))
      else None)"

definition ValidateStreamName :: "string \<Rightarrow> err option" where
  "ValidateStreamName name =
     map_option (\<lambda>e. EWrap ''%w: %w'' [ESent ErrInvalidStreamName, e])
       (validateAssetName name ''stream'')"

definition ValidateDurableName :: "string \<Rightarrow> err option" where
  "ValidateDurableName name =
     map_option (\<lambda>e. EWrap ''%w: %w'' [ESent ErrInvalidDurableName, e])
       (validateAssetName name ''durable'')"

definition ValidateQueueName :: "string \<Rightarrow> err option" where
  "ValidateQueueName name =
     map_option (\<lambda>e. EWrap ''%w: %w'' [ESent ErrInvalidQueueName, e])
       (validateAssetName name ''queue'')"

section \<open>Bucket names and keys\<close>

text \<open>The two regular expressions are anchored character classes, repeated at least once.\<close>

definition is_alnum :: "char \<Rightarrow> bool" where
  "is_alnum c = (let n = (of_char c :: nat) in
     (48 \<le> n \<and> n \<le> 57) \<or> (65 \<le> n \<and> n \<le> 90) \<or> (97 \<le> n \<and> n \<le> 122))"

definition validBucketRe :: "string \<Rightarrow> bool" where
  "validBucketRe s \<longleftrightarrow> s \<noteq> [] \<and> list_all (\<lambda>c. is_alnum c \<or> c \<in> {CHR ''_'', CHR ''-''}) s"

definition validKVKeyRe :: "string \<Rightarrow> bool" where
  "validKVKeyRe s \<longleftrightarrow> s \<noteq> [] \<and>
     list_all (\<lambda>c. is_alnum c \<or> c \<in> {CHR ''-'', CHR ''/'', CHR ''_'', CHR ''='', CHR ''.''}) s"

definition ValidateBucketName :: "string \<Rightarrow> err option" where
  "ValidateBucketName name =
     (if IsEmpty name then Some (wrap1 ''bucket name is empty'' (ESent ErrInvalidBucketName))
      else if length name > maxNameLen
        then Some (wrap1 ''bucket name exceeds 255 characters'' (ESent ErrInvalidBucketName))
      else if \<not> validBucketRe name
        then Some (wrap1 ''bucket name must match'' (ESent ErrInvalidBucketName))
      else None)"

definition ValidateKVKey :: "string \<Rightarrow> err option" where
  "ValidateKVKey key =
     (if IsEmpty key then Some (wrap1 ''key is empty'' (ESent ErrInvalidKVKey))
      else if length key > maxNameLen
        then Some (wrap1 ''key exceeds 255 characters'' (ESent ErrInvalidKVKey))
      else if \<not> validKVKeyRe key
        then Some (wrap1 ''key must match'' (ESent ErrInvalidKVKey))
      else None)"

section \<open>Subjects\<close>

definition hasWhitespace :: "string \<Rightarrow> bool" where
  "hasWhitespace s = list_ex unicode_is_space (runes s)"

text \<open>
  The tokenizing loop: \<open>i\<close> runs over the positions of the subject and one past its end,
  \<open>start\<close> is where the current token begins, \<open>full\<close> is \<open>fullWildcardSeen\<close>.
\<close>

function validateSubject_loop ::
  "string \<Rightarrow> bool \<Rightarrow> nat \<Rightarrow> nat \<Rightarrow> bool \<Rightarrow> err option" where
  "validateSubject_loop subject allowWildcards i start full =
     (if i > length subject then None
      else if i < length subject \<and> subject ! i \<noteq> CHR ''.''
        then validateSubject_loop subject allowWildcards (i + 1) start full
      else if full then Some (EMsg ''has tokens after >'')
      else if start = i then Some (EMsg ''has empty token'')
      else
        let token = take (i - start) (drop start subject) in
        if hasWhitespace token then Some (EMsg ''has whitespace in token'')
        else if token = ''>'' then
          (if \<not> allowWildcards then Some (EMsg ''publish subject must not contain wildcards'')
           else if i \<noteq> length subject then Some (EMsg ''> must be the final token'')
           else validateSubject_loop subject allowWildcards (i + 1) (i + 1) True)
        else if token = ''*'' then
          (if \<not> allowWildcards then Some (EMsg ''publish subject must not contain wildcards'')
           else validateSubject_loop subject allowWildcards (i + 1) (i + 1) full)
        else if contains_any token ''*>'' then Some (EMsg ''wildcards must be standalone tokens'')
        else validateSubject_loop subject allowWildcards (i + 1) (i + 1) full)"
  by pat_completeness auto
termination
  by (relation "measure (\<lambda>(subject, allow, i, start, full). Suc (length subject) - i)") auto

declare validateSubject_loop.simps [simp del]

definition validateSubject :: "string \<Rightarrow> bool \<Rightarrow> err option" where
  "validateSubject subject allowWildcards =
     (if IsEmpty subject then Some (EMsg ''subject is empty'')
      else if length subject > maxNameLen * maxSubjectLenMultiplier
        then Some (EMsg ''subject exceeds maximum length'')
      else validateSubject_loop subject allowWildcards 0 0 False)"

definition ValidateSubject :: "string \<Rightarrow> err option" where
  "ValidateSubject subject =
     map_option (\<lambda>e. EWrap ''%w: %w'' [ESent ErrInvalidSubject, e]) (validateSubject subject True)"

definition ValidatePublishSubject :: "string \<Rightarrow> err option" where
  "ValidatePublishSubject subject =
     map_option (\<lambda>e. EWrap ''%w: %w'' [ESent ErrInvalidSubject, e]) (validateSubject subject False)"

primrec ValidateSubjects :: "string list \<Rightarrow> err option" where
  "ValidateSubjects [] = None"
| "ValidateSubjects (s # ss) = then_err (ValidateSubject s) (ValidateSubjects ss)"

definition validateOutboundSubject :: "string \<Rightarrow> string \<Rightarrow> bool \<Rightarrow> err option" where
  "validateOutboundSubject subject op skip =
     (if skip then None
      else case ValidatePublishSubject subject of
        None \<Rightarrow> None
      | Some e \<Rightarrow>
          if errors_Is e ErrInvalidSubject \<and> IsEmpty subject
          then Some (wrap1 op (ESent ErrEmptySubjectNotAllowed))
          else Some (wrap1 op e))"

section \<open>Delayed publish subjects\<close>

text \<open>
  \<open>fmt.Sprintf(tpl, subject, ms)\<close> for a caller's own template is Go's formatter, a parameter;
  the default template \<open>"%s.delay.%d"\<close> is written out.
\<close>

definition delayedSubject ::
  "(string \<Rightarrow> string \<Rightarrow> int \<Rightarrow> string) \<Rightarrow> string \<Rightarrow> duration \<Rightarrow> string \<Rightarrow> string result" where
  "delayedSubject sprintf subject delay SubjectTemplate =
     (case ValidateSubject subject of
        Some e \<Rightarrow> Inl e
      | None \<Rightarrow>
          if delay < 0 then Inl (EMsg ''delayed publish: negative delay'')
          else
            let ms0 = go_div delay Millisecond;
                ms = (if ms0 < 0 then 0 else ms0) in
            Inr (if IsEmpty SubjectTemplate
                 then subject @ ''.delay.'' @ (if ms = 0 then ''0'' else digits_of (nat ms))
                 else sprintf SubjectTemplate subject ms))"

section \<open>Covering filter subject\<close>

text \<open>
  \<open>commonWildcardSubject\<close>: \<open>common\<close> counts the leading positions where every token list agrees
  with the first, over the length of the shortest.
\<close>

definition minLen :: "string list list \<Rightarrow> nat" where
  "minLen tokens = Min (length ` set tokens)"

fun common_tokens :: "string list list \<Rightarrow> nat \<Rightarrow> nat \<Rightarrow> nat" where
  "common_tokens tokens i 0 = 0"
| "common_tokens tokens i (Suc left) =
     (if list_all (\<lambda>t. t ! i = hd tokens ! i) (tl tokens)
      then Suc (common_tokens tokens (Suc i) left) else 0)"

definition commonWildcardSubject :: "string list \<Rightarrow> string" where
  "commonWildcardSubject subjects =
     (if subjects = [] then []
      else
        let tokens = map (split_on CHR ''.'') subjects;
            n = minLen tokens in
        if n \<le> 0 then []
        else
          let common = common_tokens tokens 0 n in
          if common = 0 then []
          else
            let prefix = join_with CHR ''.'' (take common (hd tokens)) in
            if list_all (\<lambda>t. length t = common) tokens then prefix else prefix @ ''.>'')"

definition consumerFilterSubjects :: "string list \<Rightarrow> string" where
  "consumerFilterSubjects subjects =
     (case subjects of
        [] \<Rightarrow> ''>''
      | [s] \<Rightarrow> s
      | _ \<Rightarrow> (let wild = commonWildcardSubject subjects in
              if \<not> IsEmpty wild then wild else ''>''))"

definition consumerFilterSubject :: "string \<Rightarrow> string list \<Rightarrow> string" where
  "consumerFilterSubject FilterSubject FilterSubjects =
     (if \<not> IsEmpty FilterSubject then FilterSubject else consumerFilterSubjects FilterSubjects)"

section \<open>What the subject validator accepts\<close>

text \<open>The grammar: a sequence of tokens, each well formed, with \<open>>\<close> in the last place only.\<close>

definition token_ok :: "bool \<Rightarrow> string \<Rightarrow> bool" where
  "token_ok allow t \<longleftrightarrow> t \<noteq> [] \<and> \<not> hasWhitespace t \<and>
     (if t = ''>'' \<or> t = ''*'' then allow else \<not> contains_any t ''*>'')"

fun subject_wf :: "bool \<Rightarrow> string list \<Rightarrow> bool" where
  "subject_wf allow [] = True"
| "subject_wf allow [t] = token_ok allow t"
| "subject_wf allow (t # u # ts) = (token_ok allow t \<and> t \<noteq> ''>'' \<and> subject_wf allow (u # ts))"

lemma subject_wf_Cons:
  "ts \<noteq> [] \<Longrightarrow> subject_wf allow (t # ts) = (token_ok allow t \<and> t \<noteq> ''>'' \<and> subject_wf allow ts)"
  by (cases ts) simp_all

lemma split_on_drop_dot:
  assumes "start \<le> i" "i < length s" "s ! i = c" "c \<notin> set (take (i - start) (drop start s))"
  shows "split_on c (drop start s) = take (i - start) (drop start s) # split_on c (drop (Suc i) s)"
proof -
  have "drop start s = take (i - start) (drop start s) @ drop i s"
    using assms(1) append_take_drop_id [of "i - start" "drop start s"] by simp
  also have "drop i s = c # drop (Suc i) s"
    using assms(2,3) Cons_nth_drop_Suc [of i s] by simp
  finally have "split_on c (drop start s) =
      split_on c (take (i - start) (drop start s) @ c # drop (Suc i) s)" by simp
  then show ?thesis using assms(4) by (simp add: split_on_append_sep split_on_plain)
qed

lemma no_dot_extend:
  assumes "start \<le> i" "i < length s" "s ! i \<noteq> c" "c \<notin> set (take (i - start) (drop start s))"
  shows "c \<notin> set (take (Suc i - start) (drop start s))"
proof -
  have "Suc i - start = Suc (i - start)" using assms(1) by simp
  then have "take (Suc i - start) (drop start s) = take (i - start) (drop start s) @ [s ! i]"
    using assms(1,2) by (simp add: take_Suc_conv_app_nth)
  with assms(3,4) show ?thesis by simp
qed

text \<open>The loop from a token boundary accepts exactly the well-formed rests.\<close>

lemma validateSubject_loop_iff:
  assumes "\<not> full" "start \<le> i" "i \<le> length s"
    and "CHR ''.'' \<notin> set (take (i - start) (drop start s))"
  shows "validateSubject_loop s allow i start full = None
           \<longleftrightarrow> subject_wf allow (split_on CHR ''.'' (drop start s))"
  using assms
proof (induction s allow i start full rule: validateSubject_loop.induct)
  case (1 s allow i start full)
  let ?tok = "take (i - start) (drop start s)"
  show ?case
  proof (cases "i < length s \<and> s ! i \<noteq> CHR ''.''")
    case True
    then have "validateSubject_loop s allow i start full =
        validateSubject_loop s allow (i + 1) start full"
      by (simp add: validateSubject_loop.simps [of s allow i start full])
    moreover have "CHR ''.'' \<notin> set (take (i + 1 - start) (drop start s))"
      using no_dot_extend [of start i s "CHR ''.''"] True "1.prems" by simp
    ultimately show ?thesis
      using "1.IH"(1) True "1.prems" by simp
  next
    case False
    have dot: "i = length s \<or> s ! i = CHR ''.''" using False "1.prems"(3) by auto
    have rest: "split_on CHR ''.'' (drop start s) =
        ?tok # (if i = length s then [] else split_on CHR ''.'' (drop (i + 1) s))"
      using dot "1.prems" split_on_drop_dot [of start i s "CHR ''.''"]
      by (auto simp: split_on_plain)
    have empty: "?tok = [] \<longleftrightarrow> start = i" using "1.prems"(2,3) by auto
    have next1: "validateSubject_loop s allow (i + 1) (i + 1) full = None \<longleftrightarrow>
          (i = length s \<or> subject_wf allow (split_on CHR ''.'' (drop (i + 1) s)))"
      if "start \<noteq> i" "\<not> hasWhitespace ?tok" "?tok = ''*'' \<Longrightarrow> allow"
         "?tok \<noteq> ''>''" "?tok \<noteq> ''*'' \<Longrightarrow> \<not> contains_any ?tok ''*>''"
    proof (cases "i = length s")
      case True
      then show ?thesis by (simp add: validateSubject_loop.simps [of s allow "Suc (length s)"])
    next
      case F2: False
      with "1.prems" have "i + 1 \<le> length s" by simp
      then show ?thesis
        using "1.IH"(3,4) False "1.prems"(1,3) that F2 by (cases "?tok = ''*''") auto
    qed
    have last1: "validateSubject_loop s a (i + 1) (i + 1) True = None" if "i = length s" for a
      using that by (simp add: validateSubject_loop.simps [of s a "Suc (length s)"])
    have unf: "validateSubject_loop s allow i start full = None \<longleftrightarrow>
        start \<noteq> i \<and> \<not> hasWhitespace ?tok \<and>
        (if ?tok = ''>'' then allow \<and> i = length s
         else if ?tok = ''*'' then allow \<and> validateSubject_loop s allow (i + 1) (i + 1) full = None
         else \<not> contains_any ?tok ''*>'' \<and>
           validateSubject_loop s allow (i + 1) (i + 1) full = None)"
    proof (cases "i = length s")
      case True
      with "1.prems"(1) last1 show ?thesis
        by (subst validateSubject_loop.simps) (simp add: Let_def)
    next
      case F2: False
      with dot "1.prems"(1,3) show ?thesis
        by (subst validateSubject_loop.simps) (simp add: Let_def)
    qed
    have rhs: "subject_wf allow (split_on CHR ''.'' (drop start s)) \<longleftrightarrow> token_ok allow ?tok \<and>
        (i = length s \<or> ?tok \<noteq> ''>'' \<and> subject_wf allow (split_on CHR ''.'' (drop (i + 1) s)))"
      unfolding rest by (cases "i = length s") (simp_all add: subject_wf_Cons)
    show ?thesis
      unfolding unf rhs token_ok_def using next1 empty by (auto split: if_splits)
  qed
qed

lemma validateSubject_None_iff:
  "validateSubject s allow = None \<longleftrightarrow>
     s \<noteq> [] \<and> length s \<le> 1020 \<and> subject_wf allow (split_on CHR ''.'' s)"
  using validateSubject_loop_iff [of False 0 0 s allow]
  by (auto simp: validateSubject_def IsEmpty_def maxSubjectLenMultiplier_def)

text \<open>
  C11. The allocation-free tokenizing loop accepts exactly the subjects of at most 1020 bytes
  whose dot-separated tokens are all non-empty, free of (Unicode) whitespace and either a
  standalone wildcard, where wildcards are allowed, or free of wildcard characters, with \<open>>\<close> in
  the last place only.
\<close>

theorem validateSubject_iff:
  "validateSubject s allow = None \<longleftrightarrow>
     s \<noteq> [] \<and> length s \<le> 1020 \<and> subject_wf allow (split_on CHR ''.'' s)"
  by (rule validateSubject_None_iff)

lemma ValidateSubject_None_iff: "ValidateSubject s = None \<longleftrightarrow> validateSubject s True = None"
  by (simp add: ValidateSubject_def)

lemma ValidatePublishSubject_None_iff:
  "ValidatePublishSubject s = None \<longleftrightarrow> validateSubject s False = None"
  by (simp add: ValidatePublishSubject_def)

lemma ValidateSubjects_None_iff:
  "ValidateSubjects ss = None \<longleftrightarrow> (\<forall>s\<in>set ss. ValidateSubject s = None)"
  by (induction ss) auto

text \<open>A validated publish subject can never be read as a pattern.\<close>

lemma validated_publish_subject_literal:
  assumes "ValidatePublishSubject s = None"
  shows "\<forall>t\<in>set (split_on CHR ''.'' s). t \<noteq> [] \<and> t \<noteq> ''*'' \<and> t \<noteq> ''>''"
proof -
  have wf: "subject_wf False ts \<Longrightarrow> \<forall>t\<in>set ts. t \<noteq> [] \<and> t \<noteq> ''*'' \<and> t \<noteq> ''>''" for ts
  proof (induction ts)
    case (Cons t ts)
    from Cons.prems have t: "token_ok False t" and ts: "subject_wf False ts"
      by (cases ts; simp)+
    from t have "t \<noteq> [] \<and> t \<noteq> ''*'' \<and> t \<noteq> ''>''"
      by (cases "t = ''>'' \<or> t = ''*''") (simp_all add: token_ok_def)
    with Cons.IH [OF ts] show ?case by simp
  qed simp
  from assms have "subject_wf False (split_on CHR ''.'' s)"
    by (simp add: ValidatePublishSubject_None_iff validateSubject_None_iff)
  then show ?thesis by (rule wf)
qed

text \<open>
  The doc comment of \<open>ValidateStreamName\<close> excludes whitespace. The check excludes the ASCII
  blanks only: a no-break space (U+00A0) is accepted in a name, while \<open>ValidateSubject\<close> refuses
  it in a subject.
\<close>

lemma stream_name_allows_nbsp:
  "ValidateStreamName [CHR ''A'', CHR 0xC2, CHR 0xA0] = None"
  "ValidateSubject [CHR ''A'', CHR 0xC2, CHR 0xA0] \<noteq> None"
  by (simp_all add: ValidateStreamName_def validateAssetName_def IsEmpty_def
      contains_any_def ValidateSubject_None_iff validateSubject_None_iff token_ok_def
      hasWhitespace_def runes_def unicode_is_space_def is_cont_def asciiSpace_def asciiDEL_def)

section \<open>What the covering filter subject matches\<close>

text \<open>NATS subject matching on tokens: \<open>*\<close> is one token, a final \<open>>\<close> is one or more.\<close>

fun subject_matches :: "string list \<Rightarrow> string list \<Rightarrow> bool" where
  "subject_matches [] s = (s = [])"
| "subject_matches (p # ps) s =
     (if p = ''>'' \<and> ps = [] then s \<noteq> []
      else case s of [] \<Rightarrow> False
           | x # xs \<Rightarrow> (p = ''*'' \<or> p = x) \<and> subject_matches ps xs)"

lemma subject_matches_nonempty: "subject_matches ps s \<Longrightarrow> ps \<noteq> [] \<Longrightarrow> s \<noteq> []"
  by (cases ps) (auto split: if_splits list.splits)

text \<open>Cutting a pattern after \<open>n\<close> of its tokens and adding \<open>>\<close> matches at least as much.\<close>

lemma subject_matches_widen:
  "subject_matches ps s \<Longrightarrow> n < length ps \<Longrightarrow> subject_matches (take n ps @ [''>'']) s"
proof (induction n arbitrary: ps s)
  case 0
  then show ?case using subject_matches_nonempty [of ps s] by auto
next
  case (Suc n)
  then obtain p qs where ps: "ps = p # qs" "n < length qs" by (cases ps) auto
  with Suc.prems obtain x xs where s: "s = x # xs" "p = ''*'' \<or> p = x" "subject_matches qs xs"
    by (cases "p = ''>'' \<and> qs = []"; cases s) auto
  with Suc.IH [OF s(3) ps(2)] ps show ?case by simp
qed

lemma common_tokens_le: "common_tokens tokens i left \<le> left"
  by (induction tokens i left rule: common_tokens.induct) auto

lemma common_tokens_agree:
  "\<lbrakk> t \<in> set tokens; k < common_tokens tokens i left \<rbrakk> \<Longrightarrow> t ! (i + k) = hd tokens ! (i + k)"
proof (induction tokens i left arbitrary: k rule: common_tokens.induct)
  case (1 tokens i)
  then show ?case by simp
next
  case (2 tokens i left)
  from "2.prems" have all: "list_all (\<lambda>t. t ! i = hd tokens ! i) (tl tokens)"
    and k: "k < Suc (common_tokens tokens (Suc i) left)"
    by (auto split: if_splits)
  show ?case
  proof (cases k)
    case 0
    with all "2.prems"(1) show ?thesis by (cases tokens) (auto simp: list_all_iff)
  next
    case (Suc k')
    with "2.IH" [OF all "2.prems"(1), of k'] k show ?thesis by simp
  qed
qed

lemma minLen_le: "t \<in> set tokens \<Longrightarrow> minLen tokens \<le> length t"
  by (simp add: minLen_def)

lemma common_prefix:
  assumes "t \<in> set tokens" and "c = common_tokens tokens 0 (minLen tokens)"
  shows "c \<le> length t \<and> take c t = take c (hd tokens)"
proof -
  have hd: "hd tokens \<in> set tokens" using assms(1) by (cases tokens) auto
  have c: "c \<le> length t" "c \<le> length (hd tokens)"
    using common_tokens_le [of tokens 0 "minLen tokens"] minLen_le [OF assms(1)] minLen_le [OF hd]
      assms(2) by simp_all
  have "take c t = take c (hd tokens)"
    using c common_tokens_agree [OF assms(1), of _ 0 "minLen tokens"] assms(2)
    by (intro nth_equalityI) simp_all
  with c show ?thesis by simp
qed

lemma split_on_wild:
  assumes "toks \<noteq> []" and "\<forall>t\<in>set toks. CHR ''.'' \<notin> set t"
  shows "split_on CHR ''.'' (join_with CHR ''.'' toks @ ''.>'') = toks @ [''>'']"
  using split_on_append_sep [of "CHR ''.''" "join_with CHR ''.'' toks" "''>''"] split_join [OF assms]
  by simp

lemma commonWildcardSubject_covers:
  assumes f: "f \<in> set subjects"
    and noext: "\<forall>g\<in>set subjects. \<forall>ts. split_on CHR ''.'' g = split_on CHR ''.'' f @ ts \<longrightarrow> ts = []"
    and wild: "commonWildcardSubject subjects \<noteq> []"
    and m: "subject_matches (split_on CHR ''.'' f) s"
  shows "subject_matches (split_on CHR ''.'' (commonWildcardSubject subjects)) s"
proof -
  define tokens where "tokens = map (split_on CHR ''.'') subjects"
  define c where "c = common_tokens tokens 0 (minLen tokens)"
  define ft where "ft = split_on CHR ''.'' f"
  let ?pre = "take c (hd tokens)"
  have ft: "ft \<in> set tokens" using f by (simp add: tokens_def ft_def)
  have pre: "\<And>t. t \<in> set tokens \<Longrightarrow> c \<le> length t \<and> take c t = ?pre"
    by (rule common_prefix) (simp_all add: c_def)
  have c0: "c \<noteq> 0" and eq: "commonWildcardSubject subjects =
      (if list_all (\<lambda>t. length t = c) tokens then join_with CHR ''.'' ?pre
       else join_with CHR ''.'' ?pre @ ''.>'')"
    using wild by (auto simp: commonWildcardSubject_def tokens_def [symmetric] c_def Let_def
        split: if_splits)
  have nodot: "\<forall>t\<in>set ?pre. CHR ''.'' \<notin> set t"
    using pre [OF ft] by (metis ft_def in_set_takeD split_on_no_sep)
  have ne: "?pre \<noteq> []" using c0 pre [OF ft] by auto
  show ?thesis
  proof (cases "list_all (\<lambda>t. length t = c) tokens")
    case True
    then have "ft = ?pre" using pre [OF ft] ft by (simp add: list_all_iff)
    with m True eq split_join [OF ne nodot] show ?thesis by (simp add: ft_def)
  next
    case False
    then obtain g where g: "g \<in> set tokens" "length g \<noteq> c" by (auto simp: list_all_iff)
    have "c < length ft"
    proof (rule ccontr)
      assume "\<not> c < length ft"
      then have "take c ft = ft" by simp
      then have "take c g = ft" using pre [OF ft] pre [OF g(1)] by metis
      then have split: "g = ft @ drop c g" using append_take_drop_id [of c g] by metis
      obtain g' where g': "g' \<in> set subjects" "g = split_on CHR ''.'' g'"
        using g(1) by (auto simp: tokens_def)
      have "split_on CHR ''.'' g' = split_on CHR ''.'' f @ drop c g"
        unfolding g'(2) [symmetric] ft_def [symmetric] by (rule split)
      then have "drop c g = []" using noext g'(1) by blast
      then show False using g(2) pre [OF g(1)] by simp
    qed
    then have "subject_matches (take c ft @ [''>'']) s"
      using m by (intro subject_matches_widen) (simp_all add: ft_def)
    with False eq pre [OF ft] split_on_wild [OF ne nodot] show ?thesis by simp
  qed
qed



text \<open>
  Without that hypothesis the covering claim of the doc comment fails: for the filters \<open>orders\<close>
  and \<open>orders.created\<close> the derived subject is \<open>orders.>\<close>, which the subject \<open>orders\<close> does not match.
\<close>

lemma commonWildcardSubject_misses_prefix_filter:
  "commonWildcardSubject [''orders'', ''orders.created''] = ''orders.>''"
  "subject_matches (split_on CHR ''.'' ''orders'') [''orders'']"
  "\<not> subject_matches (split_on CHR ''.'' ''orders.>'') [''orders'']"
  by code_simp+

end
