(* ===== verification/Publisher.thy ===== *)
theory Publisher
  imports Payload Validate
begin

text \<open>
  Publishing, requesting and responding (\<open>publisher.go\<close>, \<open>requester.go\<close>, \<open>responder.go\<close>). The
  connection of nats.go is the record \<open>net_env\<close>, whose operations take and return the state \<open>'w\<close>
  of the outside world. A Go map handed in by the caller is changed in place: \<open>prepared\<close> keeps the
  header as it is after the call, which is what the caller's map then holds (\<open>caller_message\<close>).
  Spans are left out; \<open>nt_inject\<close> is what the tracing library adds to a header.
\<close>

section \<open>The connection\<close>

datatype pubopt = ExpectStream string | ExpectLastMsgId string | ExpectLastSequence nat
  | ExpectLastSequencePerSubject nat | MsgIdOpt string | ContextOpt

datatype net_metric = PublishErrors | PublishTotal | PublishBytesHist nat | PublishLatency int
  | RequestErrors | RequestTotal | RequestBytesHist nat | RequestLatency int
  | ReplyHandled | ReplyErrors

record PubAck =
  pa_Stream :: string
  pa_Sequence :: nat
  pa_Duplicate :: bool

record 'w net_env =
  nt_IsConnected :: "'w \<Rightarrow> bool"
  nt_inject :: "header \<Rightarrow> header"
  nt_PublishMsg :: "msg \<Rightarrow> pubopt list \<Rightarrow> 'w \<Rightarrow> PubAck result \<times> 'w"
  nt_PublishMsgAsync :: "msg \<Rightarrow> pubopt list \<Rightarrow> 'w \<Rightarrow> nat result \<times> 'w"
  nt_AsyncPending :: "'w \<Rightarrow> int"
  nt_Request :: "gotime \<Rightarrow> msg \<Rightarrow> 'w \<Rightarrow> msg result \<times> 'w"
  nt_RespondMsg :: "msg \<Rightarrow> msg \<Rightarrow> 'w \<Rightarrow> err option \<times> 'w"
  nt_metric :: "net_metric \<Rightarrow> string \<Rightarrow> 'w \<Rightarrow> 'w"
  nt_now :: "'w \<Rightarrow> gotime \<times> 'w"

definition out_msg :: "string \<Rightarrow> bytes \<Rightarrow> header \<Rightarrow> msg" where
  "out_msg subject data hdr = \<lparr> msg_Subject = subject, msg_Reply = [], msg_Data = data,
     msg_Header = hdr, msg_Metadata = None \<rparr>"

section \<open>Publisher\<close>

abbreviation defaultMaxAsyncPending :: int where "defaultMaxAsyncPending \<equiv> 1024"

record publisher =
  p_hasConn :: bool
  p_hasMetrics :: bool
  p_maxAsyncPending :: int
  p_payloadCompression :: PayloadCompressionMode
  p_allowMetrics :: bool
  p_allowTracing :: bool
  p_skipSubjectValidation :: bool
  p_reconnectBufDisabled :: bool
  p_asyncErr :: "err option"

record PublisherConfig =
  pcf_AllowMetrics :: bool
  pcf_AllowTracing :: bool
  pcf_SkipSubjectValidation :: bool
  pcf_MaxAsyncPending :: int
  pcf_PayloadCompression :: PayloadCompressionMode

definition newPublisher :: "PublisherConfig \<Rightarrow> bool \<Rightarrow> int \<Rightarrow> bool \<Rightarrow> bool \<Rightarrow> publisher" where
  "newPublisher cfg hasConn reconnectBufSize hasMetrics allowTracing =
     (let maxAsync = (if pcf_MaxAsyncPending cfg = 0 then defaultMaxAsyncPending
                      else pcf_MaxAsyncPending cfg) in
      \<lparr> p_hasConn = hasConn, p_hasMetrics = hasMetrics, p_maxAsyncPending = maxAsync,
        p_payloadCompression = pcf_PayloadCompression cfg, p_allowMetrics = pcf_AllowMetrics cfg,
        p_allowTracing = (allowTracing \<and> pcf_AllowTracing cfg),
        p_skipSubjectValidation = pcf_SkipSubjectValidation cfg,
        p_reconnectBufDisabled = (reconnectBufSize < 0), p_asyncErr = None \<rparr>)"

definition guardConnected :: "'w net_env \<Rightarrow> publisher \<Rightarrow> 'w \<Rightarrow> err option" where
  "guardConnected env p w =
     (if \<not> p_reconnectBufDisabled p then None
      else if \<not> p_hasConn p \<or> \<not> nt_IsConnected env w
        then Some (ESent ErrNatsConnectionNotEstablished)
      else None)"

definition publisher_validateSubject :: "publisher \<Rightarrow> string \<Rightarrow> err option" where
  "publisher_validateSubject p subject =
     validateOutboundSubject subject ''publish'' (p_skipSubjectValidation p)"

definition publisher_recordError :: "'w net_env \<Rightarrow> publisher \<Rightarrow> string \<Rightarrow> 'w \<Rightarrow> 'w" where
  "publisher_recordError env p subject w =
     (if \<not> p_allowMetrics p \<or> \<not> p_hasMetrics p then w else nt_metric env PublishErrors subject w)"

definition publisher_recordSuccess :: "'w net_env \<Rightarrow> publisher \<Rightarrow> string \<Rightarrow> nat \<Rightarrow> int \<Rightarrow> 'w \<Rightarrow> 'w" where
  "publisher_recordSuccess env p subject n elapsed w =
     (if \<not> p_allowMetrics p \<or> \<not> p_hasMetrics p then w
      else nt_metric env (PublishLatency elapsed) subject
             (nt_metric env (PublishBytesHist n) subject (nt_metric env PublishTotal subject w)))"

definition recordAsyncAccepted :: "'w net_env \<Rightarrow> publisher \<Rightarrow> string \<Rightarrow> nat \<Rightarrow> 'w \<Rightarrow> 'w" where
  "recordAsyncAccepted env p subject n w =
     (if \<not> p_allowMetrics p \<or> \<not> p_hasMetrics p then w
      else nt_metric env (PublishBytesHist n) subject (nt_metric env PublishTotal subject w))"

record 'v preparedPublish =
  pp_msg :: "'v Message"
  pp_data :: bytes

definition preparePublish ::
  "'w net_env \<Rightarrow> 'v encoders \<Rightarrow> compressors \<Rightarrow> publisher \<Rightarrow> string \<Rightarrow> 'v Message \<Rightarrow> 'w \<Rightarrow>
   'v preparedPublish result \<times> 'w" where
  "preparePublish env c z p subject msg w =
     (case guardConnected env p w of Some e \<Rightarrow> (Inl e, w) | None \<Rightarrow>
      case publisher_validateSubject p subject of Some e \<Rightarrow> (Inl e, w) | None \<Rightarrow>
      if \<not> validMessageType (m_MessageType msg)
      then (Inl (wrap1 ''publish subject=%q: %w'' (ESent ErrInvalidMessageType)), w)
      else
        let msg1 = (if p_allowTracing p then msg\<lparr> m_Header := nt_inject env (m_Header msg) \<rparr> else msg) in
        case Encode c msg1 of
          Inl e \<Rightarrow> (Inl (wrap1 ''publish encode subject=%q: %w'' e), publisher_recordError env p subject w)
        | Inr data \<Rightarrow>
            let msg2 = (if needsContentTypeHeader msg1 then applyContentTypeHeader msg1 else msg1) in
            case applyPayloadCompression z (p_payloadCompression p) data (m_Header msg2) of
              (data', hdr') \<Rightarrow>
                (Inr \<lparr> pp_msg = msg2\<lparr> m_Header := hdr' \<rparr>, pp_data = data' \<rparr>, w))"

definition publishOptsFromMessage :: "'v Message \<Rightarrow> pubopt list" where
  "publishOptsFromMessage msg =
     (case m_Expect msg of None \<Rightarrow> [] | Some e \<Rightarrow>
        (if \<not> IsEmpty (ex_Stream e) then [ExpectStream (ex_Stream e)] else [])
        @ (if \<not> IsEmpty (ex_LastMsgID e) then [ExpectLastMsgId (ex_LastMsgID e)] else [])
        @ (case ex_LastSeq e of None \<Rightarrow> [] | Some n \<Rightarrow> [ExpectLastSequence n])
        @ (case ex_LastSeqPerSubject e of None \<Rightarrow> [] | Some n \<Rightarrow> [ExpectLastSequencePerSubject n]))"

text \<open>\<open>js.Publish\<close> sends a message without header, \<open>js.PublishMsg\<close> one with its header.\<close>

definition publishMsg ::
  "'w net_env \<Rightarrow> bool \<Rightarrow> string \<Rightarrow> 'v preparedPublish \<Rightarrow> 'w \<Rightarrow> err option \<times> 'w" where
  "publishMsg env hasCtx subject prep w =
     (let opts = publishOptsFromMessage (pp_msg prep) @ (if hasCtx then [ContextOpt] else []);
          hdr = m_Header (pp_msg prep) in
      if header_len hdr = 0 then
        (case nt_PublishMsg env (out_msg subject (pp_data prep) None) opts w of
           (Inl e, w') \<Rightarrow> (Some e, w') | (Inr _, w') \<Rightarrow> (None, w'))
      else
        let mid = header_Get hdr HeaderMsgID;
            opts' = (if \<not> IsEmpty mid then opts @ [MsgIdOpt mid] else opts) in
        (case nt_PublishMsg env (out_msg subject (pp_data prep) hdr) opts' w of
           (Inl e, w') \<Rightarrow> (Some e, w') | (Inr _, w') \<Rightarrow> (None, w')))"

definition publishAsyncMsg ::
  "'w net_env \<Rightarrow> string \<Rightarrow> 'v preparedPublish \<Rightarrow> 'w \<Rightarrow> nat result \<times> 'w" where
  "publishAsyncMsg env subject prep w =
     (let opts = publishOptsFromMessage (pp_msg prep);
          hdr = m_Header (pp_msg prep) in
      if header_len hdr = 0 \<and> opts = [] then
        nt_PublishMsgAsync env (out_msg subject (pp_data prep) None) [] w
      else
        let hdr' = (case hdr of None \<Rightarrow> Some [] | Some m \<Rightarrow> Some m);
            mid = header_Get hdr' HeaderMsgID;
            opts' = (if \<not> IsEmpty mid then opts @ [MsgIdOpt mid] else opts) in
        nt_PublishMsgAsync env (out_msg subject (pp_data prep) hdr') opts' w)"

definition guardAsyncPending :: "'w net_env \<Rightarrow> publisher \<Rightarrow> 'w \<Rightarrow> err option" where
  "guardAsyncPending env p w =
     (if p_maxAsyncPending p < 0 then None
      else if nt_AsyncPending env w \<ge> p_maxAsyncPending p then Some (ESent ErrAsyncPublishPendingLimit)
      else None)"

definition PublishMessage ::
  "'w net_env \<Rightarrow> 'v encoders \<Rightarrow> compressors \<Rightarrow> publisher \<Rightarrow> bool \<Rightarrow> string \<Rightarrow> 'v Message \<Rightarrow> 'w \<Rightarrow>
   err option \<times> 'w" where
  "PublishMessage env c z p hasCtx subject msg w =
     (case preparePublish env c z p subject msg w of
        (Inl e, w1) \<Rightarrow> (Some e, w1)
      | (Inr prep, w1) \<Rightarrow>
          (let timed = p_allowMetrics p \<and> p_hasMetrics p;
               (start, w2) = (if timed then nt_now env w1 else (0, w1)) in
           case publishMsg env hasCtx subject prep w2 of
             (Some e, w3) \<Rightarrow> (Some (wrap1 ''publish subject=%q: %w'' e), publisher_recordError env p subject w3)
           | (None, w3) \<Rightarrow>
               (if timed then
                  (case nt_now env w3 of (stop, w4) \<Rightarrow>
                     (None, publisher_recordSuccess env p subject (length (pp_data prep)) (stop - start) w4))
                else (None, w3))))"

definition publishAsync ::
  "'w net_env \<Rightarrow> 'v encoders \<Rightarrow> compressors \<Rightarrow> publisher \<Rightarrow> string \<Rightarrow> 'v Message \<Rightarrow> 'w \<Rightarrow> nat result \<times> 'w" where
  "publishAsync env c z p subject msg w =
     (case guardAsyncPending env p w of
        Some e \<Rightarrow> (Inl e, w)
      | None \<Rightarrow>
          (case preparePublish env c z p subject msg w of
             (Inl e, w1) \<Rightarrow> (Inl e, w1)
           | (Inr prep, w1) \<Rightarrow>
               (case publishAsyncMsg env subject prep w1 of
                  (Inl e, w2) \<Rightarrow>
                    (Inl (wrap1 ''publish async subject=%q: %w'' e), publisher_recordError env p subject w2)
                | (Inr future, w2) \<Rightarrow>
                    (Inr future,
                     if p_allowMetrics p \<and> p_hasMetrics p
                     then recordAsyncAccepted env p subject (length (pp_data prep)) w2 else w2))))"

definition raw_message :: "bytes \<Rightarrow> 'v Message" where
  "raw_message data = \<lparr> m_Data = AnyBytes data, m_Header = None, m_Expect = None, m_MessageType = Raw \<rparr>"

definition typed_message :: "MessageType \<Rightarrow> 'v any \<Rightarrow> 'v Message" where
  "typed_message t v = \<lparr> m_Data = v, m_Header = None, m_Expect = None, m_MessageType = t \<rparr>"

definition PublishProto where
  "PublishProto env c z p hasCtx subject v w = PublishMessage env c z p hasCtx subject (typed_message Proto v) w"

definition PublishJSON where
  "PublishJSON env c z p hasCtx subject v w = PublishMessage env c z p hasCtx subject (typed_message JSON v) w"

definition PublishMsgPack where
  "PublishMsgPack env c z p hasCtx subject v w = PublishMessage env c z p hasCtx subject (typed_message MessagePack v) w"

definition PublishBytes where
  "PublishBytes env c z p hasCtx subject data w = PublishMessage env c z p hasCtx subject (raw_message data) w"

definition PublishBytesWithMsgID where
  "PublishBytesWithMsgID env c z p hasCtx subject mid data w =
     PublishMessage env c z p hasCtx subject (WithMsgID mid (raw_message data)) w"

definition PublishWithMsgID where
  "PublishWithMsgID env c z p hasCtx subject mid msg w =
     PublishMessage env c z p hasCtx subject (WithMsgID mid msg) w"

definition PublishAsyncBytes where
  "PublishAsyncBytes env c z p subject data w = publishAsync env c z p subject (raw_message data) w"

definition PublishRaw ::
  "'w net_env \<Rightarrow> compressors \<Rightarrow> publisher \<Rightarrow> bool \<Rightarrow> string \<Rightarrow> bytes \<Rightarrow> (string \<times> string) list \<Rightarrow> 'w \<Rightarrow>
   PubAck result \<times> 'w" where
  "PublishRaw env z p hasCtx subject data headers w =
     (case guardConnected env p w of Some e \<Rightarrow> (Inl e, w) | None \<Rightarrow>
      case publisher_validateSubject p subject of Some e \<Rightarrow> (Inl e, w) | None \<Rightarrow>
        (case applyPayloadCompression z (p_payloadCompression p) data
                (Some (map (\<lambda>(k, v). (k, [v])) headers)) of
           (data', hdr) \<Rightarrow>
             (case nt_PublishMsg env
                     (out_msg subject data' (if header_len hdr > 0 then hdr else None))
                     (if hasCtx then [ContextOpt] else []) w of
                (Inl e, w') \<Rightarrow> (Inl (wrap1 ''publish raw subject=%q: %w'' e), publisher_recordError env p subject w')
              | (Inr ack, w') \<Rightarrow> (Inr ack, w'))))"

text \<open>The first error of asynchronous publishing is kept until somebody takes it.\<close>

definition noteAsyncErr :: "'w net_env \<Rightarrow> err option \<Rightarrow> publisher \<Rightarrow> 'w \<Rightarrow> publisher \<times> 'w" where
  "noteAsyncErr env e p w =
     (case e of
        None \<Rightarrow> (p, w)
      | Some e \<Rightarrow>
          let p' = (if p_asyncErr p = None then p\<lparr> p_asyncErr := Some e \<rparr> else p) in
          (p', if p_allowMetrics p' \<and> p_hasMetrics p' then publisher_recordError env p' [] w else w))"

definition takeAsyncErr :: "publisher \<Rightarrow> err option \<times> publisher" where
  "takeAsyncErr p = (p_asyncErr p, p\<lparr> p_asyncErr := None \<rparr>)"

text \<open>Which of the three channels of its \<open>select\<close> is ready.\<close>

datatype async_wait = AsyncDone | AsyncCtx err | AsyncStopped err

definition PublishAsyncComplete :: "async_wait \<Rightarrow> publisher \<Rightarrow> err option \<times> publisher" where
  "PublishAsyncComplete ready p =
     (case takeAsyncErr p of (e, p') \<Rightarrow>
        (case ready of
           AsyncDone \<Rightarrow> (e, p')
         | AsyncCtx ce \<Rightarrow> (case e of Some e \<Rightarrow> (Some e, p') | None \<Rightarrow> (Some ce, p'))
         | AsyncStopped ce \<Rightarrow> (case e of Some e \<Rightarrow> (Some e, p') | None \<Rightarrow> (Some ce, p'))))"


definition PublishDelayedJSON where
  "PublishDelayedJSON env c z p sprintf hasCtx subject delay v tpl w =
     (case delayedSubject sprintf subject delay tpl of
        Inl e \<Rightarrow> (Some e, w)
      | Inr dest \<Rightarrow> PublishJSON env c z p hasCtx dest v w)"

section \<open>Requester\<close>

abbreviation defaultRequestTimeout :: duration where "defaultRequestTimeout \<equiv> 2 * Second"

record requester =
  rq_hasConn :: bool
  rq_hasMetrics :: bool
  rq_timeout :: duration
  rq_allowMetrics :: bool
  rq_allowTracing :: bool
  rq_skipSubjectValidation :: bool
  rq_payloadCompression :: PayloadCompressionMode
  rq_payloadDecompression :: bool

record RequesterConfig =
  rcf_Timeout :: duration
  rcf_AllowMetrics :: bool
  rcf_AllowTracing :: bool
  rcf_SkipSubjectValidation :: bool
  rcf_PayloadCompression :: PayloadCompressionMode
  rcf_PayloadDecompression :: bool

definition newRequester :: "RequesterConfig \<Rightarrow> bool \<Rightarrow> bool \<Rightarrow> bool \<Rightarrow> requester" where
  "newRequester cfg hasConn hasMetrics allowTracing =
     (let timeout = (if rcf_Timeout cfg \<le> 0 then defaultRequestTimeout else rcf_Timeout cfg) in
      \<lparr> rq_hasConn = hasConn, rq_hasMetrics = hasMetrics, rq_timeout = timeout,
        rq_allowMetrics = rcf_AllowMetrics cfg, rq_allowTracing = (allowTracing \<and> rcf_AllowTracing cfg),
        rq_skipSubjectValidation = rcf_SkipSubjectValidation cfg,
        rq_payloadCompression = rcf_PayloadCompression cfg,
        rq_payloadDecompression = rcf_PayloadDecompression cfg \<rparr>)"

text \<open>The deadline of the request: the caller's, if its context has one, else \<open>timeout\<close> from now.\<close>

definition withTimeout :: "requester \<Rightarrow> gotime option \<Rightarrow> gotime \<Rightarrow> gotime" where
  "withTimeout r deadline now = (case deadline of Some d \<Rightarrow> d | None \<Rightarrow> now + rq_timeout r)"

definition requester_recordError :: "'w net_env \<Rightarrow> requester \<Rightarrow> string \<Rightarrow> 'w \<Rightarrow> 'w" where
  "requester_recordError env r subject w =
     (if \<not> rq_allowMetrics r \<or> \<not> rq_hasMetrics r then w else nt_metric env RequestErrors subject w)"

definition requester_recordSuccess :: "'w net_env \<Rightarrow> requester \<Rightarrow> string \<Rightarrow> nat \<Rightarrow> int \<Rightarrow> 'w \<Rightarrow> 'w" where
  "requester_recordSuccess env r subject n elapsed w =
     (if \<not> rq_allowMetrics r \<or> \<not> rq_hasMetrics r then w
      else nt_metric env (RequestLatency elapsed) subject
             (nt_metric env (RequestBytesHist n) subject (nt_metric env RequestTotal subject w)))"

text \<open>The encoding half of \<open>RequestMessage\<close>: what is sent.\<close>

definition prepareRequest ::
  "'w net_env \<Rightarrow> 'v encoders \<Rightarrow> compressors \<Rightarrow> requester \<Rightarrow> 'v Message \<Rightarrow> (bytes \<times> header) result" where
  "prepareRequest env c z r msg =
     (let msg1 = (if rq_allowTracing r then msg\<lparr> m_Header := nt_inject env (m_Header msg) \<rparr> else msg) in
      case Encode c msg1 of
        Inl e \<Rightarrow> Inl e
      | Inr data \<Rightarrow>
          let msg2 = (if needsContentTypeHeader msg1 \<or> m_MessageType msg1 = Proto
                         \<or> m_MessageType msg1 = MessagePack
                      then applyContentTypeHeader msg1 else msg1) in
          Inr (applyPayloadCompression z (rq_payloadCompression r) data (m_Header msg2)))"

definition RequestMessage ::
  "'w net_env \<Rightarrow> 'v encoders \<Rightarrow> compressors \<Rightarrow> requester \<Rightarrow> gotime option \<Rightarrow> string \<Rightarrow> 'v Message \<Rightarrow> 'w \<Rightarrow>
   msg result \<times> 'w" where
  "RequestMessage env c z r deadline subject msg0 w =
     (if \<not> rq_hasConn r then (Inl (ESent ErrNatsConnectionNotEstablished), w)
      else case validateOutboundSubject subject ''request'' (rq_skipSubjectValidation r) of
        Some e \<Rightarrow> (Inl e, w)
      | None \<Rightarrow>
          let msg = (if m_MessageType msg0 = 0 then msg0\<lparr> m_MessageType := JSON \<rparr> else msg0) in
          if \<not> validMessageType (m_MessageType msg)
          then (Inl (wrap1 ''request subject=%q: %w'' (ESent ErrInvalidMessageType)), w)
          else
            (case nt_now env w of (now, w0) \<Rightarrow>
             case prepareRequest env c z r msg of
               Inl e \<Rightarrow> (Inl (wrap1 ''request encode subject=%q: %w'' e), requester_recordError env r subject w0)
             | Inr (data, hdr) \<Rightarrow>
                 (let timed = rq_allowMetrics r \<and> rq_hasMetrics r;
                      (start, w1) = (if timed then nt_now env w0 else (0, w0)) in
                  case nt_Request env (withTimeout r deadline now) (out_msg subject data hdr) w1 of
                    (Inl e, w2) \<Rightarrow>
                      (Inl (wrap1 ''request subject=%q: %w'' e), requester_recordError env r subject w2)
                  | (Inr reply, w2) \<Rightarrow>
                      (case (if rq_payloadDecompression r then maybeDecompressMsg z reply else Inr reply) of
                         Inl e \<Rightarrow>
                           (Inl (wrap1 ''request decompress reply subject=%q: %w'' e),
                            requester_recordError env r subject w2)
                       | Inr reply' \<Rightarrow>
                           (if timed then
                              (case nt_now env w2 of (stop, w3) \<Rightarrow>
                                 (Inr reply', requester_recordSuccess env r subject (length data) (stop - start) w3))
                            else (Inr reply', w2))))))"

definition RequestBytes where
  "RequestBytes env c z r deadline subject data w =
     RequestMessage env c z r deadline subject (raw_message data) w"

definition RequestJSON where
  "RequestJSON env c z r deadline subject v w =
     RequestMessage env c z r deadline subject (typed_message JSON v) w"

definition RequestMsgPack where
  "RequestMsgPack env c z r deadline subject v w =
     RequestMessage env c z r deadline subject (typed_message MessagePack v) w"

definition RequestProto where
  "RequestProto env c z r deadline subject v w =
     RequestMessage env c z r deadline subject (typed_message Proto v) w"

definition RequestJSONInto where
  "RequestJSONInto env c z r deadline subject v w =
     (case RequestJSON env c z r deadline subject v w of
        (Inl e, w') \<Rightarrow> (Inl e, w')
      | (Inr reply, w') \<Rightarrow> (Decode c (msg_Data reply) JSON False, w'))"

definition RequestMsgPackInto where
  "RequestMsgPackInto env c z r deadline subject v w =
     (case RequestMsgPack env c z r deadline subject v w of
        (Inl e, w') \<Rightarrow> (Inl e, w')
      | (Inr reply, w') \<Rightarrow> (Decode c (msg_Data reply) MessagePack False, w'))"

definition RequestProtoInto where
  "RequestProtoInto env c z r deadline subject v w =
     (case RequestProto env c z r deadline subject v w of
        (Inl e, w') \<Rightarrow> (Inl e, w')
      | (Inr reply, w') \<Rightarrow> (map_sum id AnyProto (proto_unmarshal c (msg_Data reply)), w'))"

section \<open>Responder\<close>

definition respondBytes ::
  "'w net_env \<Rightarrow> compressors \<Rightarrow> msg option \<Rightarrow> bytes \<Rightarrow> PayloadCompressionMode \<Rightarrow> 'w \<Rightarrow> err option \<times> 'w" where
  "respondBytes env z msg data mode w =
     (case msg of
        None \<Rightarrow> (Some (EMsg ''respond bytes: nil message''), w)
      | Some m \<Rightarrow>
          if mode = PayloadCompressionOff then nt_RespondMsg env m (out_msg [] data None) w
          else
            (case applyPayloadCompression z mode data None of (data', hdr) \<Rightarrow>
               if header_len hdr = 0 then nt_RespondMsg env m (out_msg [] data' None) w
               else nt_RespondMsg env m (out_msg [] data' hdr) w))"

definition respondEncoded ::
  "'w net_env \<Rightarrow> 'v encoders \<Rightarrow> compressors \<Rightarrow> msg option \<Rightarrow> 'v Message \<Rightarrow> PayloadCompressionMode \<Rightarrow> 'w \<Rightarrow>
   err option \<times> 'w" where
  "respondEncoded env c z msg replyMsg mode w =
     (case msg of
        None \<Rightarrow> (Some (EMsg ''respond: nil message''), w)
      | Some m \<Rightarrow>
          (case Encode c replyMsg of
             Inl e \<Rightarrow> (Some (wrap1 ''respond encode: %w'' e), w)
           | Inr data \<Rightarrow>
               (case applyPayloadCompression z mode data (m_Header (applyContentTypeHeader replyMsg)) of
                  (data', hdr) \<Rightarrow> nt_RespondMsg env m (out_msg [] data' hdr) w)))"

definition RespondJSON where
  "RespondJSON env c z msg v mode w = respondEncoded env c z msg (typed_message JSON v) mode w"

definition RespondMsgPack where
  "RespondMsgPack env c z msg v mode w = respondEncoded env c z msg (typed_message MessagePack v) mode w"

definition RespondProto where
  "RespondProto env c z msg v mode w = respondEncoded env c z msg (typed_message Proto v) mode w"


section \<open>What is published is what is decoded\<close>

text \<open>
  The encoders' documented behaviour: a decoder inverts its encoder; sonic's stream encoder ends
  every value with a newline. The tracing library adds headers of its own only.
\<close>

definition encoder_laws :: "'v encoders \<Rightarrow> bool" where
  "encoder_laws c \<longleftrightarrow>
     (\<forall>v b. sonic_encode c v = Inr b \<longrightarrow> (\<exists>j. b = j @ [newline] \<and> sonic_unmarshal c j = Inr v))
     \<and> (\<forall>v b. proto_marshal c v = Inr b \<longrightarrow> proto_unmarshal c b = Inr v)
     \<and> (\<forall>v b. msgpack_encode c v = Inr b \<longrightarrow> msgpack_unmarshal c b = Inr v)"

definition inject_laws :: "'w net_env \<Rightarrow> bool" where
  "inject_laws env \<longleftrightarrow> (\<forall>h k. k = HeaderContentType \<or> k = HeaderContentEncoding \<longrightarrow>
     header_lookup (nt_inject env h) k = header_lookup h k)"

lemma Encode_Decode:
  assumes "encoder_laws c" "Encode c msg = Inr data" "m_MessageType msg \<noteq> Raw"
  shows "Decode c data (m_MessageType msg) (m_MessageType msg = Proto) = Inr (m_Data msg)"
proof -
  consider "m_MessageType msg = JSON" | v where "m_MessageType msg = Proto" "m_Data msg = AnyProto v"
    | "m_MessageType msg = MessagePack"
    using assms(2,3) by (auto simp: Encode_def split: if_splits any.splits)
  then show ?thesis
  proof cases
    case 1
    with assms(2) obtain b where "sonic_encode c (m_Data msg) = Inr b"
        "data = (if b \<noteq> [] \<and> last b = newline then butlast b else b)"
      by (auto simp: Encode_def encodeJSONPooled_def split: sum.splits)
    moreover from this assms(1) obtain j where "b = j @ [newline]" "sonic_unmarshal c j = Inr (m_Data msg)"
      unfolding encoder_laws_def by blast
    ultimately show ?thesis using 1 by (simp add: Decode_def)
  next
    case 2
    with assms(1,2) show ?thesis by (auto simp: encoder_laws_def Encode_def Decode_def)
  next
    case 3
    with assms(1,2) show ?thesis
      by (auto simp: encoder_laws_def Encode_def Decode_def encodeMsgPackPooled_def)
  qed
qed

lemma Encode_header [simp]: "Encode c (msg\<lparr> m_Header := h \<rparr>) = Encode c msg"
  by (simp add: Encode_def)

text \<open>The content type is set unless it is the default and there is no header at all.\<close>

lemma content_type_header:
  assumes "validMessageType (m_MessageType msg)" "m_MessageType msg \<noteq> Raw"
    and "header_lookup (m_Header msg) HeaderContentType = None"
    and "msg2 = (if needsContentTypeHeader msg then applyContentTypeHeader msg else msg)"
  shows "MessageTypeFromHeader (m_Header msg2) = m_MessageType msg"
    and "header_lookup (m_Header msg2) HeaderContentEncoding = header_lookup (m_Header msg) HeaderContentEncoding"
proof -
  have h: "header_lookup (case m_Header msg of None \<Rightarrow> Some [] | Some m \<Rightarrow> Some m) k
      = header_lookup (m_Header msg) k" for k
    by (simp split: option.split)
  show "header_lookup (m_Header msg2) HeaderContentEncoding = header_lookup (m_Header msg) HeaderContentEncoding"
    using h assms(4) by (simp add: applyContentTypeHeader_def Let_def)
  consider "m_MessageType msg = JSON" | "m_MessageType msg = Proto" | "m_MessageType msg = MessagePack"
    using assms(1,2) by (auto simp: validMessageType_def)
  then show "MessageTypeFromHeader (m_Header msg2) = m_MessageType msg"
    using assms(3,4)
    by cases (simp_all add: MessageTypeFromHeader_lookup needsContentTypeHeader_def
        applyContentTypeHeader_def Let_def content_types)
qed

lemma preparePublish_ok:
  assumes "preparePublish env c z p subject msg w = (Inr prep, w')"
  obtains msg1 msg2 data where
    "msg1 = (if p_allowTracing p then msg\<lparr> m_Header := nt_inject env (m_Header msg) \<rparr> else msg)"
    "validMessageType (m_MessageType msg)" "Encode c msg1 = Inr data" "w' = w"
    "msg2 = (if needsContentTypeHeader msg1 then applyContentTypeHeader msg1 else msg1)"
    "applyPayloadCompression z (p_payloadCompression p) data (m_Header msg2)
      = (pp_data prep, m_Header (pp_msg prep))"
  using assms that
  by (auto simp: preparePublish_def Let_def split: option.splits if_splits sum.splits prod.splits)

text \<open>
  C9. End to end: a JSON, protobuf or msgpack message that \<open>preparePublish\<close> accepts, whatever the
  compression mode and with or without tracing, is decoded by \<open>DecodeMsgWithDecompress\<close> to the value
  that was published, with the content type taken from the headers, provided that the caller has
  set no content type or encoding header of their own and the encoded value is at most 64 MiB.
\<close>

theorem publish_decode_roundtrip:
  assumes "encoder_laws c" "compressor_laws z" "inject_laws env"
    and "preparePublish env c z p subject msg w = (Inr prep, w')"
    and "m_MessageType msg \<noteq> Raw"
    and "header_lookup (m_Header msg) HeaderContentType = None"
    and "header_lookup (m_Header msg) HeaderContentEncoding = None"
    and "\<And>b. Encode c msg = Inr b \<Longrightarrow> length b \<le> MaxPayloadDecompressBytes"
  shows "DecodeMsgWithDecompress c z (out_msg subject (pp_data prep) (m_Header (pp_msg prep))) 0
      (m_MessageType msg = Proto) = Inr (m_Data msg)"
proof -
  obtain msg1 msg2 data where prep:
    "msg1 = (if p_allowTracing p then msg\<lparr> m_Header := nt_inject env (m_Header msg) \<rparr> else msg)"
    "validMessageType (m_MessageType msg)" "Encode c msg1 = Inr data" "w' = w"
    "msg2 = (if needsContentTypeHeader msg1 then applyContentTypeHeader msg1 else msg1)"
    "applyPayloadCompression z (p_payloadCompression p) data (m_Header msg2)
      = (pp_data prep, m_Header (pp_msg prep))"
    by (rule preparePublish_ok [OF assms(4)])
  have same: "m_MessageType msg1 = m_MessageType msg" "m_Data msg1 = m_Data msg"
    using prep(1) by simp_all
  have hdr1: "header_lookup (m_Header msg1) HeaderContentType = None"
    "header_lookup (m_Header msg1) HeaderContentEncoding = None"
    using prep(1) assms(3,6,7) by (simp_all add: inject_laws_def)
  have ct: "MessageTypeFromHeader (m_Header msg2) = m_MessageType msg"
    "header_lookup (m_Header msg2) HeaderContentEncoding = None"
    using content_type_header [of msg1 msg2] prep(2,5) same assms(5) hdr1 by simp_all
  then have ce: "header_Get (m_Header msg2) HeaderContentEncoding = []" by (simp add: header_Get_def)
  have len: "length data \<le> MaxPayloadDecompressBytes" using assms(8) prep(1,3) by (simp split: if_splits)
  obtain m where m: "maybeDecompressMsg z (out_msg subject (pp_data prep) (m_Header (pp_msg prep))) = Inr m"
    "msg_Data m = data"
    "\<forall>k. k \<noteq> HeaderContentEncoding \<longrightarrow> header_lookup (msg_Header m) k = header_lookup (m_Header msg2) k"
    using decompress_restores [OF assms(2) len ce prep(6)] unfolding out_msg_def by blast
  have "MessageTypeFromHeader (msg_Header m) = MessageTypeFromHeader (m_Header msg2)"
    using m(3) by (intro MessageTypeFromHeader_cong) simp
  with m ct(1) Encode_Decode [OF assms(1) prep(3)] same assms(5) show ?thesis
    by (simp add: DecodeMsgWithDecompress_def DecodeMsg_def)
qed


text \<open>Encoders of numbers in unary, and a connection that accepts everything.\<close>

definition unary_encoders :: "nat encoders" where
  "unary_encoders = \<lparr>
     sonic_encode = (\<lambda>v. case v of AnyOther n \<Rightarrow> Inr (replicate n CHR ''x'' @ [newline]) | _ \<Rightarrow> Inl (EMsg ''json'')),
     sonic_unmarshal = (\<lambda>b. Inr (AnyOther (length b))),
     proto_marshal = (\<lambda>n. Inr (replicate n CHR ''p'')),
     proto_unmarshal = (\<lambda>b. Inr (length b)),
     msgpack_encode = (\<lambda>v. case v of AnyOther n \<Rightarrow> Inr (replicate n CHR ''m'') | _ \<Rightarrow> Inl (EMsg ''msgpack'')),
     msgpack_unmarshal = (\<lambda>b. Inr (AnyOther (length b))) \<rparr>"

lemma unary_encoder_laws: "encoder_laws unary_encoders"
  by (auto simp: encoder_laws_def unary_encoders_def split: any.splits)

definition logging_net :: "(msg \<times> pubopt list) list net_env" where
  "logging_net = \<lparr> nt_IsConnected = (\<lambda>_. True), nt_inject = (\<lambda>h. h),
     nt_PublishMsg = (\<lambda>m opts w. (Inr \<lparr> pa_Stream = ''S'', pa_Sequence = Suc (length w), pa_Duplicate = False \<rparr>,
        w @ [(m, opts)])),
     nt_PublishMsgAsync = (\<lambda>m opts w. (Inr (length w), w @ [(m, opts)])),
     nt_AsyncPending = (\<lambda>w. int (length w)),
     nt_Request = (\<lambda>_ m w. (Inr m, w)), nt_RespondMsg = (\<lambda>_ _ w. (None, w)),
     nt_metric = (\<lambda>_ _ w. w), nt_now = (\<lambda>w. (0, w)) \<rparr>"

definition plain_publisher :: "PayloadCompressionMode \<Rightarrow> publisher" where
  "plain_publisher mode = newPublisher \<lparr> pcf_AllowMetrics = False, pcf_AllowTracing = False,
     pcf_SkipSubjectValidation = True, pcf_MaxAsyncPending = 0, pcf_PayloadCompression = mode \<rparr> True 0 False False"

lemmas demo_defs = unary_encoders_def logging_net_def plain_publisher_def newPublisher_def

theorem publish_decode_roundtrip_witness:
  "\<exists>prep. preparePublish logging_net unary_encoders one_compressor (plain_publisher PayloadCompressionAuto)
      ''orders'' (typed_message MessagePack (AnyOther 5)) [] = (Inr prep, [])
    \<and> DecodeMsgWithDecompress unary_encoders one_compressor
        (out_msg ''orders'' (pp_data prep) (m_Header (pp_msg prep))) 0 False = Inr (AnyOther 5)"
proof -
  let ?msg = "typed_message MessagePack (AnyOther (5::nat))"
  have "\<exists>prep. preparePublish logging_net unary_encoders one_compressor
      (plain_publisher PayloadCompressionAuto) ''orders'' ?msg [] = (Inr prep, [])"
    by (simp add: preparePublish_def guardConnected_def publisher_validateSubject_def
        validateOutboundSubject_def demo_defs typed_message_def validMessageType_def Encode_def
        encodeMsgPackPooled_def Let_def split: prod.split)
  then obtain prep where prep: "preparePublish logging_net unary_encoders one_compressor
      (plain_publisher PayloadCompressionAuto) ''orders'' ?msg [] = (Inr prep, [])"
    by blast
  have "DecodeMsgWithDecompress unary_encoders one_compressor
      (out_msg ''orders'' (pp_data prep) (m_Header (pp_msg prep))) 0 (m_MessageType ?msg = Proto)
      = Inr (m_Data ?msg)"
    by (rule publish_decode_roundtrip [OF unary_encoder_laws one_compressor_laws _ prep])
      (simp_all add: inject_laws_def demo_defs typed_message_def Encode_def
        encodeMsgPackPooled_def MaxPayloadDecompressBytes_def)
  with prep show ?thesis by (simp add: typed_message_def)
qed

section \<open>Publishing a message twice\<close>

text \<open>
  The header map of the caller's message is the one that is sent: after the call the caller's
  message carries the headers added to it.
\<close>

definition caller_message :: "'v Message \<Rightarrow> 'v preparedPublish \<Rightarrow> 'v Message" where
  "caller_message msg prep =
     msg\<lparr> m_Header := (if m_Header msg = None then None else m_Header (pp_msg prep)) \<rparr>"

lemma applyContentTypeHeader_data [simp]:
  "m_Data (applyContentTypeHeader msg) = m_Data msg"
  "m_MessageType (applyContentTypeHeader msg) = m_MessageType msg"
  by (simp_all add: applyContentTypeHeader_def Let_def)

lemma preparePublish_untraced:
  assumes "preparePublish env c z p subject msg w = (Inr prep, w')" "\<not> p_allowTracing p" "Encode c msg = Inr data"
  shows "applyPayloadCompression z (p_payloadCompression p) data
      (m_Header (if needsContentTypeHeader msg then applyContentTypeHeader msg else msg))
    = (pp_data prep, m_Header (pp_msg prep))"
  by (rule preparePublish_ok [OF assms(1)]) (use assms(2,3) in \<open>auto split: if_splits\<close>)

text \<open>
  Publishing the same message a second time corrupts it, when its header map is not nil and its
  payload was compressed the first time (tracing off): the first call has left
  \<open>Content-Encoding\<close> in the caller's map, so the second call does not compress and sends the plain
  payload under a header that says it is compressed.
\<close>

theorem republish_mislabels_payload:
  assumes "preparePublish env c z p subject msg w = (Inr prep, w1)" "\<not> p_allowTracing p"
    and "m_Header msg = Some h" "Encode c msg = Inr data" "length (pp_data prep) < length data"
    and "preparePublish env c z p subject (caller_message msg prep) w2 = (Inr prep', w3)"
  shows "pp_data prep' = data \<and> header_Get (m_Header (pp_msg prep')) HeaderContentEncoding \<noteq> []"
proof -
  define msg2 where "msg2 = (if needsContentTypeHeader msg then applyContentTypeHeader msg else msg)"
  have first: "applyPayloadCompression z (p_payloadCompression p) data (m_Header msg2)
      = (pp_data prep, m_Header (pp_msg prep))"
    unfolding msg2_def by (rule preparePublish_untraced [OF assms(1,2,4)])
  then have "\<exists>enc. header_Set (m_Header msg2) HeaderContentEncoding [enc] = m_Header (pp_msg prep)
      \<and> compressed_as z data (pp_data prep) enc"
    using assms(5)
    by (cases rule: applyPayloadCompression_cases [of z "p_payloadCompression p" data "m_Header msg2"]) auto
  then obtain enc where enc: "m_Header (pp_msg prep) = header_Set (m_Header msg2) HeaderContentEncoding [enc]"
      "compressed_as z data (pp_data prep) enc"
    by force
  have ne: "enc \<noteq> []" using enc(2) encoding_names by (auto simp: compressed_as_def)
  define m where "m = caller_message msg prep"
  define msg2' where "msg2' = (if needsContentTypeHeader m then applyContentTypeHeader m else m)"
  have hm: "header_Get (m_Header m) HeaderContentEncoding = enc" "Encode c m = Inr data"
    using enc(1) assms(3,4) by (simp_all add: m_def caller_message_def)
  have second: "applyPayloadCompression z (p_payloadCompression p) data (m_Header msg2')
      = (pp_data prep', m_Header (pp_msg prep'))"
    unfolding msg2'_def using assms(2,6) hm(2) by (intro preparePublish_untraced) (simp_all add: m_def)
  have h2: "header_Get (m_Header msg2') HeaderContentEncoding = enc"
    using hm(1)
    by (auto simp: msg2'_def applyContentTypeHeader_def Let_def header_Get_def split: option.splits)
  have "applyPayloadCompression z (p_payloadCompression p) data (m_Header msg2') = (data, m_Header msg2')"
    using h2 ne by (simp add: applyPayloadCompression_def contentEncodingFromHeader_Get IsEmpty_def)
  with second h2 ne show ?thesis by simp
qed


text \<open>A raw message of 40000 bytes with a message id, published twice.\<close>

definition twice_message :: "nat Message" where
  "twice_message = WithMsgID ''id-1'' (raw_message one_payload)"

theorem republish_mislabels_payload_witness:
  "\<exists>prep prep'.
     preparePublish logging_net unary_encoders one_compressor (plain_publisher PayloadCompressionAuto)
       ''orders'' twice_message [] = (Inr prep, [])
   \<and> preparePublish logging_net unary_encoders one_compressor (plain_publisher PayloadCompressionAuto)
       ''orders'' (caller_message twice_message prep) [] = (Inr prep', [])
   \<and> pp_data prep' = one_payload \<and> header_Get (m_Header (pp_msg prep')) HeaderContentEncoding \<noteq> []"
proof -
  let ?p = "plain_publisher PayloadCompressionAuto"
  let ?prepare = "\<lambda>m. preparePublish logging_net unary_encoders one_compressor ?p ''orders'' m []"
  have len: "length one_payload = 40000" by (simp add: one_payload_def)
  have raw: "Encode unary_encoders m = Inr one_payload" "needsContentTypeHeader m = False"
    if "m_Data m = AnyBytes one_payload" "m_MessageType m = Raw" for m :: "nat Message"
    using that by (simp_all add: Encode_def needsContentTypeHeader_def)
  have ok: "\<exists>prep. ?prepare m = (Inr prep, [])"
    if "m_Data m = AnyBytes one_payload" "m_MessageType m = Raw" for m
    using raw [OF that] that(2)
    by (simp add: preparePublish_def guardConnected_def publisher_validateSubject_def
        validateOutboundSubject_def demo_defs validMessageType_def Let_def split: prod.split)
  have tw: "m_Data twice_message = AnyBytes one_payload" "m_MessageType twice_message = Raw"
      "m_Header twice_message = Some [(HeaderMsgID, [''id-1''])]"
    by (simp_all add: twice_message_def WithMsgID_def raw_message_def header_Set_def)
  obtain prep where prep: "?prepare twice_message = (Inr prep, [])" using ok tw by blast
  obtain prep' where prep': "?prepare (caller_message twice_message prep) = (Inr prep', [])"
    using ok [of "caller_message twice_message prep"] tw by (auto simp: caller_message_def)
  have tr: "\<not> p_allowTracing ?p" by (simp add: demo_defs)
  have "pp_data prep = ''z''"
    using preparePublish_untraced [OF prep tr raw(1) [OF tw(1,2)]] raw(2) [OF tw(1,2)] tw(3) len
    by (simp add: applyPayloadCompression_def MaybeCompressPayload_def compressBrotli_def
        one_compressor_def demo_defs IsEmpty_def contentEncodingFromHeader_def
        MinPayloadCompressBytes_def Let_def)
  then have "length (pp_data prep) < length one_payload" using len by simp
  from republish_mislabels_payload [OF prep tr tw(3) raw(1) [OF tw(1,2)] this prep'] prep prep'
  show ?thesis by blast
qed

end
