(* ===== verification/Float64.thy ===== *)
theory Float64
  imports Prelude "HOL-Library.Log_Nat"
begin

text \<open>
  Go's \<open>float64\<close> arithmetic on the values the library computes with: every operation is the exact
  rational result rounded to 53 significant bits, to nearest and to even on a tie. Overflow to
  infinity, subnormal numbers and NaN do not occur for the quotients and averages of counters and
  durations modelled here (their magnitudes stay between \<open>2\<^sup>-\<^sup>2\<^sup>0\<^sup>0\<close> and \<open>2\<^sup>2\<^sup>0\<^sup>0\<close>), and are left out.
\<close>

section \<open>Rounding\<close>

definition round_even :: "rat \<Rightarrow> int" where
  "round_even s =
     (let f = \<lfloor>s\<rfloor>; r = s - of_int f in
      if r < 1 / 2 then f else if r > 1 / 2 then f + 1 else if even f then f else f + 1)"

text \<open>The exponent of the last place: \<open>2 powi (fl_exp x + 52) \<le> x < 2 powi (fl_exp x + 53)\<close>.\<close>

definition fl_exp :: "rat \<Rightarrow> int" where
  "fl_exp x =
     (case quotient_of x of (n, d) \<Rightarrow>
        let e = bitlen n - bitlen d - 53 in
        if x < 2 powi (e + 53) then e else e + 1)"

definition fl_pos :: "rat \<Rightarrow> rat" where
  "fl_pos x = of_int (round_even (x / 2 powi (fl_exp x))) * 2 powi (fl_exp x)"

definition fl64 :: "rat \<Rightarrow> rat" where
  "fl64 x = (if x = 0 then 0 else if 0 < x then fl_pos x else - fl_pos (- x))"

text \<open>The conversion \<open>float64(n)\<close> and the operations.\<close>

definition fl_of_int :: "int \<Rightarrow> rat" where "fl_of_int n = fl64 (of_int n)"
definition fl_div :: "rat \<Rightarrow> rat \<Rightarrow> rat" where "fl_div x y = fl64 (x / y)"
definition fl_mul :: "rat \<Rightarrow> rat \<Rightarrow> rat" where "fl_mul x y = fl64 (x * y)"
definition fl_add :: "rat \<Rightarrow> rat \<Rightarrow> rat" where "fl_add x y = fl64 (x + y)"
definition fl_sub :: "rat \<Rightarrow> rat \<Rightarrow> rat" where "fl_sub x y = fl64 (x - y)"

text \<open>
  The conversion of a float to \<open>int64\<close> truncates towards zero; outside of the range the result depends
  on the machine, and is a parameter.
\<close>

definition float_to_i64 :: "(rat \<Rightarrow> int) \<Rightarrow> rat \<Rightarrow> int" where
  "float_to_i64 out_of_range x =
     (let t = (if 0 \<le> x then \<lfloor>x\<rfloor> else - \<lfloor>- x\<rfloor>) in if in_i64 t then t else out_of_range x)"

section \<open>Rounding to an integer\<close>

lemma round_even_bounds: "\<lfloor>s\<rfloor> \<le> round_even s" "round_even s \<le> \<lfloor>s\<rfloor> + 1"
  by (simp_all add: round_even_def Let_def)

lemma round_even_int [simp]: "round_even (of_int n) = n"
  by (simp add: round_even_def)

lemma round_even_mono:
  assumes "s \<le> t"
  shows "round_even s \<le> round_even t"
proof (cases "\<lfloor>s\<rfloor> = \<lfloor>t\<rfloor>")
  case True
  then show ?thesis using assms by (auto simp: round_even_def Let_def)
next
  case False
  with floor_mono [OF assms] have "\<lfloor>s\<rfloor> + 1 \<le> \<lfloor>t\<rfloor>" by simp
  with round_even_bounds [of s] round_even_bounds [of t] show ?thesis by linarith
qed

section \<open>The exponent\<close>

lemma two_powi_pos [simp]: "0 < (2 :: rat) powi k"
  by simp

lemma two_powi_add: "(2 :: rat) powi (a + b) = 2 powi a * 2 powi b"
  by (simp add: power_int_add)

lemma two_powi_mono: "a \<le> b \<Longrightarrow> (2 :: rat) powi a \<le> 2 powi b"
  by (rule power_int_increasing) simp_all

lemma bitlen_bounds_rat:
  assumes "0 < n"
  shows "(2 :: rat) powi (bitlen n - 1) \<le> of_int n" "of_int n < (2 :: rat) powi (bitlen n)"
proof -
  have b: "0 < bitlen n" using assms bitlen_nonneg [of n] bitlen_eq_zero_iff [of n] by linarith
  have nat: "2 ^ nat (bitlen n - 1) \<le> n \<and> n < 2 ^ nat (bitlen n)"
    using bitlen_bounds [OF assms] .
  have "(of_int (2 ^ nat (bitlen n - 1)) :: rat) \<le> of_int n" using nat by (simp only: of_int_le_iff)
  then show "(2 :: rat) powi (bitlen n - 1) \<le> of_int n" using b by (simp add: power_int_def)
  have "(of_int n :: rat) < of_int (2 ^ nat (bitlen n))" using nat by (simp only: of_int_less_iff)
  then show "of_int n < (2 :: rat) powi (bitlen n)" using b by (simp add: power_int_def)
qed

lemma fl_exp_bounds:
  assumes "0 < x"
  shows "2 powi (fl_exp x + 52) \<le> x" "x < 2 powi (fl_exp x + 53)"
proof -
  obtain n d where q: "quotient_of x = (n, d)" by (cases "quotient_of x")
  have d: "0 < d" using quotient_of_denom_pos [OF q] .
  have x: "x = of_int n / of_int d" using quotient_of_div [OF q] .
  have n: "0 < n" using assms d x by (simp add: zero_less_divide_iff)
  define e where "e = bitlen n - bitlen d - 53"
  have lo: "2 powi (e + 52) \<le> x"
  proof -
    have "2 powi (e + 52) * of_int d \<le> (2 powi (e + 52) * 2 powi (bitlen d) :: rat)"
      using bitlen_bounds_rat(2) [OF d] by (intro mult_left_mono) (simp_all add: less_imp_le)
    also have "\<dots> = 2 powi (bitlen n - 1)" by (simp flip: power_int_add add: e_def)
    also have "\<dots> \<le> of_int n" by (rule bitlen_bounds_rat(1) [OF n])
    finally show ?thesis using d by (simp add: x pos_le_divide_eq)
  qed
  have hi: "x < 2 powi (e + 54)"
  proof -
    have "of_int n < (2 powi (bitlen n) :: rat)" by (rule bitlen_bounds_rat(2) [OF n])
    also have "\<dots> = 2 powi (e + 54) * 2 powi (bitlen d - 1)" by (simp flip: power_int_add add: e_def)
    also have "\<dots> \<le> 2 powi (e + 54) * of_int d"
      using bitlen_bounds_rat(1) [OF d] by (intro mult_left_mono) simp_all
    finally show ?thesis using d by (simp add: x pos_divide_less_eq)
  qed
  have "fl_exp x = (if x < 2 powi (e + 53) then e else e + 1)"
    by (simp add: fl_exp_def q e_def Let_def)
  then show "2 powi (fl_exp x + 52) \<le> x" "x < 2 powi (fl_exp x + 53)"
    using lo hi by (auto simp: add.commute add.left_commute not_less split: if_splits)
qed

lemma fl_exp_mono:
  assumes "0 < x" "x \<le> y"
  shows "fl_exp x \<le> fl_exp y"
proof (rule ccontr)
  assume "\<not> fl_exp x \<le> fl_exp y"
  then have "(2 :: rat) powi (fl_exp y + 53) \<le> 2 powi (fl_exp x + 52)" by (intro two_powi_mono) simp
  with fl_exp_bounds [OF assms(1)] fl_exp_bounds [of y] assms show False by linarith
qed

section \<open>Rounding is monotone\<close>

lemma fl_pos_bounds:
  assumes "0 < x"
  shows "2 powi (fl_exp x + 52) \<le> fl_pos x" "fl_pos x \<le> 2 powi (fl_exp x + 53)"
proof -
  let ?e = "fl_exp x" and ?s = "x / 2 powi (fl_exp x)"
  have lo: "of_int (2 ^ 52) \<le> ?s"
    using fl_exp_bounds(1) [OF assms] by (simp add: pos_le_divide_eq two_powi_add mult.commute)
  have hi: "?s \<le> of_int (2 ^ 53)"
    using fl_exp_bounds(2) [OF assms] by (simp add: pos_divide_le_eq two_powi_add mult.commute less_imp_le)
  have "2 ^ 52 \<le> round_even ?s" "round_even ?s \<le> 2 ^ 53"
    using round_even_mono [OF lo] round_even_mono [OF hi] by (simp_all only: round_even_int)
  then have "(of_int (2 ^ 52) :: rat) \<le> of_int (round_even ?s)" "(of_int (round_even ?s) :: rat) \<le> of_int (2 ^ 53)"
    by (simp_all only: of_int_le_iff)
  then show "2 powi (fl_exp x + 52) \<le> fl_pos x" "fl_pos x \<le> 2 powi (fl_exp x + 53)"
    unfolding fl_pos_def two_powi_add by (simp_all add: mult.commute [of "2 powi ?e"])
qed

lemma fl_pos_mono:
  assumes "0 < x" "x \<le> y"
  shows "fl_pos x \<le> fl_pos y"
proof (cases "fl_exp x = fl_exp y")
  case True
  have "x / 2 powi (fl_exp y) \<le> y / 2 powi (fl_exp y)" using assms by (intro divide_right_mono) simp_all
  from round_even_mono [OF this] True show ?thesis by (simp add: fl_pos_def)
next
  case False
  with fl_exp_mono [OF assms] have "(2 :: rat) powi (fl_exp x + 53) \<le> 2 powi (fl_exp y + 52)"
    by (intro two_powi_mono) simp
  with fl_pos_bounds [of x] fl_pos_bounds [of y] assms show ?thesis by linarith
qed

lemma fl_pos_pos: "0 < x \<Longrightarrow> 0 < fl_pos x"
  using fl_pos_bounds(1) [of x] two_powi_pos [of "fl_exp x + 52"] by linarith

lemma fl64_mono: "x \<le> y \<Longrightarrow> fl64 x \<le> fl64 y"
  using fl_pos_mono [of x y] fl_pos_mono [of "- y" "- x"] fl_pos_pos [of y] fl_pos_pos [of "- x"]
  by (auto simp: fl64_def)

lemma fl64_zero [simp]: "fl64 0 = 0"
  by (simp add: fl64_def)

lemma fl64_nonneg: "0 \<le> x \<Longrightarrow> 0 \<le> fl64 x"
  using fl64_mono [of 0 x] by simp

lemma fl64_pos: "0 < x \<Longrightarrow> 0 < fl64 x"
  by (simp add: fl64_def fl_pos_pos)

lemma fl64_le_double:
  assumes "0 \<le> x"
  shows "fl64 x \<le> 2 * x"
proof (cases "x = 0")
  case False
  with assms have x: "0 < x" by simp
  have "fl_pos x \<le> 2 powi (1 + (fl_exp x + 52))" using fl_pos_bounds(2) [OF x] by (simp add: add.commute)
  also have "\<dots> = 2 * 2 powi (fl_exp x + 52)" by (subst two_powi_add) simp
  also have "\<dots> \<le> 2 * x" using fl_exp_bounds(1) [OF x] by simp
  finally show ?thesis using x by (simp add: fl64_def)
qed simp

lemma fl_div_mono: "x \<le> x' \<Longrightarrow> 0 < y \<Longrightarrow> fl_div x y \<le> fl_div x' y"
  unfolding fl_div_def by (intro fl64_mono divide_right_mono) simp_all

lemma fl_of_int_mono: "m \<le> n \<Longrightarrow> fl_of_int m \<le> fl_of_int n"
  unfolding fl_of_int_def by (intro fl64_mono) simp

lemma fl_of_int_pos: "0 < n \<Longrightarrow> 0 < fl_of_int n"
  unfolding fl_of_int_def by (intro fl64_pos) simp


text \<open>Integers below \<open>2\<^sup>5\<^sup>3\<close> are represented exactly.\<close>

lemma fl_pos_int:
  assumes "0 < n" "n < 2 ^ 53"
  shows "fl_pos (of_int n) = of_int n"
proof -
  let ?e = "fl_exp (of_int n :: rat)"
  have "(of_int n :: rat) < of_int (2 ^ 53)" using assms(2) by (simp only: of_int_less_iff)
  with fl_exp_bounds(1) [of "of_int n"] assms(1) have lt: "(2 :: rat) powi (?e + 52) < 2 powi 53" by simp
  have e: "?e \<le> 0"
  proof (rule ccontr)
    assume "\<not> ?e \<le> 0"
    then have "(2 :: rat) powi 53 \<le> 2 powi (?e + 52)" by (intro two_powi_mono) simp
    with lt show False by simp
  qed
  then have inv: "(2 :: rat) powi ?e = 1 / of_int (2 ^ nat (- ?e))"
    by (cases "?e = 0") (simp_all add: power_int_def inverse_eq_divide power_one_over)
  have "(of_int n :: rat) / 2 powi ?e = of_int (n * 2 ^ nat (- ?e))" by (simp add: inv)
  then have "fl_pos (of_int n) = of_int (n * 2 ^ nat (- ?e)) * 2 powi ?e"
    unfolding fl_pos_def by (simp only: round_even_int)
  then show ?thesis by (simp add: inv)
qed

lemma fl64_int: "\<bar>n\<bar> < 2 ^ 53 \<Longrightarrow> fl64 (of_int n) = of_int n"
  using fl_pos_int [of n] fl_pos_int [of "- n"]
  by (cases "0 < n"; cases "n = 0") (simp_all add: fl64_def)

end
