(* ===== verification/Pressure.thy ===== *)
theory Pressure
  imports Float64
begin

text \<open>
  The adaptive pressure controller (\<open>adaptive_pressure.go\<close>) and the circuit breaker it drives
  (\<open>circuit.go\<close>). Levels are the \<open>uint8\<close> constants of the code; ratios are \<open>float64\<close>; products of
  \<open>int\<close> and \<open>Duration\<close> values wrap at 64 bits.
\<close>

section \<open>The controller\<close>

type_synonym AdaptivePressureLevel = nat

abbreviation PressureIdle :: AdaptivePressureLevel where "PressureIdle \<equiv> 0"
abbreviation PressureWarm :: AdaptivePressureLevel where "PressureWarm \<equiv> 1"
abbreviation PressureElevated :: AdaptivePressureLevel where "PressureElevated \<equiv> 2"
abbreviation PressureHard :: AdaptivePressureLevel where "PressureHard \<equiv> 3"
abbreviation PressureCritical :: AdaptivePressureLevel where "PressureCritical \<equiv> 4"

record AdaptivePressureConfig =
  ap_Enabled :: bool
  ap_MinFetchBatch :: int
  ap_MaxFetchBatch :: int
  ap_MinAckPending :: int
  ap_NakDelayMin :: duration
  ap_NakDelayMax :: duration

definition AdaptivePressureConfig_withDefaults :: "AdaptivePressureConfig \<Rightarrow> AdaptivePressureConfig" where
  "AdaptivePressureConfig_withDefaults c =
     (let c1 = (if ap_MinFetchBatch c \<le> 0 then c\<lparr> ap_MinFetchBatch := 1 \<rparr> else c);
          c2 = (if ap_MaxFetchBatch c1 \<le> 0 then c1\<lparr> ap_MaxFetchBatch := 256 \<rparr> else c1);
          c3 = (if ap_MinAckPending c2 \<le> 0 then c2\<lparr> ap_MinAckPending := 50 \<rparr> else c2);
          c4 = (if ap_NakDelayMin c3 \<le> 0 then c3\<lparr> ap_NakDelayMin := 100 * Millisecond \<rparr> else c3);
          c5 = (if ap_NakDelayMax c4 \<le> 0 then c4\<lparr> ap_NakDelayMax := 5 * Second \<rparr> else c4) in
      if ap_MaxFetchBatch c5 < ap_MinFetchBatch c5
      then c5\<lparr> ap_MaxFetchBatch := ap_MinFetchBatch c5 \<rparr> else c5)"

record AdaptivePressureInput =
  in_PoolDepth :: int
  in_PoolCapacity :: int
  in_HandlerLatency :: duration
  in_BaselineLatency :: duration
  in_Lag :: nat
  in_Pending :: nat
  in_CurrentBatch :: int
  in_CurrentAckPend :: int
  in_MaxAckPending :: int

record AdaptivePressureDecision =
  d_Level :: AdaptivePressureLevel
  d_FetchBatch :: int
  d_AckPending :: int
  d_NakDelay :: duration

definition zero_decision :: AdaptivePressureDecision where
  "zero_decision = \<lparr> d_Level = 0, d_FetchBatch = 0, d_AckPending = 0, d_NakDelay = 0 \<rparr>"

definition pressure_fill :: "AdaptivePressureInput \<Rightarrow> rat" where
  "pressure_fill i = (if in_PoolCapacity i > 0
     then fl_div (fl_of_int (in_PoolDepth i)) (fl_of_int (in_PoolCapacity i)) else 0)"

definition pressure_latency :: "AdaptivePressureInput \<Rightarrow> rat" where
  "pressure_latency i = (if in_BaselineLatency i > 0 \<and> in_HandlerLatency i > 0
     then fl_div (fl_of_int (in_HandlerLatency i)) (fl_of_int (in_BaselineLatency i)) else 1)"

definition pressure_level :: "AdaptivePressureInput \<Rightarrow> AdaptivePressureLevel" where
  "pressure_level i =
     (let fill = pressure_fill i; latencyFactor = pressure_latency i in
      if fill \<ge> fl64 (95 / 100) \<or> latencyFactor \<ge> 5 \<or> in_Lag i > 10000 then PressureCritical
      else if fill \<ge> fl64 (7 / 10) \<or> latencyFactor \<ge> 3 \<or> in_Pending i > 5000 then PressureHard
      else if fill \<ge> fl64 (4 / 10) \<or> latencyFactor \<ge> 3 / 2 \<or> in_Lag i > 500 then PressureElevated
      else if fill \<ge> fl64 (15 / 100) \<or> in_Lag i > 50 then PressureWarm
      else PressureIdle)"

definition DecideAdaptivePressure ::
  "AdaptivePressureConfig \<Rightarrow> AdaptivePressureInput \<Rightarrow> AdaptivePressureDecision" where
  "DecideAdaptivePressure cfg0 i =
     (let cfg = AdaptivePressureConfig_withDefaults cfg0;
          level = pressure_level i;
          batch = (if in_CurrentBatch i \<le> 0 then ap_MaxFetchBatch cfg else in_CurrentBatch i);
          ack0 = (if in_CurrentAckPend i \<le> 0 then in_MaxAckPending i else in_CurrentAckPend i);
          ack = (if ack0 \<le> 0 then i64 (ap_MinAckPending cfg * 4) else ack0);
          (batch', ack', nak) =
            (if level = PressureIdle then
               (let b1 = (if in_PoolCapacity i > 0 then min (ap_MaxFetchBatch cfg) (i64 (batch * 2)) else batch);
                    b2 = (if b1 < ap_MinFetchBatch cfg then ap_MinFetchBatch cfg else b1) in
                (b2, if in_MaxAckPending i > 0 then in_MaxAckPending i else ack, 0))
             else if level = PressureWarm then (batch, ack, 0)
             else if level = PressureElevated then
               (max (ap_MinFetchBatch cfg) (go_div batch 2), ack, ap_NakDelayMin cfg)
             else if level = PressureHard then
               (let n = i64 (ap_NakDelayMin cfg * 2) in
                (ap_MinFetchBatch cfg, max (ap_MinAckPending cfg) (go_div ack 2),
                 if n > ap_NakDelayMax cfg then ap_NakDelayMax cfg else n))
             else (ap_MinFetchBatch cfg, ap_MinAckPending cfg, ap_NakDelayMax cfg));
          b1 = (if batch' > ap_MaxFetchBatch cfg then ap_MaxFetchBatch cfg else batch');
          b2 = (if b1 < ap_MinFetchBatch cfg then ap_MinFetchBatch cfg else b1) in
      \<lparr> d_Level = level, d_FetchBatch = b2, d_AckPending = ack', d_NakDelay = nak \<rparr>)"

record AdaptivePressure =
  ad_cfg :: AdaptivePressureConfig
  ad_decision :: AdaptivePressureDecision

definition NewAdaptivePressure :: "AdaptivePressureConfig \<Rightarrow> AdaptivePressure" where
  "NewAdaptivePressure cfg0 =
     (let cfg = AdaptivePressureConfig_withDefaults cfg0 in
      \<lparr> ad_cfg = cfg,
        ad_decision = \<lparr> d_Level = PressureIdle, d_FetchBatch = ap_MaxFetchBatch cfg, d_AckPending = 0,
                        d_NakDelay = 0 \<rparr> \<rparr>)"

text \<open>The receiver may be nil: \<^const>\<open>None\<close>.\<close>

definition Observe ::
  "AdaptivePressureInput \<Rightarrow> AdaptivePressure option \<Rightarrow> AdaptivePressureDecision \<times> AdaptivePressure option" where
  "Observe i a =
     (case a of
        None \<Rightarrow> (zero_decision, None)
      | Some ap \<Rightarrow>
          if \<not> ap_Enabled (ad_cfg ap) then (zero_decision, Some ap)
          else let d = DecideAdaptivePressure (ad_cfg ap) i in (d, Some (ap\<lparr> ad_decision := d \<rparr>)))"

definition Decision :: "AdaptivePressure option \<Rightarrow> AdaptivePressureDecision" where
  "Decision a = (case a of None \<Rightarrow> zero_decision | Some ap \<Rightarrow> ad_decision ap)"

definition FetchBatchOr :: "int \<Rightarrow> AdaptivePressure option \<Rightarrow> int" where
  "FetchBatchOr defaultBatch a =
     (case a of
        None \<Rightarrow> defaultBatch
      | Some ap \<Rightarrow>
          if \<not> ap_Enabled (ad_cfg ap) then defaultBatch
          else let d = Decision a in if d_FetchBatch d > 0 then d_FetchBatch d else defaultBatch)"

section \<open>The circuit breaker\<close>

record CircuitConfig =
  cc_PauseDuration :: duration
  cc_OpenOnLevel :: AdaptivePressureLevel
  cc_Enabled :: bool

definition CircuitConfig_withDefaults :: "CircuitConfig \<Rightarrow> CircuitConfig" where
  "CircuitConfig_withDefaults c =
     (let c1 = (if cc_PauseDuration c \<le> 0 then c\<lparr> cc_PauseDuration := Second \<rparr> else c) in
      if cc_OpenOnLevel c1 = 0 then c1\<lparr> cc_OpenOnLevel := PressureCritical \<rparr> else c1)"

record CircuitBreaker =
  cb_cfg :: CircuitConfig
  cb_open :: bool
  cb_opens :: nat

definition NewCircuitBreaker :: "CircuitConfig \<Rightarrow> CircuitBreaker option" where
  "NewCircuitBreaker cfg =
     (if \<not> cc_Enabled cfg then None
      else Some \<lparr> cb_cfg = CircuitConfig_withDefaults cfg, cb_open = False, cb_opens = 0 \<rparr>)"

definition ShouldPause :: "AdaptivePressureDecision \<Rightarrow> CircuitBreaker option \<Rightarrow> bool \<times> CircuitBreaker option" where
  "ShouldPause d b =
     (case b of
        None \<Rightarrow> (False, None)
      | Some cb \<Rightarrow>
          let now = d_Level d \<ge> cc_OpenOnLevel (cb_cfg cb);
              was = cb_open cb;
              cb1 = cb\<lparr> cb_open := now \<rparr> in
          (now, Some (if now \<and> \<not> was then cb1\<lparr> cb_opens := cb_opens cb1 + 1 \<rparr> else cb1)))"

definition PauseDuration :: "CircuitBreaker option \<Rightarrow> duration" where
  "PauseDuration b = (case b of None \<Rightarrow> 0 | Some cb \<Rightarrow> cc_PauseDuration (cb_cfg cb))"

definition Opens :: "CircuitBreaker option \<Rightarrow> nat" where
  "Opens b = (case b of None \<Rightarrow> 0 | Some cb \<Rightarrow> cb_opens cb)"

definition IsOpen :: "CircuitBreaker option \<Rightarrow> bool" where
  "IsOpen b = (case b of None \<Rightarrow> False | Some cb \<Rightarrow> cb_open cb)"

section \<open>Bounds of a decision\<close>

lemma withDefaults_pressure_fields:
  "ap_Enabled (AdaptivePressureConfig_withDefaults c) = ap_Enabled c"
  "ap_MinFetchBatch (AdaptivePressureConfig_withDefaults c)
    = (if ap_MinFetchBatch c \<le> 0 then 1 else ap_MinFetchBatch c)"
  "ap_MaxFetchBatch (AdaptivePressureConfig_withDefaults c)
    = max (ap_MinFetchBatch (AdaptivePressureConfig_withDefaults c))
        (if ap_MaxFetchBatch c \<le> 0 then 256 else ap_MaxFetchBatch c)"
  "ap_MinAckPending (AdaptivePressureConfig_withDefaults c)
    = (if ap_MinAckPending c \<le> 0 then 50 else ap_MinAckPending c)"
  "ap_NakDelayMin (AdaptivePressureConfig_withDefaults c)
    = (if ap_NakDelayMin c \<le> 0 then 100 * Millisecond else ap_NakDelayMin c)"
  "ap_NakDelayMax (AdaptivePressureConfig_withDefaults c)
    = (if ap_NakDelayMax c \<le> 0 then 5 * Second else ap_NakDelayMax c)"
  by (simp_all add: AdaptivePressureConfig_withDefaults_def Let_def)

lemma withDefaults_pressure:
  fixes c :: AdaptivePressureConfig
  defines "w \<equiv> AdaptivePressureConfig_withDefaults"
  shows "1 \<le> ap_MinFetchBatch (w c)" "ap_MinFetchBatch (w c) \<le> ap_MaxFetchBatch (w c)"
    "1 \<le> ap_MinAckPending (w c)" "1 \<le> ap_NakDelayMin (w c)" "1 \<le> ap_NakDelayMax (w c)"
  by (simp_all add: w_def withDefaults_pressure_fields duration_units)

lemma withDefaults_pressure_idem:
  "AdaptivePressureConfig_withDefaults (AdaptivePressureConfig_withDefaults c)
    = AdaptivePressureConfig_withDefaults c"
  by (rule AdaptivePressureConfig.equality)
    (simp_all add: withDefaults_pressure_fields duration_units)

lemma decide_fields:
  "d_Level (DecideAdaptivePressure cfg i) = pressure_level i"
  by (simp add: DecideAdaptivePressure_def Let_def split: prod.splits)

lemma decide_batch_bounds:
  "ap_MinFetchBatch (AdaptivePressureConfig_withDefaults cfg) \<le> d_FetchBatch (DecideAdaptivePressure cfg i)"
  "d_FetchBatch (DecideAdaptivePressure cfg i) \<le> ap_MaxFetchBatch (AdaptivePressureConfig_withDefaults cfg)"
  using withDefaults_pressure(2) [of cfg]
  by (auto simp: DecideAdaptivePressure_def Let_def split: prod.splits)


section \<open>More load, less intake\<close>

definition load_le :: "AdaptivePressureInput \<Rightarrow> AdaptivePressureInput \<Rightarrow> bool" where
  "load_le i j \<longleftrightarrow>
     in_PoolDepth i \<le> in_PoolDepth j \<and> in_PoolCapacity i = in_PoolCapacity j
     \<and> in_HandlerLatency i \<le> in_HandlerLatency j \<and> in_BaselineLatency i = in_BaselineLatency j
     \<and> in_Lag i \<le> in_Lag j \<and> in_Pending i \<le> in_Pending j
     \<and> in_CurrentBatch i = in_CurrentBatch j"

lemma pressure_fill_mono: "load_le i j \<Longrightarrow> pressure_fill i \<le> pressure_fill j"
  by (simp add: load_le_def pressure_fill_def fl_div_mono fl_of_int_mono fl_of_int_pos)

lemma pressure_latency_mono:
  assumes "load_le i j" "t \<le> pressure_latency i" "1 < t"
  shows "t \<le> pressure_latency j"
proof -
  have "0 < in_BaselineLatency i \<and> 0 < in_HandlerLatency i"
    using assms(2,3) by (auto simp: pressure_latency_def split: if_splits)
  then have "pressure_latency i \<le> pressure_latency j"
    using assms(1) by (simp add: load_le_def pressure_latency_def fl_div_mono fl_of_int_mono fl_of_int_pos)
  with assms(2) show ?thesis by simp
qed

lemma pressure_level_mono:
  assumes "load_le i j"
  shows "pressure_level i \<le> pressure_level j"
proof -
  have up: "pressure_fill i \<ge> f \<or> pressure_latency i \<ge> t \<or> in_Lag i > n \<Longrightarrow>
      pressure_fill j \<ge> f \<or> pressure_latency j \<ge> t \<or> in_Lag j > n" if "1 < t" for f t n
    using assms pressure_fill_mono [OF assms] pressure_latency_mono [OF assms, of t] that
    by (auto simp: load_le_def)
  have pend: "in_Pending i \<le> in_Pending j" "in_Lag i \<le> in_Lag j" "pressure_fill i \<le> pressure_fill j"
    using assms pressure_fill_mono [OF assms] by (simp_all add: load_le_def)
  show ?thesis
    using up [of 5 "fl64 (95 / 100)" 10000] up [of 3 "fl64 (7 / 10)" "in_Lag i"]
      up [of "3 / 2" "fl64 (4 / 10)" 500] pressure_latency_mono [OF assms, of 3] pend
    by (auto simp: pressure_level_def Let_def)
qed

lemma pressure_level_cases:
  obtains "pressure_level i = PressureIdle" | "pressure_level i = PressureWarm"
  | "pressure_level i = PressureElevated" | "pressure_level i = PressureHard"
  | "pressure_level i = PressureCritical"
proof -
  have "pressure_level i = PressureIdle \<or> pressure_level i = PressureWarm
      \<or> pressure_level i = PressureElevated \<or> pressure_level i = PressureHard
      \<or> pressure_level i = PressureCritical"
    by (simp add: pressure_level_def Let_def)
  then show thesis using that by blast
qed

definition start_batch :: "AdaptivePressureConfig \<Rightarrow> AdaptivePressureInput \<Rightarrow> int" where
  "start_batch cfg i = (if in_CurrentBatch i \<le> 0 then ap_MaxFetchBatch cfg else in_CurrentBatch i)"

lemma decide_closed:
  fixes c i
  defines "cfg \<equiv> AdaptivePressureConfig_withDefaults c" and "l \<equiv> pressure_level i"
  shows "d_NakDelay (DecideAdaptivePressure c i) =
     (if l \<le> PressureWarm then 0 else if l = PressureElevated then ap_NakDelayMin cfg
      else if l = PressureHard then min (ap_NakDelayMax cfg) (i64 (ap_NakDelayMin cfg * 2))
      else ap_NakDelayMax cfg)"
    and "d_FetchBatch (DecideAdaptivePressure c i) =
     max (ap_MinFetchBatch cfg) (min (ap_MaxFetchBatch cfg)
       (if l = PressureIdle \<and> in_PoolCapacity i > 0 then i64 (start_batch cfg i * 2)
        else if l \<le> PressureWarm then start_batch cfg i
        else if l = PressureElevated then go_div (start_batch cfg i) 2
        else ap_MinFetchBatch cfg))"
  using withDefaults_pressure(2) [of c]
  by (cases rule: pressure_level_cases [of i];
      simp add: DecideAdaptivePressure_def l_def cfg_def Let_def start_batch_def; fail)+


text \<open>
  C35. The pressure controller is monotone: an input with at least as much load (pool depth, handler
  latency, lag, pending) and the same capacity, baseline and current batch never gets a lower level,
  a larger fetch batch or a shorter redelivery delay, and the fetch batch always stays within the
  configured bounds. The ratios are rounded as \<open>float64\<close>; the hypotheses rule out the overflow of a
  doubled batch or delay and a minimal delay above the maximal one.
\<close>

theorem pressure_monotone:
  fixes c i j
  defines "cfg \<equiv> AdaptivePressureConfig_withDefaults c"
  assumes "load_le i j" "in_i64 (start_batch cfg i * 2)" "in_i64 (ap_NakDelayMin cfg * 2)"
    and "ap_NakDelayMin cfg \<le> ap_NakDelayMax cfg"
  shows "d_Level (DecideAdaptivePressure c i) \<le> d_Level (DecideAdaptivePressure c j)
    \<and> d_FetchBatch (DecideAdaptivePressure c j) \<le> d_FetchBatch (DecideAdaptivePressure c i)
    \<and> d_NakDelay (DecideAdaptivePressure c i) \<le> d_NakDelay (DecideAdaptivePressure c j)
    \<and> ap_MinFetchBatch cfg \<le> d_FetchBatch (DecideAdaptivePressure c j)
    \<and> d_FetchBatch (DecideAdaptivePressure c i) \<le> ap_MaxFetchBatch cfg"
proof -
  have same: "start_batch cfg j = start_batch cfg i" "in_PoolCapacity j = in_PoolCapacity i"
    using assms(2) by (simp_all add: load_le_def start_batch_def)
  have pos: "0 < start_batch cfg i"
    using withDefaults_pressure(1,2) [of c] by (auto simp: start_batch_def cfg_def)
  have half: "go_div (start_batch cfg i) 2 \<le> start_batch cfg i"
    using pos by (simp add: go_div_nonneg)
  have wrap: "i64 (start_batch cfg i * 2) = start_batch cfg i * 2"
    "i64 (ap_NakDelayMin cfg * 2) = ap_NakDelayMin cfg * 2"
    using assms(3,4) by (simp_all add: i64_id)
  note bounds = withDefaults_pressure [of c, folded cfg_def]
  note lm = pressure_level_mono [OF assms(2)]
  have lv: "d_Level (DecideAdaptivePressure c i) \<le> d_Level (DecideAdaptivePressure c j)"
    using lm by (simp add: decide_fields)
  have nak: "d_NakDelay (DecideAdaptivePressure c i) \<le> d_NakDelay (DecideAdaptivePressure c j)"
    using lm wrap(2) bounds(4,5) assms(5)
    unfolding decide_closed(1) cfg_def [symmetric]
    by (cases rule: pressure_level_cases [of i]; cases rule: pressure_level_cases [of j])
      simp_all
  have batch: "d_FetchBatch (DecideAdaptivePressure c j) \<le> d_FetchBatch (DecideAdaptivePressure c i)"
    using lm wrap(1) bounds(2) same pos half
    unfolding decide_closed(2) cfg_def [symmetric]
    by (cases rule: pressure_level_cases [of i]; cases rule: pressure_level_cases [of j])
      auto
  from lv nak batch decide_batch_bounds [of c] show ?thesis by (simp add: cfg_def)
qed


definition blank_config :: AdaptivePressureConfig where
  "blank_config = \<lparr> ap_Enabled = True, ap_MinFetchBatch = 0, ap_MaxFetchBatch = 0, ap_MinAckPending = 0,
     ap_NakDelayMin = 0, ap_NakDelayMax = 0 \<rparr>"

definition depth_input :: "int \<Rightarrow> AdaptivePressureInput" where
  "depth_input d = \<lparr> in_PoolDepth = d, in_PoolCapacity = 64, in_HandlerLatency = 0, in_BaselineLatency = 0,
     in_Lag = 0, in_Pending = 0, in_CurrentBatch = 10, in_CurrentAckPend = 0, in_MaxAckPending = 1000 \<rparr>"

theorem pressure_monotone_witness:
  "d_FetchBatch (DecideAdaptivePressure blank_config (depth_input 60))
     \<le> d_FetchBatch (DecideAdaptivePressure blank_config (depth_input 2))
   \<and> d_NakDelay (DecideAdaptivePressure blank_config (depth_input 2))
     \<le> d_NakDelay (DecideAdaptivePressure blank_config (depth_input 60))"
  using pressure_monotone [of "depth_input 2" "depth_input 60" blank_config]
  by (simp add: load_le_def depth_input_def start_batch_def in_i64_def withDefaults_pressure_fields
      blank_config_def duration_units)

text \<open>
  The defaults do not relate the two delays. With a minimal delay above the maximal one (a caller
  who sets only \<open>NakDelayMin\<close>, to more than 5 s), the delay at \<open>PressureElevated\<close> is longer than at
  \<open>PressureCritical\<close>.
\<close>

lemma nak_delay_inverted:
  assumes "ap_NakDelayMin c = 10 * Second" "ap_NakDelayMax c = 0"
    and "pressure_level i = PressureElevated" "pressure_level j = PressureCritical"
  shows "d_NakDelay (DecideAdaptivePressure c j) < d_NakDelay (DecideAdaptivePressure c i)"
  using assms by (simp add: decide_closed withDefaults_pressure_fields duration_units)

section \<open>The circuit breaker counts its openings\<close>

fun run_breaker :: "AdaptivePressureDecision list \<Rightarrow> CircuitBreaker option \<Rightarrow> CircuitBreaker option" where
  "run_breaker [] b = b"
| "run_breaker (d # ds) b = run_breaker ds (snd (ShouldPause d b))"

text \<open>Positions where the circuit is open and was not before.\<close>

fun rising_edges :: "bool \<Rightarrow> bool list \<Rightarrow> nat" where
  "rising_edges was [] = 0"
| "rising_edges was (b # bs) = (if b \<and> \<not> was then 1 else 0) + rising_edges b bs"

lemma run_breaker_Some:
  "run_breaker ds (Some cb) = Some cb' \<Longrightarrow>
    cb_opens cb' = cb_opens cb + rising_edges (cb_open cb)
      (map (\<lambda>d. cc_OpenOnLevel (cb_cfg cb) \<le> d_Level d) ds)
    \<and> cb_cfg cb' = cb_cfg cb
    \<and> cb_open cb' = (if ds = [] then cb_open cb else cc_OpenOnLevel (cb_cfg cb) \<le> d_Level (last ds))"
proof (induction ds arbitrary: cb)
  case (Cons d ds)
  define cb1 where "cb1 = the (snd (ShouldPause d (Some cb)))"
  have cb1: "snd (ShouldPause d (Some cb)) = Some cb1"
    "cb_cfg cb1 = cb_cfg cb" "cb_open cb1 = (cc_OpenOnLevel (cb_cfg cb) \<le> d_Level d)"
    "cb_opens cb1 = cb_opens cb + (if cb_open cb1 \<and> \<not> cb_open cb then 1 else 0)"
    by (simp_all add: cb1_def ShouldPause_def Let_def)
  with Cons.prems have "run_breaker ds (Some cb1) = Some cb'" by simp
  from Cons.IH [OF this] cb1 show ?case by auto
qed simp

lemma run_breaker_alive: "\<exists>cb'. run_breaker ds (Some cb) = Some cb'"
  by (induction ds arbitrary: cb) (simp_all add: ShouldPause_def Let_def)

text \<open>
  The circuit breaker follows the controller: after any sequence of decisions \<open>IsOpen\<close> is whether
  the last level reached the opening level, and \<open>Opens\<close> is the number of transitions from closed to
  open in the sequence.
\<close>

theorem circuit_counts_openings:
  assumes "cc_Enabled cfg"
  shows "(IsOpen (run_breaker ds (NewCircuitBreaker cfg))
      \<longleftrightarrow> ds \<noteq> [] \<and> cc_OpenOnLevel (CircuitConfig_withDefaults cfg) \<le> d_Level (last ds))
    \<and> Opens (run_breaker ds (NewCircuitBreaker cfg))
      = rising_edges False (map (\<lambda>d. cc_OpenOnLevel (CircuitConfig_withDefaults cfg) \<le> d_Level d) ds)"
proof -
  let ?cb = "\<lparr> cb_cfg = CircuitConfig_withDefaults cfg, cb_open = False, cb_opens = 0 \<rparr>"
  obtain cb' where "run_breaker ds (Some ?cb) = Some cb'" using run_breaker_alive by blast
  with run_breaker_Some [OF this] assms
  show ?thesis
    by (simp add: NewCircuitBreaker_def IsOpen_def Opens_def)
qed


theorem circuit_counts_openings_witness:
  "Opens (run_breaker (map (\<lambda>l. zero_decision\<lparr> d_Level := l \<rparr>) [4, 4, 1, 4])
     (NewCircuitBreaker \<lparr> cc_PauseDuration = 0, cc_OpenOnLevel = 0, cc_Enabled = True \<rparr>)) = 2"
  using circuit_counts_openings [of "\<lparr> cc_PauseDuration = 0, cc_OpenOnLevel = 0, cc_Enabled = True \<rparr>"
      "map (\<lambda>l. zero_decision\<lparr> d_Level := l \<rparr>) [4, 4, 1, 4]"]
  by (simp add: CircuitConfig_withDefaults_def)

end
