(* ===== verification/Consumer.thy ===== *)
theory Consumer
  imports Payload Validate Pressure WorkerPool_Stop
begin

text \<open>
  Delivery of a message to its handler and its settlement: the ack helpers (\<open>ack.go\<close>), the
  panic-safe call of a handler (\<open>handler_safe.go\<close>), backpressure (\<open>backpressure.go\<close>) and the push
  consumer (\<open>consumer_push.go\<close>). The acknowledgement calls of nats.go, the clock, the metric
  instruments and the registered listeners are the record \<open>con_env\<close>: operations on the state \<open>'w\<close>
  of the outside world. A metric whose instrument is nil is an operation that changes nothing.
  Spans and log output are left out.
\<close>

section \<open>The outside\<close>

datatype con_metric = HandlingTime int | TermTotal | MessagesErrors | NakTotal | AckTotal
  | RedeliveryTotal | MessageBytes nat | MessagesReceived | SlowConsumerEvents
  | FetchWaitTime | FetchBatchSize nat | IdleHeartbeatMisses | PullBatchProcessTime | PullBatchInflight

record 'w con_env =
  ce_Ack :: "msg \<Rightarrow> 'w \<Rightarrow> err option \<times> 'w"
  ce_Nak :: "msg \<Rightarrow> 'w \<Rightarrow> err option \<times> 'w"
  ce_NakWithDelay :: "duration \<Rightarrow> msg \<Rightarrow> 'w \<Rightarrow> err option \<times> 'w"
  ce_Term :: "msg \<Rightarrow> 'w \<Rightarrow> err option \<times> 'w"
  ce_InProgress :: "msg \<Rightarrow> 'w \<Rightarrow> err option \<times> 'w"
  ce_Respond :: "bytes \<Rightarrow> msg \<Rightarrow> 'w \<Rightarrow> err option \<times> 'w"
  ce_metric :: "con_metric \<Rightarrow> 'w \<Rightarrow> 'w"
  ce_now :: "'w \<Rightarrow> gotime \<times> 'w"
  ce_activityListeners :: "('w \<Rightarrow> 'w) list"
  ce_handledListeners :: "(duration \<Rightarrow> 'w \<Rightarrow> 'w) list"

text \<open>A handler returns, or panics with an error or with another value.\<close>

datatype handler_result = HReturn "err option" | HPanicError err | HPanicValue

type_synonym 'w MsgHandler = "msg \<Rightarrow> 'w \<Rightarrow> handler_result \<times> 'w"

section \<open>Ack helpers\<close>

definition InProgress :: "'w con_env \<Rightarrow> msg option \<Rightarrow> 'w \<Rightarrow> err option \<times> 'w" where
  "InProgress env msg w =
     (case msg of
        None \<Rightarrow> (Some (EMsg ''in progress: nil message''), w)
      | Some m \<Rightarrow> map_prod (map_option (wrap1 ''in progress subject=%q: %w'')) id (ce_InProgress env m w))"

definition NakWithDelay :: "'w con_env \<Rightarrow> msg option \<Rightarrow> duration \<Rightarrow> 'w \<Rightarrow> err option \<times> 'w" where
  "NakWithDelay env msg delay w =
     (case msg of
        None \<Rightarrow> (Some (EMsg ''nak with delay: nil message''), w)
      | Some m \<Rightarrow> map_prod (map_option (wrap1 ''nak with delay subject=%q: %w'')) id (ce_NakWithDelay env delay m w))"

definition TermWithReason :: "'w con_env \<Rightarrow> msg option \<Rightarrow> string \<Rightarrow> 'w \<Rightarrow> err option \<times> 'w" where
  "TermWithReason env msg reason w =
     (case msg of
        None \<Rightarrow> (Some (EMsg ''term with reason: nil message''), w)
      | Some m \<Rightarrow>
          if IsEmpty reason
          then map_prod (map_option (wrap1 ''term subject=%q: %w'')) id (ce_Term env m w)
          else map_prod (map_option (wrap1 ''term with reason subject=%q: %w'')) id
                 (ce_Respond env (''+TERM '' @ reason) m w))"

section \<open>Calling the handler\<close>

definition invokeMsgHandler :: "'w MsgHandler \<Rightarrow> msg \<Rightarrow> 'w \<Rightarrow> err option \<times> 'w" where
  "invokeMsgHandler handler msg w =
     (case handler msg w of
        (HReturn e, w') \<Rightarrow> (e, w')
      | (HPanicError e, w') \<Rightarrow> (Some (wrap1 ''handler panic: %w'' e), w')
      | (HPanicValue, w') \<Rightarrow> (Some (EMsg ''handler panic: %v''), w'))"

section \<open>The consumer\<close>

type_synonym BackpressureMode = nat

abbreviation BackpressureBlock :: BackpressureMode where "BackpressureBlock \<equiv> 1"
abbreviation BackpressureNak :: BackpressureMode where "BackpressureNak \<equiv> 2"
abbreviation BackpressureTerm :: BackpressureMode where "BackpressureTerm \<equiv> 3"
abbreviation BackpressureDrop :: BackpressureMode where "BackpressureDrop \<equiv> 4"

abbreviation defaultAckWait :: duration where "defaultAckWait \<equiv> 30 * Second"
abbreviation defaultWorkerPoolSize :: int where "defaultWorkerPoolSize \<equiv> 4"

record RuntimeConsumerConfig =
  rc_PendingMsgLimit :: int
  rc_PendingMsgBuffer :: int
  rc_WorkerPoolSize :: int
  rc_WorkerBufferSize :: int
  rc_AckWait :: duration
  rc_IdleHeartbeat :: duration
  rc_WorkerPoolEnabled :: bool
  rc_FlowControl :: bool
  rc_AllowTracing :: bool
  rc_PayloadDecompression :: bool

record BackpressureConfig =
  bp_Mode :: BackpressureMode
  bp_MaxAckPending :: int
  bp_PendingMsgLimit :: int
  bp_PendingMsgBuffer :: int

record consumer =
  c_cfg :: RuntimeConsumerConfig
  c_backpressure :: BackpressureConfig
  c_hasMetrics :: bool
  c_hasHandlingTime :: bool
  c_allowTracing :: bool
  c_adaptive :: "AdaptivePressure option"
  c_circuit :: "CircuitBreaker option"
  c_workerPool :: "msg pool option"

definition newConsumer ::
  "RuntimeConsumerConfig \<Rightarrow> BackpressureConfig \<Rightarrow> bool \<Rightarrow> bool \<Rightarrow> bool \<Rightarrow> AdaptivePressureConfig \<Rightarrow>
   CircuitConfig \<Rightarrow> consumer" where
  "newConsumer cfg bp hasMetrics hasHandlingTime allowTracing adaptive circuit =
     \<lparr> c_cfg = (if rc_AckWait cfg \<le> 0 then cfg\<lparr> rc_AckWait := defaultAckWait \<rparr> else cfg),
       c_backpressure = bp, c_hasMetrics = hasMetrics, c_hasHandlingTime = hasHandlingTime,
       c_allowTracing = (allowTracing \<and> rc_AllowTracing cfg),
       c_adaptive = (if ap_Enabled adaptive then Some (NewAdaptivePressure adaptive) else None),
       c_circuit = NewCircuitBreaker circuit, c_workerPool = None \<rparr>"

definition notifyProcessSuccess :: "'w con_env \<Rightarrow> 'w \<Rightarrow> 'w" where
  "notifyProcessSuccess env w = fold (\<lambda>fn. fn) (ce_activityListeners env) w"

definition notifyMessageHandled :: "'w con_env \<Rightarrow> duration \<Rightarrow> 'w \<Rightarrow> 'w" where
  "notifyMessageHandled env elapsed w = fold (\<lambda>fn. fn elapsed) (ce_handledListeners env) w"

definition OnProcessSuccess :: "('w \<Rightarrow> 'w) option \<Rightarrow> 'w con_env \<Rightarrow> 'w con_env" where
  "OnProcessSuccess fn env =
     (case fn of None \<Rightarrow> env | Some fn \<Rightarrow> env\<lparr> ce_activityListeners := ce_activityListeners env @ [fn] \<rparr>)"

definition OnMessageHandled :: "(duration \<Rightarrow> 'w \<Rightarrow> 'w) option \<Rightarrow> 'w con_env \<Rightarrow> 'w con_env" where
  "OnMessageHandled fn env =
     (case fn of None \<Rightarrow> env | Some fn \<Rightarrow> env\<lparr> ce_handledListeners := ce_handledListeners env @ [fn] \<rparr>)"

definition jetStreamMetadata :: "msg \<Rightarrow> msg_meta option" where
  "jetStreamMetadata m = (if IsEmpty (msg_Reply m) then None else msg_Metadata m)"

definition recordMessageMetrics ::
  "'w con_env \<Rightarrow> consumer \<Rightarrow> msg \<Rightarrow> msg_meta option \<Rightarrow> 'w \<Rightarrow> gotime \<times> 'w" where
  "recordMessageMetrics env c m meta w =
     (if \<not> c_hasMetrics c then (0, w)
      else
        let (start, w1) = (if c_hasHandlingTime c then ce_now env w else (0, w));
            w2 = (case meta of
                Some md \<Rightarrow> if md_NumDelivered md > 1 then ce_metric env RedeliveryTotal w1 else w1
              | None \<Rightarrow> w1);
            w3 = ce_metric env (MessageBytes (length (msg_Data m))) w2;
            w4 = ce_metric env MessagesReceived w3 in
        (start, w4))"

definition recordProcessError :: "'w con_env \<Rightarrow> consumer \<Rightarrow> msg \<Rightarrow> 'w \<Rightarrow> 'w" where
  "recordProcessError env c m w =
     (let w1 = (if c_hasMetrics c then ce_metric env NakTotal (ce_metric env MessagesErrors w) else w) in
      snd (ce_Nak env m w1))"

text \<open>The beginning of \<open>processMessage\<close>: metrics and the start time.\<close>

definition process_begin :: "'w con_env \<Rightarrow> consumer \<Rightarrow> msg \<Rightarrow> 'w \<Rightarrow> gotime \<times> 'w" where
  "process_begin env c m w =
     (let meta = (if c_allowTracing c \<or> c_hasMetrics c then jetStreamMetadata m else None);
          (start, w1) = recordMessageMetrics env c m meta w in
      if start = 0 then ce_now env w1 else (start, w1))"

text \<open>Its end: what happens with the handler's error.\<close>

definition process_end :: "'w con_env \<Rightarrow> consumer \<Rightarrow> msg \<Rightarrow> err option \<Rightarrow> 'w \<Rightarrow> err option \<times> 'w" where
  "process_end env c m e w =
     (case e of
        Some e \<Rightarrow>
          if errors_Is e ErrDLQRouted then
            (None, notifyProcessSuccess env (if c_hasMetrics c then ce_metric env TermTotal w else w))
          else (Some (wrap1 ''message processing failed subject=%q: %w'' e), recordProcessError env c m w)
      | None \<Rightarrow>
          (case ce_Ack env m w of
             (Some ackErr, w1) \<Rightarrow>
               if errors_Is ackErr NatsErrMsgAlreadyAckd then (None, notifyProcessSuccess env w1)
               else (Some (wrap1 ''ack message subject=%q: %w'' ackErr), w1)
           | (None, w1) \<Rightarrow>
               (None, notifyProcessSuccess env (if c_hasMetrics c then ce_metric env AckTotal w1 else w1))))"

definition processMessage ::
  "'w con_env \<Rightarrow> compressors \<Rightarrow> consumer \<Rightarrow> msg \<Rightarrow> 'w MsgHandler \<Rightarrow> 'w \<Rightarrow> err option \<times> 'w" where
  "processMessage env z c m handler w =
     (case process_begin env c m w of (start, w1) \<Rightarrow>
      case (if rc_PayloadDecompression (c_cfg c) then maybeDecompressMsg z m else Inr m) of
        Inl derr \<Rightarrow>
          (Some (wrap1 ''message decompression failed subject=%q: %w'' derr), recordProcessError env c m w1)
      | Inr m' \<Rightarrow>
          (case invokeMsgHandler handler m' w1 of (e, w2) \<Rightarrow>
           case ce_now env w2 of (stop, w3) \<Rightarrow>
             let elapsed = stop - start;
                 w4 = (if c_hasMetrics c \<and> c_hasHandlingTime c
                       then ce_metric env (HandlingTime elapsed) w3 else w3);
                 w5 = notifyMessageHandled env elapsed w4 in
             process_end env c m' e w5))"


section \<open>Settlement of a message\<close>

text \<open>
  What nats.go documents of acknowledgements. \<open>V w r\<close> is the verdict sent for the delivery with
  reply subject \<open>r\<close>, if any. A settling call on a delivery without verdict either sends its verdict
  or fails and leaves none; on a settled delivery it returns \<open>ErrMsgAlreadyAckd\<close>. Its errors are not
  the sentinel errors of this library. Metrics, the clock and the listeners do not settle.
\<close>

datatype verdict = Acked | Naked | Termed

type_synonym 'w verdicts = "'w \<Rightarrow> string \<Rightarrow> verdict option"

definition settles :: "'w verdicts \<Rightarrow> verdict \<Rightarrow> (msg \<Rightarrow> 'w \<Rightarrow> err option \<times> 'w) \<Rightarrow> bool" where
  "settles V v op \<longleftrightarrow> (\<forall>m w e w'. op m w = (e, w') \<longrightarrow>
     (\<forall>r. r \<noteq> msg_Reply m \<longrightarrow> V w' r = V w r)
     \<and> \<not> err_is e ErrBackpressureHandled \<and> \<not> err_is e ErrPoolFull
     \<and> (V w (msg_Reply m) \<noteq> None \<longrightarrow>
          V w' (msg_Reply m) = V w (msg_Reply m) \<and> err_is e NatsErrMsgAlreadyAckd)
     \<and> (V w (msg_Reply m) = None \<longrightarrow>
          e = None \<and> V w' (msg_Reply m) = Some v
          \<or> e \<noteq> None \<and> \<not> err_is e NatsErrMsgAlreadyAckd \<and> V w' (msg_Reply m) = None))"

definition ack_laws :: "'w con_env \<Rightarrow> 'w verdicts \<Rightarrow> bool" where
  "ack_laws env V \<longleftrightarrow>
     settles V Acked (ce_Ack env) \<and> settles V Naked (ce_Nak env) \<and> settles V Termed (ce_Term env)
     \<and> (\<forall>d. settles V Naked (ce_NakWithDelay env d))
     \<and> (\<forall>x w. V (ce_metric env x w) = V w) \<and> (\<forall>w. V (snd (ce_now env w)) = V w)
     \<and> (\<forall>f\<in>set (ce_activityListeners env). \<forall>w. V (f w) = V w)
     \<and> (\<forall>f\<in>set (ce_handledListeners env). \<forall>d w. V (f d w) = V w)"

lemma fold_quiet: "(\<And>f w. f \<in> set fs \<Longrightarrow> V (g f w) = V w) \<Longrightarrow> V (fold g fs w) = V w"
  by (induction fs arbitrary: w) auto

lemma quiet_ops:
  assumes "ack_laws env V"
  shows "V (ce_metric env x w) = V w" "ce_now env w = (t, w') \<Longrightarrow> V w' = V w"
    "V (notifyProcessSuccess env w) = V w" "V (notifyMessageHandled env d w) = V w"
proof -
  show "V (ce_metric env x w) = V w" using assms by (simp add: ack_laws_def)
  show "ce_now env w = (t, w') \<Longrightarrow> V w' = V w" using assms by (metis ack_laws_def snd_conv)
  show "V (notifyProcessSuccess env w) = V w" "V (notifyMessageHandled env d w) = V w"
    unfolding notifyProcessSuccess_def notifyMessageHandled_def
    using assms by (auto intro!: fold_quiet simp: ack_laws_def)
qed

lemma settlesD:
  assumes "settles V v op" "op m w = (e, w')"
  shows "r \<noteq> msg_Reply m \<Longrightarrow> V w' r = V w r"
    "V w (msg_Reply m) \<noteq> None \<Longrightarrow> V w' (msg_Reply m) = V w (msg_Reply m) \<and> err_is e NatsErrMsgAlreadyAckd"
    "V w (msg_Reply m) = None \<Longrightarrow> e = None \<and> V w' (msg_Reply m) = Some v
      \<or> e \<noteq> None \<and> \<not> err_is e NatsErrMsgAlreadyAckd \<and> V w' (msg_Reply m) = None"
    "\<not> err_is e ErrBackpressureHandled"
  using assms unfolding settles_def by blast+

lemma recordProcessError_verdict:
  assumes "ack_laws env V" "r = msg_Reply m"
  shows "V w r \<noteq> None \<Longrightarrow> V (recordProcessError env c m w) r = V w r"
    "V w r = None \<Longrightarrow> V (recordProcessError env c m w) r \<in> {None, Some Naked}"
    "r' \<noteq> r \<Longrightarrow> V (recordProcessError env c m w) r' = V w r'"
proof -
  have nak: "settles V Naked (ce_Nak env)" using assms(1) by (simp add: ack_laws_def)
  define w1 where "w1 = (if c_hasMetrics c then ce_metric env NakTotal (ce_metric env MessagesErrors w) else w)"
  have w1: "V w1 = V w" by (simp add: w1_def quiet_ops [OF assms(1)])
  obtain e w2 where n: "ce_Nak env m w1 = (e, w2)" by (cases "ce_Nak env m w1")
  then have eq: "recordProcessError env c m w = w2" by (simp add: recordProcessError_def w1_def)
  note d = settlesD [OF nak n]
  show "V w r \<noteq> None \<Longrightarrow> V (recordProcessError env c m w) r = V w r"
    "V w r = None \<Longrightarrow> V (recordProcessError env c m w) r \<in> {None, Some Naked}"
    "r' \<noteq> r \<Longrightarrow> V (recordProcessError env c m w) r' = V w r'"
    using d w1 eq assms(2) by auto
qed

text \<open>
  What may become of a delivery, from the handler's error \<open>herr\<close> and the verdict \<open>v\<close> the handler
  left behind, to the error \<open>e\<close> reported and the final verdict \<open>v'\<close>.
\<close>

definition outcome_ok :: "err option \<Rightarrow> verdict option \<Rightarrow> err option \<Rightarrow> verdict option \<Rightarrow> bool" where
  "outcome_ok herr v e v' \<longleftrightarrow>
     (case herr of
        None \<Rightarrow> (if v = None then e = None \<and> v' = Some Acked \<or> e \<noteq> None \<and> v' = None else e = None \<and> v' = v)
      | Some h \<Rightarrow>
          if errors_Is h ErrDLQRouted then e = None \<and> v' = v
          else e = Some (wrap1 ''message processing failed subject=%q: %w'' h)
               \<and> (if v = None then v' = None \<or> v' = Some Naked else v' = v))"

lemma process_end_outcome:
  assumes laws: "ack_laws env V" and run: "process_end env c m herr w = (e, w')"
  shows "outcome_ok herr (V w (msg_Reply m)) e (V w' (msg_Reply m))"
    "r \<noteq> msg_Reply m \<Longrightarrow> V w' r = V w r"
proof -
  note q = quiet_ops [OF laws]
  have ack: "settles V Acked (ce_Ack env)" using laws by (simp add: ack_laws_def)
  have "outcome_ok herr (V w (msg_Reply m)) e (V w' (msg_Reply m)) \<and> (\<forall>r. r \<noteq> msg_Reply m \<longrightarrow> V w' r = V w r)"
  proof (cases herr)
    case None
    obtain ae w1 where a: "ce_Ack env m w = (ae, w1)" by (cases "ce_Ack env m w")
    note d = settlesD [OF ack a]
    show ?thesis
      using run None a d q(1,3)
      by (cases ae; cases "V w (msg_Reply m)")
        (auto simp: process_end_def outcome_ok_def err_is_def split: if_splits)
  next
    case (Some h)
    then show ?thesis
      using run q(1,3) recordProcessError_verdict [OF laws refl, where w = w and m = m and c = c]
      by (cases "V w (msg_Reply m)")
        (auto simp: process_end_def outcome_ok_def split: if_splits)
  qed
  then show "outcome_ok herr (V w (msg_Reply m)) e (V w' (msg_Reply m))"
    "r \<noteq> msg_Reply m \<Longrightarrow> V w' r = V w r" by blast+
qed

lemma maybeDecompressMsg_Reply: "maybeDecompressMsg z m = Inr m' \<Longrightarrow> msg_Reply m' = msg_Reply m"
  by (auto simp: maybeDecompressMsg_def Let_def split: if_splits sum.splits)

text \<open>
  C2. A message is acknowledged only after its handler succeeded, and every outcome of the handler
  is settled as the library promises. When the handler returns nil, the message is acked (or the
  failed ack is reported, and it stays unsettled for redelivery). When it returns an error or
  panics, the error is reported, wrapped, and the message is nak'd, or left unsettled if the nak
  fails; a verdict the handler gave itself stays. When it reports that the message was routed to the
  dead-letter queue, the consumer adds no verdict. No other delivery is touched.
\<close>

theorem processMessage_settles:
  assumes laws: "ack_laws env V"
    and start: "process_begin env c m w = (start, w1)"
    and plain: "(if rc_PayloadDecompression (c_cfg c) then maybeDecompressMsg z m else Inr m) = Inr m'"
    and call: "invokeMsgHandler handler m' w1 = (herr, w2)"
    and run: "processMessage env z c m handler w = (e, w')"
  shows "outcome_ok herr (V w2 (msg_Reply m)) e (V w' (msg_Reply m))
    \<and> (\<forall>r. r \<noteq> msg_Reply m \<longrightarrow> V w' r = V w2 r)"
proof -
  have reply: "msg_Reply m' = msg_Reply m"
    using plain maybeDecompressMsg_Reply by (auto split: if_splits)
  obtain stop w3 where now: "ce_now env w2 = (stop, w3)" by (cases "ce_now env w2")
  define w5 where "w5 = notifyMessageHandled env (stop - start)
    (if c_hasMetrics c \<and> c_hasHandlingTime c then ce_metric env (HandlingTime (stop - start)) w3 else w3)"
  have "V w5 = V w2"
    using quiet_ops [OF laws] quiet_ops(2) [OF laws now] by (simp add: w5_def)
  moreover have "process_end env c m' herr w5 = (e, w')"
    using run start plain call now by (simp add: processMessage_def w5_def Let_def)
  ultimately show ?thesis using process_end_outcome [OF laws, of c m' herr w5 e w'] reply by simp
qed


text \<open>A world that records verdicts, on which every call succeeds.\<close>

definition ledger_op :: "verdict \<Rightarrow> msg \<Rightarrow> (string \<times> verdict) list \<Rightarrow> err option \<times> (string \<times> verdict) list" where
  "ledger_op v m w = (if map_of w (msg_Reply m) \<noteq> None then (Some (ESent NatsErrMsgAlreadyAckd), w)
     else (None, (msg_Reply m, v) # w))"

definition ledger_env :: "(string \<times> verdict) list con_env" where
  "ledger_env = \<lparr> ce_Ack = ledger_op Acked, ce_Nak = ledger_op Naked, ce_NakWithDelay = (\<lambda>_. ledger_op Naked),
     ce_Term = ledger_op Termed, ce_InProgress = (\<lambda>_ w. (None, w)), ce_Respond = (\<lambda>_ _ w. (None, w)),
     ce_metric = (\<lambda>_ w. w), ce_now = (\<lambda>w. (1, w)), ce_activityListeners = [], ce_handledListeners = [] \<rparr>"

lemma ledger_settles: "settles map_of v (ledger_op v)"
  by (auto simp: settles_def ledger_op_def go_err split: if_splits)

lemma ledger_laws: "ack_laws ledger_env map_of"
  by (simp add: ack_laws_def ledger_env_def ledger_settles)

definition demo_msg :: msg where
  "demo_msg = \<lparr> msg_Subject = ''orders'', msg_Reply = ''$JS.ACK.1'', msg_Data = ''x'', msg_Header = None,
     msg_Metadata = None \<rparr>"

definition demo_cfg :: RuntimeConsumerConfig where
  "demo_cfg = \<lparr> rc_PendingMsgLimit = 0, rc_PendingMsgBuffer = 0, rc_WorkerPoolSize = 1,
     rc_WorkerBufferSize = 0, rc_AckWait = 0, rc_IdleHeartbeat = 0, rc_WorkerPoolEnabled = True,
     rc_FlowControl = False, rc_AllowTracing = False, rc_PayloadDecompression = True \<rparr>"

definition demo_consumer :: "BackpressureMode \<Rightarrow> consumer" where
  "demo_consumer mode = newConsumer demo_cfg \<lparr> bp_Mode = mode, bp_MaxAckPending = 0,
     bp_PendingMsgLimit = 0, bp_PendingMsgBuffer = 0 \<rparr> False False False (blank_config\<lparr> ap_Enabled := False \<rparr>)
     \<lparr> cc_PauseDuration = 0, cc_OpenOnLevel = 0, cc_Enabled = False \<rparr>"

lemmas demo_consumer_defs = demo_consumer_def demo_cfg_def newConsumer_def NewCircuitBreaker_def
  blank_config_def

theorem processMessage_settles_witness:
  "map_of (snd (processMessage ledger_env one_compressor (demo_consumer 1) demo_msg
      (\<lambda>_ w. (HPanicValue, w)) [])) ''$JS.ACK.1'' \<noteq> Some Acked
   \<and> fst (processMessage ledger_env one_compressor (demo_consumer 1) demo_msg
      (\<lambda>_ w. (HPanicValue, w)) []) \<noteq> None"
proof -
  let ?run = "processMessage ledger_env one_compressor (demo_consumer 1) demo_msg (\<lambda>_ w. (HPanicValue, w)) []"
  have "outcome_ok (Some (EMsg ''handler panic: %v'')) (map_of [] (msg_Reply demo_msg)) (fst ?run)
      (map_of (snd ?run) (msg_Reply demo_msg))"
    using processMessage_settles [OF ledger_laws, of "demo_consumer 1" demo_msg "[]" 1 "[]"
        one_compressor demo_msg "\<lambda>_ w. (HPanicValue, w)" "Some (EMsg ''handler panic: %v'')" "[]"
        "fst ?run" "snd ?run"]
    by (simp add: process_begin_def recordMessageMetrics_def ledger_env_def demo_consumer_defs
        maybeDecompressMsg_def demo_msg_def invokeMsgHandler_def)
  then show ?thesis by (auto simp: outcome_ok_def demo_msg_def go_err)
qed

section \<open>Handing messages to the worker pool\<close>

text \<open>
  A call of \<open>tryPublish\<close> of the pool that runs without being interleaved with other goroutines: its
  steps in the pool's step functions until it returns. On an unbuffered channel the send meets a
  worker that waits in its \<open>select\<close>. \<^const>\<open>None\<close>: the call blocks.
\<close>

fun idle_worker :: "nat \<Rightarrow> 'm wpc list \<Rightarrow> nat option" where
  "idle_worker j [] = None"
| "idle_worker j (RunnerSelect # ws) = Some j"
| "idle_worker j (_ # ws) = idle_worker (Suc j) ws"

definition publish_advance :: "nat \<Rightarrow> 'm pool \<Rightarrow> 'm pool option" where
  "publish_advance i w =
     (case (w_pubs w ! i, idle_worker 0 (w_workers w)) of
        (PubSelect c, Some j) \<Rightarrow> if w_cap w = 0 then rendezvous i j w else publish_step TrySend i w
      | _ \<Rightarrow> publish_step TrySend i w)"

fun publish_run :: "nat \<Rightarrow> nat \<Rightarrow> 'm pool \<Rightarrow> ((bool \<times> err option) \<times> 'm pool) option" where
  "publish_run fuel i w =
     (case w_pubs w ! i of
        PubReturned c ok e \<Rightarrow> Some ((ok, e), w)
      | _ \<Rightarrow>
          (case fuel of 0 \<Rightarrow> None
           | Suc n \<Rightarrow> (case publish_advance i w of None \<Rightarrow> None | Some w' \<Rightarrow> publish_run n i w')))"

definition tryPublish :: "'m pub_call \<Rightarrow> 'm pool \<Rightarrow> ((bool \<times> err option) \<times> 'm pool) option" where
  "tryPublish c w = publish_run 9 (length (w_pubs w)) (w\<lparr> w_pubs := w_pubs w @ [PubEnter c] \<rparr>)"

definition initWorkerPool :: "consumer \<Rightarrow> consumer" where
  "initWorkerPool c =
     (case c_workerPool c of
        Some _ \<Rightarrow> c
      | None \<Rightarrow>
          let size = (if rc_WorkerPoolSize (c_cfg c) \<le> 0 then defaultWorkerPoolSize
                      else rc_WorkerPoolSize (c_cfg c)) in
          c\<lparr> c_workerPool := Some (WorkerPool.Consume (New size (rc_WorkerBufferSize (c_cfg c)) None)) \<rparr>)"

text \<open>The observation handed to the controller when a full pool naks.\<close>

definition backpressure_input :: "consumer \<Rightarrow> int \<Rightarrow> AdaptivePressureInput" where
  "backpressure_input c depth =
     \<lparr> in_PoolDepth = depth, in_PoolCapacity = rc_WorkerBufferSize (c_cfg c), in_HandlerLatency = 0,
       in_BaselineLatency = 0, in_Lag = 0, in_Pending = 0, in_CurrentBatch = 0, in_CurrentAckPend = 0,
       in_MaxAckPending = bp_MaxAckPending (c_backpressure c) \<rparr>"

definition nak_delay :: "consumer \<Rightarrow> int \<Rightarrow> duration \<times> AdaptivePressure option" where
  "nak_delay c depth =
     (case c_adaptive c of
        None \<Rightarrow> (0, None)
      | Some a \<Rightarrow> (case Observe (backpressure_input c depth) (Some a) of (d, ad) \<Rightarrow> (d_NakDelay d, ad)))"

definition handlePoolBackpressure ::
  "'w con_env \<Rightarrow> consumer \<Rightarrow> msg \<Rightarrow> 'w \<Rightarrow> err option \<times> consumer \<times> 'w" where
  "handlePoolBackpressure env c m w =
     (case c_workerPool c of
        None \<Rightarrow> (None, c, w)
      | Some pool \<Rightarrow>
          let depth = QueueDepth pool; capacity = rc_WorkerBufferSize (c_cfg c) in
          if capacity \<le> 0 \<or> depth < capacity then (None, c, w)
          else
            let mode = (if bp_Mode (c_backpressure c) = 0 then BackpressureBlock
                        else bp_Mode (c_backpressure c)) in
            if mode = BackpressureBlock then (Some (ESent ErrPoolFull), c, w)
            else if mode = BackpressureNak then
              (let w1 = (if c_hasMetrics c then ce_metric env SlowConsumerEvents w else w);
                   d = fst (nak_delay c depth);
                   c' = c\<lparr> c_adaptive := snd (nak_delay c depth) \<rparr> in
               case (if d > 0 then ce_NakWithDelay env d m w1 else ce_Nak env m w1) of
                 (Some e, w2) \<Rightarrow> (Some (wrap1 ''backpressure nak subject=%q: %w'' e), c', w2)
               | (None, w2) \<Rightarrow> (Some (ESent ErrBackpressureHandled), c', w2))
            else if mode = BackpressureTerm \<or> mode = BackpressureDrop then
              (let w1 = (if c_hasMetrics c
                         then ce_metric env TermTotal (ce_metric env SlowConsumerEvents w) else w) in
               case ce_Term env m w1 of
                 (Some e, w2) \<Rightarrow>
                   (Some (wrap1 (if mode = BackpressureTerm then ''backpressure term subject=%q: %w''
                                 else ''backpressure drop term subject=%q: %w'') e), c, w2)
               | (None, w2) \<Rightarrow> (Some (ESent ErrBackpressureHandled), c, w2))
            else (Some (ESent ErrPoolFull), c, w))"

text \<open>The call of the pool with the message and the function that processes it.\<close>

definition pool_publish ::
  "bool \<Rightarrow> msg msgFn \<Rightarrow> msg \<Rightarrow> consumer \<Rightarrow> ((bool \<times> err option) \<times> consumer) option" where
  "pool_publish nonBlocking processFn m c =
     (case c_workerPool c of
        None \<Rightarrow> None
      | Some pool \<Rightarrow>
          map_option (\<lambda>(r, pool'). (r, c\<lparr> c_workerPool := Some pool' \<rparr>))
            (tryPublish \<lparr> pc_task = \<lparr> t_ctx = 0, t_msg = m, t_applyFn = True, t_processFn = Some processFn \<rparr>,
                          pc_nonBlocking = nonBlocking \<rparr> pool))"

text \<open>
  \<open>wrapHandler\<close> with the worker pool enabled: \<^const>\<open>None\<close> when the blocking publish blocks.
  Without the pool it is \<^const>\<open>processMessage\<close>.
\<close>

definition wrapHandler_pool ::
  "'w con_env \<Rightarrow> msg msgFn \<Rightarrow> consumer \<Rightarrow> msg \<Rightarrow> 'w \<Rightarrow> (err option \<times> consumer \<times> 'w) option" where
  "wrapHandler_pool env processFn c0 m w =
     (let c = initWorkerPool c0;
          mode = (if bp_Mode (c_backpressure c) = 0 then BackpressureBlock
                  else bp_Mode (c_backpressure c)) in
      if mode = BackpressureNak then
        (case pool_publish True processFn m c of
           None \<Rightarrow> None
         | Some ((ok, e), c1) \<Rightarrow>
             (case e of
                Some e \<Rightarrow> Some (Some e, c1, w)
              | None \<Rightarrow> if \<not> ok then Some (handlePoolBackpressure env c1 m w) else Some (None, c1, w)))
      else
        (case handlePoolBackpressure env c m w of (bpErr, c1, w1) \<Rightarrow>
           if bpErr = None \<or> err_is bpErr ErrPoolFull then
             (case pool_publish False processFn m c1 of
                None \<Rightarrow> None
              | Some ((ok, e), c2) \<Rightarrow> Some (e, c2, w1))
           else if err_is bpErr ErrBackpressureHandled then Some (None, c1, w1)
           else Some (bpErr, c1, w1)))"


declare publish_run.simps [simp del]

lemma idle_worker_bound: "idle_worker j ws = Some k \<Longrightarrow> j \<le> k \<and> k < j + length ws"
  by (induction j ws rule: idle_worker.induct) auto

fun call_of :: "'m ppc \<Rightarrow> 'm pub_call" where
  "call_of (PubEnter c) = c"
| "call_of (PubState c) = c"
| "call_of (PubDepth c) = c"
| "call_of (PubSelect c) = c"
| "call_of (PubSent c) = c"
| "call_of (PubRollback c r) = c"
| "call_of (PubRecheck c) = c"
| "call_of (PubLeave c ok e) = c"
| "call_of (PubSignal c ok e) = c"
| "call_of (PubReturned c ok e) = c"

text \<open>A call that goes away empty-handed without an error has found the buffer full.\<close>

fun refused_full :: "'m pool \<Rightarrow> 'm ppc \<Rightarrow> bool" where
  "refused_full w (PubRecheck c) = False"
| "refused_full w (PubRollback c r) = (r = BufferFull \<and> pc_nonBlocking c \<and> w_cap w \<le> length (w_input w))"
| "refused_full w (PubLeave c ok e) =
     (ok \<or> e \<noteq> None \<or> pc_nonBlocking c \<and> w_cap w \<le> length (w_input w))"
| "refused_full w (PubSignal c ok e) =
     (ok \<or> e \<noteq> None \<or> pc_nonBlocking c \<and> w_cap w \<le> length (w_input w))"
| "refused_full w (PubReturned c ok e) =
     (ok \<or> e \<noteq> None \<or> pc_nonBlocking c \<and> w_cap w \<le> length (w_input w))"
| "refused_full w pc = True"

lemma publish_step_frame:
  assumes "publish_step TrySend i w = Some w'" "i < length (w_pubs w)" "refused_full w (w_pubs w ! i)"
  shows "\<exists>pc'. w_pubs w' = (w_pubs w)[i := pc'] \<and> call_of pc' = call_of (w_pubs w ! i) \<and> refused_full w' pc'
    \<and> w_cap w' = w_cap w"
  using assms
  by (cases "w_pubs w ! i") (auto simp: publish_step_def pool_ops split: if_splits)

lemma publish_advance_frame:
  assumes "publish_advance i w = Some w'" "i < length (w_pubs w)" "refused_full w (w_pubs w ! i)" "accounted w"
  shows "\<exists>pc'. w_pubs w' = (w_pubs w)[i := pc'] \<and> call_of pc' = call_of (w_pubs w ! i) \<and> refused_full w' pc'
    \<and> w_cap w' = w_cap w"
    "accounted w'"
proof -
  have "(\<exists>pc'. w_pubs w' = (w_pubs w)[i := pc'] \<and> call_of pc' = call_of (w_pubs w ! i) \<and> refused_full w' pc'
      \<and> w_cap w' = w_cap w) \<and> accounted w'"
  proof (cases "publish_step TrySend i w = Some w'")
    case True
    with publish_step_frame [OF True assms(2,3)] accounted_publisher [OF assms(4,2), of TrySend]
    show ?thesis by simp
  next
    case False
    with assms(1) obtain c j where j: "w_pubs w ! i = PubSelect c" "idle_worker 0 (w_workers w) = Some j"
        "rendezvous i j w = Some w'"
      by (auto simp: publish_advance_def split: ppc.splits option.splits if_splits)
    then have jl: "j < length (w_workers w)" using idle_worker_bound [of 0 "w_workers w" j] by simp
    obtain c' l r l' pc r' pc' where "w_pubs w = l @ PubSelect c' # r" "i = length l"
      "w' = w\<lparr> w_pubs := l @ PubSent c' # r, w_workers := l' @ pc' # r' \<rparr>"
      using rendezvous_cases [OF j(3) assms(2) jl] by metis
    then have "w_pubs w' = (w_pubs w)[i := PubSent c'] \<and> call_of (PubSent c') = call_of (w_pubs w ! i)
        \<and> refused_full w' (PubSent c') \<and> w_cap w' = w_cap w"
      by simp
    with accounted_rendezvous [OF assms(4,2) jl] j(3) show ?thesis by auto
  qed
  then show "\<exists>pc'. w_pubs w' = (w_pubs w)[i := pc'] \<and> call_of pc' = call_of (w_pubs w ! i)
      \<and> refused_full w' pc' \<and> w_cap w' = w_cap w" "accounted w'" by blast+
qed

lemma publish_run_result:
  assumes "publish_run fuel i w = Some ((ok, e), w')" "i < length (w_pubs w)" "accounted w"
    "refused_full w (w_pubs w ! i)"
  shows "w_pubs w' = (w_pubs w)[i := PubReturned (call_of (w_pubs w ! i)) ok e] \<and> accounted w'
    \<and> (ok \<or> e \<noteq> None \<or> pc_nonBlocking (call_of (w_pubs w ! i)) \<and> w_cap w \<le> length (w_input w'))
    \<and> w_cap w' = w_cap w"
  using assms
proof (induction fuel arbitrary: w)
  case 0
  then obtain c where "w_pubs w ! i = PubReturned c ok e" "w' = w"
    by (subst (asm) publish_run.simps) (auto split: ppc.splits)
  with "0.prems" show ?case by (metis call_of.simps(10) list_update_id refused_full.simps(5))
next
  case (Suc n)
  show ?case
  proof (cases "\<exists>c ok' e'. w_pubs w ! i = PubReturned c ok' e'")
    case True
    with Suc.prems(1) obtain c where "w_pubs w ! i = PubReturned c ok e" "w' = w"
      by (subst (asm) publish_run.simps) auto
    with Suc.prems show ?thesis by (metis call_of.simps(10) list_update_id refused_full.simps(5))
  next
    case False
    with Suc.prems(1) obtain w1 where n: "publish_advance i w = Some w1"
        "publish_run n i w1 = Some ((ok, e), w')"
      by (subst (asm) publish_run.simps) (auto split: ppc.splits option.splits)
    obtain pc' where pc': "w_pubs w1 = (w_pubs w)[i := pc']" "call_of pc' = call_of (w_pubs w ! i)"
        "refused_full w1 pc'" "w_cap w1 = w_cap w" and acc: "accounted w1"
      using publish_advance_frame [OF n(1) Suc.prems(2,4,3)] by blast
    with Suc.IH [OF n(2) _ acc] Suc.prems(2) show ?thesis by simp
  qed
qed

lemma tryPublish_cap:
  assumes "tryPublish c w = Some ((ok, e), w')" "accounted w"
  shows "w_cap w' = w_cap w"
proof -
  have "accounted (w\<lparr> w_pubs := w_pubs w @ [PubEnter c] \<rparr>)" using assms(2) by (simp add: account_defs)
  then show ?thesis
    using publish_run_result [OF assms(1) [unfolded tryPublish_def]] by simp
qed

lemma tryPublish_result:
  assumes "tryPublish c w = Some ((ok, e), w')" "accounted w"
  shows "accounted w'" "accepted w' = accepted w + (if ok then {# pc_task c #} else {#})"
    "\<not> ok \<Longrightarrow> e = None \<Longrightarrow> pc_nonBlocking c \<and> int (w_cap w) \<le> QueueDepth w'"
proof -
  define w0 where "w0 = w\<lparr> w_pubs := w_pubs w @ [PubEnter c] \<rparr>"
  have acc: "accounted w0" using assms(2) by (simp add: w0_def account_defs)
  have r: "w_pubs w' = (w_pubs w0)[length (w_pubs w) := PubReturned c ok e]" "accounted w'"
    "ok \<or> e \<noteq> None \<or> pc_nonBlocking c \<and> w_cap w \<le> length (w_input w')"
    using publish_run_result [OF assms(1) [unfolded tryPublish_def], folded w0_def] acc
    by (simp_all add: w0_def nth_append)
  then show "accounted w'" "accepted w' = accepted w + (if ok then {# pc_task c #} else {#})"
    by (simp_all add: w0_def accepted_def)
  have "int (length (w_input w')) \<le> w_depth w'"
    using r(2) cnt_nonneg [of holds_queued "w_workers w'"] cnt_nonneg [of pub_queued "w_pubs w'"]
    by (simp add: accounted_def)
  then show "\<not> ok \<Longrightarrow> e = None \<Longrightarrow> pc_nonBlocking c \<and> int (w_cap w) \<le> QueueDepth w'"
    using r(3) by (simp add: QueueDepth_def)
qed


text \<open>A consumer whose pool is consistent and was made by \<open>initWorkerPool\<close>.\<close>

definition consumer_ok :: "consumer \<Rightarrow> bool" where
  "consumer_ok c \<longleftrightarrow> (case c_workerPool c of None \<Rightarrow> True | Some pool \<Rightarrow>
     accounted pool \<and> int (w_cap pool) = max 0 (rc_WorkerBufferSize (c_cfg c)))"

definition pool_accepted :: "consumer \<Rightarrow> msg task multiset" where
  "pool_accepted c = (case c_workerPool c of None \<Rightarrow> {#} | Some pool \<Rightarrow> accepted pool)"

definition msg_task :: "msg msgFn \<Rightarrow> msg \<Rightarrow> msg task" where
  "msg_task processFn m = \<lparr> t_ctx = 0, t_msg = m, t_applyFn = True, t_processFn = Some processFn \<rparr>"

lemma fresh_pool [simp]:
  "int (w_cap (WorkerPool.Consume (New n m reg))) = max 0 m" "accepted (WorkerPool.Consume (New n m reg)) = {#}"
  by (simp_all add: WorkerPool.Consume_def New_def accepted_def)

lemma initWorkerPool_ok:
  assumes "consumer_ok c"
  shows "consumer_ok (initWorkerPool c)" "c_workerPool (initWorkerPool c) \<noteq> None"
    "pool_accepted (initWorkerPool c) = pool_accepted c" "c_cfg (initWorkerPool c) = c_cfg c"
    "c_backpressure (initWorkerPool c) = c_backpressure c" "c_adaptive (initWorkerPool c) = c_adaptive c"
  using assms accounted_start
  by (auto simp: initWorkerPool_def consumer_ok_def pool_accepted_def Let_def split: option.splits)

lemma pool_publish_result:
  assumes "pool_publish nb processFn m c = Some ((ok, e), c')" "consumer_ok c"
  shows "consumer_ok c'" "pool_accepted c' = pool_accepted c + (if ok then {# msg_task processFn m #} else {#})"
    "c_cfg c' = c_cfg c" "c_backpressure c' = c_backpressure c"
    "\<not> ok \<Longrightarrow> e = None \<Longrightarrow> nb
      \<and> (\<exists>pool. c_workerPool c' = Some pool \<and> rc_WorkerBufferSize (c_cfg c) \<le> QueueDepth pool)"
proof -
  define call where "call = \<lparr> pc_task = msg_task processFn m, pc_nonBlocking = nb \<rparr>"
  obtain pool pool' where p: "c_workerPool c = Some pool" "tryPublish call pool = Some ((ok, e), pool')"
      "c' = c\<lparr> c_workerPool := Some pool' \<rparr>"
    using assms(1) by (auto simp: pool_publish_def call_def msg_task_def split: option.splits)
  have acc: "accounted pool" "int (w_cap pool) = max 0 (rc_WorkerBufferSize (c_cfg c))"
    using assms(2) p(1) by (simp_all add: consumer_ok_def)
  note r = tryPublish_result [OF p(2) acc(1)]
  have "w_cap pool' = w_cap pool" by (rule tryPublish_cap [OF p(2) acc(1)])
  with r p acc show "consumer_ok c'"
    "pool_accepted c' = pool_accepted c + (if ok then {# msg_task processFn m #} else {#})"
    "c_cfg c' = c_cfg c" "c_backpressure c' = c_backpressure c"
    "\<not> ok \<Longrightarrow> e = None \<Longrightarrow> nb
      \<and> (\<exists>pool. c_workerPool c' = Some pool \<and> rc_WorkerBufferSize (c_cfg c) \<le> QueueDepth pool)"
    by (auto simp: consumer_ok_def pool_accepted_def call_def)
qed

lemma handlePoolBackpressure_settle:
  assumes laws: "ack_laws env V" and run: "handlePoolBackpressure env c m w = (e, c', w')"
    and v: "V w (msg_Reply m) = None"
  shows "c_workerPool c' = c_workerPool c \<and> c_cfg c' = c_cfg c \<and> c_backpressure c' = c_backpressure c"
    "err_is e ErrBackpressureHandled \<Longrightarrow> V w' (msg_Reply m) \<noteq> None"
    "e = None \<Longrightarrow> \<forall>pool. c_workerPool c = Some pool \<longrightarrow>
       rc_WorkerBufferSize (c_cfg c) \<le> 0 \<or> QueueDepth pool < rc_WorkerBufferSize (c_cfg c)"
proof -
  note q = quiet_ops(1) [OF laws]
  have ops: "settles V Naked (ce_Nak env)" "settles V Naked (ce_NakWithDelay env d)"
    "settles V Termed (ce_Term env)" for d
    using laws by (simp_all add: ack_laws_def)
  have nak: "V w2 (msg_Reply m) \<noteq> None \<and> ne = None \<or> ne \<noteq> None \<and> \<not> err_is ne ErrBackpressureHandled"
    if "(if d > 0 then ce_NakWithDelay env d m w1 else ce_Nak env m w1) = (ne, w2)" "V w1 = V w" for d w1 w2 ne
    using that v settlesD(3,4) [OF ops(1), of m w1 ne w2] settlesD(3,4) [OF ops(2), of d m w1 ne w2]
    by (cases "d > 0") auto
  have trm: "V w2 (msg_Reply m) \<noteq> None \<and> ne = None \<or> ne \<noteq> None \<and> \<not> err_is ne ErrBackpressureHandled"
    if "ce_Term env m w1 = (ne, w2)" "V w1 = V w" for w1 w2 ne
    using that v settlesD(3,4) [OF ops(3), of m w1 ne w2] by auto
  show "c_workerPool c' = c_workerPool c \<and> c_cfg c' = c_cfg c \<and> c_backpressure c' = c_backpressure c"
    "e = None \<Longrightarrow> \<forall>pool. c_workerPool c = Some pool \<longrightarrow>
       rc_WorkerBufferSize (c_cfg c) \<le> 0 \<or> QueueDepth pool < rc_WorkerBufferSize (c_cfg c)"
    using run by (auto simp: handlePoolBackpressure_def Let_def split: option.splits if_splits prod.splits)
  assume h: "err_is e ErrBackpressureHandled"
  have "c_workerPool c \<noteq> None"
  proof
    assume "c_workerPool c = None"
    then have "handlePoolBackpressure env c m w = (None, c, w)" by (simp add: handlePoolBackpressure_def)
    with run h show False by simp
  qed
  then obtain pool where pool0: "c_workerPool c = Some pool" by blast
  have "\<not> (rc_WorkerBufferSize (c_cfg c) \<le> 0 \<or> QueueDepth pool < rc_WorkerBufferSize (c_cfg c))"
  proof
    assume "rc_WorkerBufferSize (c_cfg c) \<le> 0 \<or> QueueDepth pool < rc_WorkerBufferSize (c_cfg c)"
    then have "handlePoolBackpressure env c m w = (None, c, w)"
      by (simp add: handlePoolBackpressure_def pool0)
    with run h show False by simp
  qed
  note pool = pool0 this
  define mode where "mode = (if bp_Mode (c_backpressure c) = 0 then BackpressureBlock else bp_Mode (c_backpressure c))"
  have "mode = BackpressureNak \<or> mode = BackpressureTerm \<or> mode = BackpressureDrop"
  proof (rule ccontr)
    assume "\<not> ?thesis"
    then have "handlePoolBackpressure env c m w = (Some (ESent ErrPoolFull), c, w)"
      using pool by (simp add: handlePoolBackpressure_def Let_def mode_def [symmetric])
    with run h show False by (auto simp: go_err)
  qed
  then consider "mode = BackpressureNak" | "mode = BackpressureTerm \<or> mode = BackpressureDrop" by blast
  then show "V w' (msg_Reply m) \<noteq> None"
  proof cases
    case 1
    define w1 where "w1 = (if c_hasMetrics c then ce_metric env SlowConsumerEvents w else w)"
    define d where "d = fst (nak_delay c (QueueDepth pool))"
    obtain ne w2 where n: "(if d > 0 then ce_NakWithDelay env d m w1 else ce_Nak env m w1) = (ne, w2)"
      by (cases "if d > 0 then ce_NakWithDelay env d m w1 else ce_Nak env m w1")
    have "w' = w2 \<and> e = Some (case ne of None \<Rightarrow> ESent ErrBackpressureHandled
        | Some x \<Rightarrow> wrap1 ''backpressure nak subject=%q: %w'' x)"
      using run pool 1 n
      by (cases ne) (simp_all add: handlePoolBackpressure_def Let_def mode_def [symmetric]
          w1_def [symmetric] d_def [symmetric])
    with nak [OF n] h q show ?thesis by (cases ne) (auto simp: w1_def go_err)
  next
    case 2
    define w1 where "w1 = (if c_hasMetrics c then ce_metric env TermTotal (ce_metric env SlowConsumerEvents w) else w)"
    obtain ne w2 where n: "ce_Term env m w1 = (ne, w2)" by (cases "ce_Term env m w1")
    have "w' = w2 \<and> (ne = None \<or> (\<exists>l x. ne = Some x \<and> e = Some (wrap1 l x)))"
      using run pool 2 n
      by (cases ne) (auto simp: handlePoolBackpressure_def Let_def mode_def [symmetric]
          w1_def [symmetric])
    with trm [OF n] h q show ?thesis by (auto simp: w1_def go_err)
  qed
qed




lemmas publish_run_unfold = publish_run.simps [of "Suc n" for n]

definition fresh_consumer :: "BackpressureMode \<Rightarrow> int \<Rightarrow> consumer" where
  "fresh_consumer mode buf = (demo_consumer mode)\<lparr> c_cfg := demo_cfg\<lparr> rc_WorkerBufferSize := buf \<rparr> \<rparr>"

lemmas pool_eval = wrapHandler_pool_def pool_publish_def tryPublish_def publish_advance_def
  publish_step_def rendezvous_def pool_ops wake_def initWorkerPool_def WorkerPool.Consume_def New_def
  handlePoolBackpressure_def QueueDepth_def



text \<open>
  In the nak mode with an unbuffered pool (\<open>WorkerBufferSize = 0\<close>) a message is lost: while the
  workers are busy the non-blocking publish is refused, and \<open>handlePoolBackpressure\<close>, whose first
  check takes a capacity of 0 for "not full", returns nil. The callback reports success, but the
  message is neither in the pool nor nak'd.
\<close>

theorem nak_mode_unbuffered_drops:
  "\<exists>c1 c2. wrapHandler_pool ledger_env (\<lambda>_ _. None) (fresh_consumer BackpressureNak 0) demo_msg []
       = Some (None, c1, [])
    \<and> wrapHandler_pool ledger_env (\<lambda>_ _. None) c1 (demo_msg\<lparr> msg_Reply := ''$JS.ACK.2'' \<rparr>) []
       = Some (None, c2, [])
    \<and> pool_accepted c1 = {# msg_task (\<lambda>_ _. None) demo_msg #} \<and> pool_accepted c2 = pool_accepted c1"
  by (simp add: pool_eval fresh_consumer_def demo_consumer_defs
      numeral_eq_Suc publish_run_unfold pool_accepted_def accepted_def msg_task_def)

section \<open>Subscription options\<close>

text \<open>What \<open>Subscribe\<close> and \<open>QueueSubscribe\<close> ask of the server and set on the subscription.\<close>

datatype sub_opt = ManualAck | AckWaitOpt duration | IdleHeartbeatOpt duration | EnableFlowControl
  | BindStreamOpt string | DurableOpt string | MaxAckPendingOpt int | BindOpt string string

definition appendConsumerOpts :: "consumer \<Rightarrow> sub_opt list \<Rightarrow> bool \<Rightarrow> sub_opt list" where
  "appendConsumerOpts c opts forQueue =
     opts @ [ManualAck]
     @ (if rc_AckWait (c_cfg c) > 0 then [AckWaitOpt (rc_AckWait (c_cfg c))] else [])
     @ (if \<not> forQueue \<and> rc_IdleHeartbeat (c_cfg c) > 0 then
          [IdleHeartbeatOpt (rc_IdleHeartbeat (c_cfg c))]
          @ (if rc_FlowControl (c_cfg c) then [EnableFlowControl] else [])
        else [])"

definition applyPendingLimits :: "consumer \<Rightarrow> (int \<times> int) option" where
  "applyPendingLimits c =
     (let limit0 = bp_PendingMsgLimit (c_backpressure c);
          buf0 = bp_PendingMsgBuffer (c_backpressure c);
          limit1 = (if limit0 = 0 \<and> rc_PendingMsgLimit (c_cfg c) > 0 then rc_PendingMsgLimit (c_cfg c) else limit0);
          limit2 = (if limit1 = 0 \<and> bp_MaxAckPending (c_backpressure c) > 0
                    then bp_MaxAckPending (c_backpressure c) else limit1);
          buf1 = (if buf0 = 0 \<and> rc_PendingMsgBuffer (c_cfg c) > 0 then rc_PendingMsgBuffer (c_cfg c) else buf0) in
      if limit2 > 0 \<or> buf1 > 0 then Some (limit2, buf1) else None)"

text \<open>\<open>js_sub queue subject opts\<close> is the server call; the result carries the pending limits set on it.\<close>

definition Subscribe ::
  "consumer \<Rightarrow> (string \<Rightarrow> sub_opt list \<Rightarrow> 's result) \<Rightarrow> string \<Rightarrow> sub_opt list \<Rightarrow> ('s \<times> (int \<times> int) option) result" where
  "Subscribe c js_sub subject opts =
     (case ValidateSubject subject of
        Some e \<Rightarrow> Inl (wrap1 ''subscribe: %w'' e)
      | None \<Rightarrow>
          (case js_sub subject (appendConsumerOpts c opts False) of
             Inl e \<Rightarrow> Inl (wrap1 ''subscribe: %w'' e)
           | Inr sub \<Rightarrow> Inr (sub, applyPendingLimits c)))"

definition QueueSubscribe ::
  "consumer \<Rightarrow> (string \<Rightarrow> string \<Rightarrow> sub_opt list \<Rightarrow> 's result) \<Rightarrow> string \<Rightarrow> string \<Rightarrow> sub_opt list \<Rightarrow>
   ('s \<times> (int \<times> int) option) result" where
  "QueueSubscribe c js_sub queue subject opts =
     (case ValidateQueueName queue of
        Some e \<Rightarrow> Inl (wrap1 ''queue subscribe: %w'' e)
      | None \<Rightarrow>
          (case ValidateSubject subject of
             Some e \<Rightarrow> Inl (wrap1 ''queue subscribe: %w'' e)
           | None \<Rightarrow>
               (case js_sub queue subject (appendConsumerOpts c opts True) of
                  Inl e \<Rightarrow> Inl (wrap1 ''queue subscribe: %w'' e)
                | Inr sub \<Rightarrow> Inr (sub, applyPendingLimits c))))"

definition SubscribeBound ::
  "consumer \<Rightarrow> (string \<Rightarrow> sub_opt list \<Rightarrow> 's result) \<Rightarrow> string \<Rightarrow> string \<Rightarrow> string \<Rightarrow>
   ('s \<times> (int \<times> int) option) result" where
  "SubscribeBound c js_sub stream durable subject =
     (case ValidateStreamName stream of
        Some e \<Rightarrow> Inl (wrap1 ''subscribe bound: %w'' e)
      | None \<Rightarrow>
          (case ValidateDurableName durable of
             Some e \<Rightarrow> Inl (wrap1 ''subscribe bound: %w'' e)
           | None \<Rightarrow> Subscribe c js_sub subject [BindStreamOpt stream, DurableOpt durable]))"

definition QueueSubscribeBound ::
  "consumer \<Rightarrow> (string \<Rightarrow> string \<Rightarrow> sub_opt list \<Rightarrow> 's result) \<Rightarrow> string \<Rightarrow> string \<Rightarrow> string \<Rightarrow> string \<Rightarrow>
   ('s \<times> (int \<times> int) option) result" where
  "QueueSubscribeBound c js_sub stream durable queue subject =
     (case ValidateStreamName stream of
        Some e \<Rightarrow> Inl (wrap1 ''queue subscribe bound: %w'' e)
      | None \<Rightarrow>
          (case ValidateDurableName durable of
             Some e \<Rightarrow> Inl (wrap1 ''queue subscribe bound: %w'' e)
           | None \<Rightarrow> QueueSubscribe c js_sub queue subject [BindStreamOpt stream, DurableOpt durable]))"

text \<open>Every subscription acknowledges by hand, and no queue group asks for heartbeats or flow control.\<close>

lemma appendConsumerOpts_manual: "ManualAck \<in> set (appendConsumerOpts c opts q)"
  by (simp add: appendConsumerOpts_def)

lemma appendConsumerOpts_queue:
  "IdleHeartbeatOpt d \<in> set (appendConsumerOpts c opts True) \<longleftrightarrow> IdleHeartbeatOpt d \<in> set opts"
  "EnableFlowControl \<in> set (appendConsumerOpts c opts True) \<longleftrightarrow> EnableFlowControl \<in> set opts"
  by (auto simp: appendConsumerOpts_def split: if_splits)

section \<open>Typed handlers\<close>

definition DecodeTyped :: "'v encoders \<Rightarrow> msg \<Rightarrow> MessageType \<Rightarrow> bool \<Rightarrow> 'v any result" where
  "DecodeTyped c m typ0 is_proto =
     (let typ = (if typ0 = 0 then MessageTypeFromHeader (msg_Header m) else typ0) in
      DecodeMsg c m typ is_proto)"

definition HandlerTyped ::
  "'v encoders \<Rightarrow> MessageType \<Rightarrow> bool \<Rightarrow> (string \<Rightarrow> 'v any \<Rightarrow> 'w \<Rightarrow> handler_result \<times> 'w) \<Rightarrow> 'w MsgHandler" where
  "HandlerTyped c mt is_proto fn m w =
     (case DecodeTyped c m mt is_proto of
        Inl e \<Rightarrow> (HReturn (Some e), w)
      | Inr payload \<Rightarrow> fn (msg_Subject m) payload w)"

end
