(* ===== verification/Supervisor.thy ===== *)
theory Supervisor
  imports Prelude
begin

text \<open>
  The subscription supervisor (\<open>supervisor.go\<close>). The goroutine of \<open>loop\<close> has a program counter:
  at its outer \<open>select\<close>, at the \<open>select\<close> of the backoff, before the call of \<open>subscribe\<close>, and before
  the new subscription is installed; \<open>Stop\<close> may run between any two steps. What happens between
  two of these places is one step. Subscriptions are values of type \<open>'s\<close>, and the record \<open>sup_env\<close>
  holds what can be done with them. Log output and the refusal of a nil \<open>subscribe\<close> are left out.
\<close>

section \<open>Channels of events\<close>

text \<open>\<open>trySend\<close> (\<open>helpers.go\<close>) on a channel with a buffer of \<open>n\<close>: the new event is dropped when full.\<close>

definition trySend :: "nat \<Rightarrow> 'a \<Rightarrow> 'a list \<Rightarrow> 'a list" where
  "trySend n ev ch = (if length ch < n then ch @ [ev] else ch)"

lemma trySend_bound: "length ch \<le> n \<Longrightarrow> length (trySend n ev ch) \<le> n"
  by (simp add: trySend_def)

section \<open>Configuration\<close>

abbreviation defaultSupervisorMaxRetries :: int where "defaultSupervisorMaxRetries \<equiv> 10"
abbreviation defaultSupervisorInitialBackoff :: duration where "defaultSupervisorInitialBackoff \<equiv> Second"
abbreviation defaultSupervisorMaxBackoff :: duration where "defaultSupervisorMaxBackoff \<equiv> 30 * Second"
abbreviation defaultSupervisorCheckInterval :: duration where "defaultSupervisorCheckInterval \<equiv> Second"
abbreviation supervisorEventBuffer :: nat where "supervisorEventBuffer \<equiv> 16"

type_synonym SupervisorEventKind = nat

abbreviation SupervisorResubscribed :: SupervisorEventKind where "SupervisorResubscribed \<equiv> 1"
abbreviation SupervisorGiveUp :: SupervisorEventKind where "SupervisorGiveUp \<equiv> 2"
abbreviation SupervisorInvalid :: SupervisorEventKind where "SupervisorInvalid \<equiv> 3"

record SupervisorEvent =
  se_Err :: "err option"
  se_Kind :: SupervisorEventKind
  se_Attempt :: int

text \<open>The callback \<open>OnEvent\<close> is in the environment below.\<close>

record SupervisorConfig =
  su_InitialBackoff :: duration
  su_MaxBackoff :: duration
  su_CheckInterval :: duration
  su_HealthyBackoffInterval :: duration
  su_HealthyChecksBeforeBackoff :: int
  su_MaxRetries :: int

definition SupervisorConfig_withDefaults :: "SupervisorConfig \<Rightarrow> SupervisorConfig" where
  "SupervisorConfig_withDefaults c =
     c\<lparr> su_MaxRetries := (if su_MaxRetries c = 0 then defaultSupervisorMaxRetries else su_MaxRetries c),
        su_InitialBackoff := (if su_InitialBackoff c \<le> 0 then defaultSupervisorInitialBackoff else su_InitialBackoff c),
        su_MaxBackoff := (if su_MaxBackoff c \<le> 0 then defaultSupervisorMaxBackoff else su_MaxBackoff c),
        su_CheckInterval := (if su_CheckInterval c \<le> 0 then defaultSupervisorCheckInterval else su_CheckInterval c) \<rparr>"

lemma withDefaults_supervisor:
  "0 < su_InitialBackoff (SupervisorConfig_withDefaults c)" "0 < su_MaxBackoff (SupervisorConfig_withDefaults c)"
  "0 < su_CheckInterval (SupervisorConfig_withDefaults c)" "su_MaxRetries (SupervisorConfig_withDefaults c) \<noteq> 0"
  by (simp_all add: SupervisorConfig_withDefaults_def duration_units)

section \<open>The loop\<close>

datatype sup_metric = SupervisorGiveUpTotal | ResubscribeTotal

record ('s, 'w) sup_env =
  sv_subscribe :: "'w \<Rightarrow> 's result \<times> 'w"
  sv_IsValid :: "'s \<Rightarrow> 'w \<Rightarrow> bool"
  sv_Unsubscribe :: "'s \<Rightarrow> 'w \<Rightarrow> err option \<times> 'w"
  sv_ctxDone :: "'w \<Rightarrow> bool"
  sv_OnEvent :: "(SupervisorEvent \<Rightarrow> 'w \<Rightarrow> 'w) option"
  sv_metric :: "sup_metric \<Rightarrow> 'w \<Rightarrow> 'w"

datatype 's sup_pc = SupSelect | SupBackoff | SupSubscribe | SupInstall 's | SupReturned

text \<open>\<open>supervisedSubscription\<close> and the local variables of \<open>loop\<close>. \<open>sp_stopped\<close>: \<open>stopCh\<close> is closed.\<close>

record 's supervised =
  sp_sub :: "'s option"
  sp_events :: "SupervisorEvent list"
  sp_stopped :: bool
  sp_attempts :: int
  sp_backoff :: duration
  sp_healthyStreak :: int
  sp_currentInterval :: duration
  sp_pc :: "'s sup_pc"

definition nextBackoff :: "duration \<Rightarrow> duration \<Rightarrow> duration" where
  "nextBackoff current maxBackoff =
     (let nxt = i64 (current * 2) in if nxt > maxBackoff then maxBackoff else nxt)"

definition sup_emit ::
  "('s, 'w) sup_env \<Rightarrow> SupervisorEvent \<Rightarrow> 's supervised \<times> 'w \<Rightarrow> 's supervised \<times> 'w" where
  "sup_emit env ev = (\<lambda>(s, w).
     (s\<lparr> sp_events := trySend supervisorEventBuffer ev (sp_events s) \<rparr>,
      case sv_OnEvent env of None \<Rightarrow> w | Some f \<Rightarrow> f ev w))"

definition cleanupSub :: "('s, 'w) sup_env \<Rightarrow> 's supervised \<times> 'w \<Rightarrow> 's supervised \<times> 'w" where
  "cleanupSub env = (\<lambda>(s, w).
     (s\<lparr> sp_sub := None \<rparr>, case sp_sub s of None \<Rightarrow> w | Some sub \<Rightarrow> snd (sv_Unsubscribe env sub w)))"

definition sup_goto :: "'s sup_pc \<Rightarrow> 's supervised \<times> 'w \<Rightarrow> 's supervised \<times> 'w" where
  "sup_goto pc = (\<lambda>(s, w). (s\<lparr> sp_pc := pc \<rparr>, w))"

text \<open>The poll interval after a healthy check.\<close>

definition healthy_check :: "SupervisorConfig \<Rightarrow> 's supervised \<Rightarrow> 's supervised" where
  "healthy_check cfg s0 =
     (let s = s0\<lparr> sp_attempts := 0, sp_backoff := su_InitialBackoff cfg \<rparr> in
      if su_HealthyBackoffInterval cfg > 0 \<and> su_HealthyChecksBeforeBackoff cfg > 0 then
        (let s1 = s\<lparr> sp_healthyStreak := sp_healthyStreak s + 1 \<rparr> in
         if sp_healthyStreak s1 \<ge> su_HealthyChecksBeforeBackoff cfg
            \<and> sp_currentInterval s1 < su_HealthyBackoffInterval cfg then
           (let nxt = i64 (sp_currentInterval s1 * 2);
                nxt' = (if nxt > su_HealthyBackoffInterval cfg then su_HealthyBackoffInterval cfg else nxt) in
            s1\<lparr> sp_currentInterval := nxt' \<rparr>)
         else s1)
      else s)"

text \<open>A check that finds the subscription invalid, up to the backoff.\<close>

definition invalid_check ::
  "('s, 'w) sup_env \<Rightarrow> SupervisorConfig \<Rightarrow> 's supervised \<times> 'w \<Rightarrow> 's supervised \<times> 'w" where
  "invalid_check env cfg = (\<lambda>(s0, w0).
     let s = s0\<lparr> sp_healthyStreak := 0, sp_currentInterval := su_CheckInterval cfg \<rparr>;
         n = sp_attempts s;
         p = sup_emit env \<lparr> se_Err = None, se_Kind = SupervisorInvalid, se_Attempt = n \<rparr> (s, w0) in
     if su_MaxRetries cfg \<ge> 0 \<and> n \<ge> su_MaxRetries cfg then
       (let (s1, w1) = sup_emit env \<lparr> se_Err = Some (ESent ErrSupervisorGiveUp), se_Kind = SupervisorGiveUp,
                                     se_Attempt = n \<rparr> p in
        sup_goto SupReturned (cleanupSub env (s1, sv_metric env SupervisorGiveUpTotal w1)))
     else (let (s1, w1) = p in (s1\<lparr> sp_attempts := n + 1, sp_pc := SupBackoff \<rparr>, w1)))"

text \<open>The new subscription replaces the old one.\<close>

definition install_sub ::
  "('s, 'w) sup_env \<Rightarrow> SupervisorConfig \<Rightarrow> 's \<Rightarrow> 's supervised \<times> 'w \<Rightarrow> 's supervised \<times> 'w" where
  "install_sub env cfg newSub = (\<lambda>(s, w).
     let w1 = (case sp_sub s of None \<Rightarrow> w | Some old \<Rightarrow> snd (sv_Unsubscribe env old w));
         (s2, w2) = sup_emit env \<lparr> se_Err = None, se_Kind = SupervisorResubscribed, se_Attempt = sp_attempts s \<rparr>
                      (s\<lparr> sp_sub := Some newSub \<rparr>, sv_metric env ResubscribeTotal w1) in
     (s2\<lparr> sp_backoff := su_InitialBackoff cfg, sp_pc := SupSelect \<rparr>, w2))"

datatype wake = WakeCtx | WakeStop | WakeTimer

text \<open>
  One step of the goroutine. At a \<open>select\<close> the argument picks the case; \<^const>\<open>None\<close>: that case is
  not ready, or the goroutine has returned.
\<close>

definition sup_step ::
  "('s, 'w) sup_env \<Rightarrow> SupervisorConfig \<Rightarrow> wake \<Rightarrow> 's supervised \<times> 'w \<Rightarrow> ('s supervised \<times> 'w) option" where
  "sup_step env cfg k = (\<lambda>(s, w).
     case sp_pc s of
       SupSelect \<Rightarrow>
         (case k of
            WakeCtx \<Rightarrow> if sv_ctxDone env w then Some (sup_goto SupReturned (cleanupSub env (s, w))) else None
          | WakeStop \<Rightarrow> if sp_stopped s then Some (sup_goto SupReturned (s, w)) else None
          | WakeTimer \<Rightarrow>
              if (case sp_sub s of None \<Rightarrow> False | Some sub \<Rightarrow> sv_IsValid env sub w)
              then Some (healthy_check cfg s, w) else Some (invalid_check env cfg (s, w)))
     | SupBackoff \<Rightarrow>
         (case k of
            WakeCtx \<Rightarrow> if sv_ctxDone env w then Some (sup_goto SupReturned (cleanupSub env (s, w))) else None
          | WakeStop \<Rightarrow> if sp_stopped s then Some (sup_goto SupReturned (s, w)) else None
          | WakeTimer \<Rightarrow> Some (sup_goto SupSubscribe (s, w)))
     | SupSubscribe \<Rightarrow>
         (case sv_subscribe env w of
            (Inl e, w1) \<Rightarrow>
              Some (s\<lparr> sp_backoff := nextBackoff (sp_backoff s) (su_MaxBackoff cfg), sp_pc := SupSelect \<rparr>, w1)
          | (Inr newSub, w1) \<Rightarrow> Some (s\<lparr> sp_pc := SupInstall newSub \<rparr>, w1))
     | SupInstall newSub \<Rightarrow> Some (install_sub env cfg newSub (s, w))
     | SupReturned \<Rightarrow> None)"

definition Supervise ::
  "('s, 'w) sup_env \<Rightarrow> SupervisorConfig \<Rightarrow> 'w \<Rightarrow> 's supervised result \<times> 'w" where
  "Supervise env c w =
     (let cfg = SupervisorConfig_withDefaults c in
      case sv_subscribe env w of
        (Inl e, w1) \<Rightarrow> (Inl (wrap1 ''supervise initial subscribe: %w'' e), w1)
      | (Inr sub, w1) \<Rightarrow>
          (Inr \<lparr> sp_sub = Some sub, sp_events = [], sp_stopped = False, sp_attempts = 0,
                 sp_backoff = su_InitialBackoff cfg, sp_healthyStreak = 0,
                 sp_currentInterval = su_CheckInterval cfg, sp_pc = SupSelect \<rparr>, w1))"

text \<open>\<open>Stop\<close>, also the supervisor's \<open>Unsubscribe\<close>; only the first call does anything.\<close>

definition sup_Stop :: "('s, 'w) sup_env \<Rightarrow> 's supervised \<times> 'w \<Rightarrow> err option \<times> 's supervised \<times> 'w" where
  "sup_Stop env = (\<lambda>(s, w).
     if sp_stopped s then (None, s, w)
     else
       (case sp_sub s of
          None \<Rightarrow> (None, s\<lparr> sp_stopped := True \<rparr>, w)
        | Some sub \<Rightarrow> (case sv_Unsubscribe env sub w of (e, w1) \<Rightarrow> (e, s\<lparr> sp_stopped := True \<rparr>, w1))))"

definition sup_IsValid :: "('s, 'w) sup_env \<Rightarrow> 's supervised \<Rightarrow> 'w \<Rightarrow> bool" where
  "sup_IsValid env s w = (case sp_sub s of None \<Rightarrow> False | Some sub \<Rightarrow> sv_IsValid env sub w)"

text \<open>\<open>Drain\<close>, \<open>SetPendingLimits\<close> and \<open>ConsumerInfo\<close> hand a call on to the current subscription.\<close>

definition sup_forward :: "('s \<Rightarrow> 'w \<Rightarrow> 'r result \<times> 'w) \<Rightarrow> 's supervised \<Rightarrow> 'w \<Rightarrow> 'r result \<times> 'w" where
  "sup_forward call s w = (case sp_sub s of None \<Rightarrow> (Inl (ESent ErrInvalidSubscription), w) | Some sub \<Rightarrow> call sub w)"

section \<open>Executions\<close>

text \<open>Between the steps the outside world may change in any way.\<close>

inductive sup_reachable ::
  "('s, 'w) sup_env \<Rightarrow> SupervisorConfig \<Rightarrow> 's supervised \<times> 'w \<Rightarrow> bool" for env c where
  start: "Supervise env c w0 = (Inr s, w) \<Longrightarrow> sup_reachable env c (s, w)"
| step: "sup_reachable env c p \<Longrightarrow> sup_step env (SupervisorConfig_withDefaults c) k p = Some p' \<Longrightarrow>
    sup_reachable env c p'"
| stop: "sup_reachable env c p \<Longrightarrow> sup_Stop env p = (e, p') \<Longrightarrow> sup_reachable env c p'"
| world: "sup_reachable env c (s, w) \<Longrightarrow> sup_reachable env c (s, w')"

lemmas sup_ops = sup_step_def sup_goto_def cleanupSub_def sup_emit_def invalid_check_def install_sub_def
  healthy_check_def Let_def

section \<open>Retries, backoff and poll interval stay in bounds\<close>

definition sup_inv :: "SupervisorConfig \<Rightarrow> 's supervised \<Rightarrow> bool" where
  "sup_inv cfg s \<longleftrightarrow>
     0 \<le> sp_attempts s \<and> (0 \<le> su_MaxRetries cfg \<longrightarrow> sp_attempts s \<le> su_MaxRetries cfg)
     \<and> min (su_InitialBackoff cfg) (su_MaxBackoff cfg) \<le> sp_backoff s
     \<and> sp_backoff s \<le> max (su_InitialBackoff cfg) (su_MaxBackoff cfg)
     \<and> su_CheckInterval cfg \<le> sp_currentInterval s
     \<and> sp_currentInterval s \<le> max (su_CheckInterval cfg) (su_HealthyBackoffInterval cfg)
     \<and> length (sp_events s) \<le> supervisorEventBuffer"

text \<open>Doubling a backoff or an interval of the configuration does not overflow.\<close>

definition no_overflow :: "SupervisorConfig \<Rightarrow> bool" where
  "no_overflow cfg \<longleftrightarrow> in_i64 (su_InitialBackoff cfg * 2) \<and> in_i64 (su_MaxBackoff cfg * 2)
     \<and> in_i64 (su_CheckInterval cfg * 2) \<and> in_i64 (su_HealthyBackoffInterval cfg * 2)"

lemma nextBackoff_bounds:
  assumes "0 < b" "b \<le> max i m" "in_i64 (i * 2)" "in_i64 (m * 2)" "min i m \<le> b"
  shows "min i m \<le> nextBackoff b m" "nextBackoff b m \<le> max i m"
proof -
  have "i64 (b * 2) = b * 2" using assms by (intro i64_id) (auto simp: in_i64_def max_def split: if_splits)
  then show "min i m \<le> nextBackoff b m" "nextBackoff b m \<le> max i m"
    using assms by (auto simp: nextBackoff_def Let_def)
qed

lemma healthy_check_inv:
  assumes "sup_inv cfg s" "no_overflow cfg" "0 < su_CheckInterval cfg"
  shows "sup_inv cfg (healthy_check cfg s)"
proof -
  have "i64 (sp_currentInterval s * 2) = sp_currentInterval s * 2"
    if "sp_currentInterval s < su_HealthyBackoffInterval cfg"
    using that assms by (intro i64_id) (auto simp: in_i64_def no_overflow_def sup_inv_def)
  then show ?thesis using assms by (auto simp: healthy_check_def sup_inv_def Let_def)
qed

lemma sup_inv_frame [simp]:
  "sup_inv cfg (s\<lparr> sp_pc := pc \<rparr>) = sup_inv cfg s" "sup_inv cfg (s\<lparr> sp_sub := x \<rparr>) = sup_inv cfg s"
  "sup_inv cfg (s\<lparr> sp_stopped := b \<rparr>) = sup_inv cfg s"
  by (simp_all add: sup_inv_def)

lemma sup_emit_inv [simp]: "sup_inv cfg (fst p) \<Longrightarrow> sup_inv cfg (fst (sup_emit env ev p))"
  by (cases p) (simp add: sup_emit_def sup_inv_def trySend_bound)

lemma fst_sup_ops [simp]:
  "fst (sup_goto pc p) = (fst p)\<lparr> sp_pc := pc \<rparr>" "fst (cleanupSub env p) = (fst p)\<lparr> sp_sub := None \<rparr>"
  "sp_attempts (fst (sup_emit env ev p)) = sp_attempts (fst p)"
  by (simp_all add: sup_goto_def cleanupSub_def sup_emit_def split_beta)

lemma invalid_check_inv:
  assumes "sup_inv cfg s"
  shows "sup_inv cfg (fst (invalid_check env cfg (s, w)))"
proof -
  define p where "p = sup_emit env \<lparr> se_Err = None, se_Kind = SupervisorInvalid, se_Attempt = sp_attempts s \<rparr>
    (s\<lparr> sp_healthyStreak := 0, sp_currentInterval := su_CheckInterval cfg \<rparr>, w)"
  have p: "sup_inv cfg (fst p)" "sp_attempts (fst p) = sp_attempts s"
    using assms by (simp_all add: p_def sup_inv_def sup_emit_def trySend_bound)
  have next_try: "sup_inv cfg ((fst p)\<lparr> sp_attempts := sp_attempts s + 1, sp_pc := pc \<rparr>)"
    if "\<not> (0 \<le> su_MaxRetries cfg \<and> su_MaxRetries cfg \<le> sp_attempts s)" for pc
    using p that by (auto simp: sup_inv_def)
  show ?thesis
    using p next_try by (simp add: invalid_check_def Let_def split_beta flip: p_def)
qed

lemma sup_step_inv:
  assumes "sup_inv cfg s" "no_overflow cfg" "0 < su_CheckInterval cfg" "0 < su_InitialBackoff cfg"
    "0 < su_MaxBackoff cfg" "sup_step env cfg k (s, w) = Some p'"
  shows "sup_inv cfg (fst p')"
proof (cases "sp_pc s")
  case SupSelect
  note healthy_check_inv [OF assms(1-3)] invalid_check_inv [OF assms(1), of env w]
  then show ?thesis using SupSelect assms(1,6)
    by (cases k) (auto simp: sup_step_def split: if_splits)
next
  case SupBackoff
  then show ?thesis using assms(1,6) by (cases k) (auto simp: sup_step_def split: if_splits)
next
  case SupSubscribe
  have "0 < sp_backoff s" using assms(1,4,5) by (auto simp: sup_inv_def min_def split: if_splits)
  then have "sup_inv cfg (s\<lparr> sp_backoff := nextBackoff (sp_backoff s) (su_MaxBackoff cfg), sp_pc := SupSelect \<rparr>)"
    using assms(1-5) nextBackoff_bounds [of "sp_backoff s" "su_InitialBackoff cfg" "su_MaxBackoff cfg"]
    by (simp add: sup_inv_def no_overflow_def)
  then show ?thesis using SupSubscribe assms(1,6)
    by (auto simp: sup_step_def split: prod.splits sum.splits)
next
  case (SupInstall n)
  have "sup_inv cfg (s\<lparr> sp_backoff := su_InitialBackoff cfg \<rparr>)" if "sup_inv cfg s" for s :: "'a supervised"
    using that by (simp add: sup_inv_def)
  then show ?thesis using SupInstall assms(1,6)
    by (auto simp: sup_step_def install_sub_def Let_def split_beta)
next
  case SupReturned
  then show ?thesis using assms(6) by (simp add: sup_step_def)
qed

lemma sup_Stop_inv: "sup_Stop env p = (e, p') \<Longrightarrow> sup_inv cfg (fst p) \<Longrightarrow> sup_inv cfg (fst p')"
  by (auto simp: sup_Stop_def split: if_splits option.splits prod.splits)

lemma sup_reachable_inv:
  assumes "sup_reachable env c p" "no_overflow (SupervisorConfig_withDefaults c)"
  shows "sup_inv (SupervisorConfig_withDefaults c) (fst p)"
  using assms
proof (induction rule: sup_reachable.induct)
  case (start w0 s w)
  then show ?case
    by (auto simp: Supervise_def Let_def sup_inv_def split: prod.splits sum.splits)
next
  case (step p k p')
  then show ?case
    using sup_step_inv [of _ "fst p" env k "snd p" p'] withDefaults_supervisor [of c] by simp
next
  case (stop p e p')
  then show ?case by (blast intro: sup_Stop_inv)
qed simp

text \<open>
  C24. In every execution, with \<open>Stop\<close> called at any time and the outside world changing in any way,
  the supervisor never counts more attempts than \<open>MaxRetries\<close> (when it is not negative), its backoff
  stays between the smaller and the larger of the initial and the maximal backoff, its poll interval
  between the check interval and the healthy interval, and its event channel within its buffer. The
  durations of the configuration are at most half the range of \<open>time.Duration\<close>.
\<close>

theorem supervisor_bounds:
  assumes "sup_reachable env c (s, w)" "no_overflow (SupervisorConfig_withDefaults c)"
  shows "sup_inv (SupervisorConfig_withDefaults c) s"
  using sup_reachable_inv [OF assms] by simp

text \<open>A world of numbered subscriptions: those that are live, and the next number.\<close>

type_synonym sub_world = "nat list \<times> nat"

definition sub_env :: "(nat, sub_world) sup_env" where
  "sub_env = \<lparr> sv_subscribe = (\<lambda>(live, n). (Inr n, (n # live, n + 1))),
     sv_IsValid = (\<lambda>s (live, n). s \<in> set live),
     sv_Unsubscribe = (\<lambda>s (live, n). (None, (removeAll s live, n))),
     sv_ctxDone = (\<lambda>_. False), sv_OnEvent = None, sv_metric = (\<lambda>_ w. w) \<rparr>"

definition blank_supervisor :: SupervisorConfig where
  "blank_supervisor = \<lparr> su_InitialBackoff = 0, su_MaxBackoff = 0, su_CheckInterval = 0,
     su_HealthyBackoffInterval = 0, su_HealthyChecksBeforeBackoff = 0, su_MaxRetries = 0 \<rparr>"

definition sub_start :: "nat supervised" where
  "sub_start = \<lparr> sp_sub = Some 0, sp_events = [], sp_stopped = False, sp_attempts = 0, sp_backoff = Second,
     sp_healthyStreak = 0, sp_currentInterval = Second, sp_pc = SupSelect \<rparr>"

lemmas sub_eval = sub_env_def blank_supervisor_def sub_start_def Supervise_def
  SupervisorConfig_withDefaults_def duration_units sup_ops sup_Stop_def trySend_def

lemma sub_start_reachable: "sup_reachable sub_env blank_supervisor (sub_start, ([0], 1))"
  by (rule sup_reachable.start [of _ _ "([], 0)"]) (simp add: sub_eval)

theorem supervisor_bounds_witness:
  "sup_inv (SupervisorConfig_withDefaults blank_supervisor) sub_start"
  using supervisor_bounds [OF sub_start_reachable] by (simp add: no_overflow_def in_i64_def sub_eval)

section \<open>Giving up\<close>

text \<open>The goroutine left to its timers for \<open>n\<close> steps.\<close>

fun sup_run :: "nat \<Rightarrow> ('s, 'w) sup_env \<Rightarrow> SupervisorConfig \<Rightarrow> 's supervised \<times> 'w \<Rightarrow> 's supervised \<times> 'w" where
  "sup_run 0 env cfg p = p"
| "sup_run (Suc n) env cfg p =
     (case sup_step env cfg WakeTimer p of None \<Rightarrow> p | Some p' \<Rightarrow> sup_run n env cfg p')"

text \<open>Steps left until it gives up, when no check ever succeeds.\<close>

fun pc_left :: "'s sup_pc \<Rightarrow> nat" where
  "pc_left SupSelect = 0"
| "pc_left SupBackoff = 3"
| "pc_left SupSubscribe = 2"
| "pc_left (SupInstall s) = 1"
| "pc_left SupReturned = 0"

definition steps_left :: "SupervisorConfig \<Rightarrow> 's supervised \<Rightarrow> nat" where
  "steps_left cfg s = (if sp_pc s = SupReturned then 0
     else 4 * nat (su_MaxRetries cfg - sp_attempts s) + pc_left (sp_pc s) + 1)"

lemma sup_step_progress:
  assumes "\<And>sub w. \<not> sv_IsValid env sub w" "0 \<le> su_MaxRetries cfg" "sp_pc s \<noteq> SupReturned"
  shows "\<exists>s' w'. sup_step env cfg WakeTimer (s, w) = Some (s', w') \<and> steps_left cfg s' < steps_left cfg s
    \<and> (sp_pc s' = SupReturned \<longrightarrow> sp_sub s' = None)"
proof (cases "sp_pc s")
  case SupSelect
  then show ?thesis using assms
    by (cases "sp_sub s")
      (auto simp: sup_step_def invalid_check_def sup_goto_def cleanupSub_def sup_emit_def Let_def steps_left_def)
next
  case SupSubscribe
  then show ?thesis
    by (cases "sv_subscribe env w"; cases "fst (sv_subscribe env w)") (auto simp: sup_step_def steps_left_def)
qed (use assms in \<open>auto simp: sup_step_def sup_goto_def install_sub_def sup_emit_def Let_def steps_left_def\<close>)

lemma sup_run_gives_up:
  assumes "\<And>sub w. \<not> sv_IsValid env sub w" "0 \<le> su_MaxRetries cfg" "steps_left cfg s \<le> n"
    "sp_pc s = SupReturned \<longrightarrow> sp_sub s = None"
  shows "sp_pc (fst (sup_run n env cfg (s, w))) = SupReturned \<and> sp_sub (fst (sup_run n env cfg (s, w))) = None"
  using assms(3,4)
proof (induction n arbitrary: s w)
  case 0
  then show ?case by (simp add: steps_left_def split: if_splits)
next
  case (Suc n)
  show ?case
  proof (cases "sp_pc s = SupReturned")
    case True
    with Suc.prems show ?thesis by (simp add: sup_step_def)
  next
    case False
    obtain s' w' where "sup_step env cfg WakeTimer (s, w) = Some (s', w')" "steps_left cfg s' < steps_left cfg s"
        "sp_pc s' = SupReturned \<longrightarrow> sp_sub s' = None"
      using sup_step_progress [OF assms(1,2) False, of w] by blast
    with Suc show ?thesis by simp
  qed
qed

text \<open>
  C23. A subscription that stays invalid is given up: with a non-negative limit, however \<open>subscribe\<close>
  fares, the supervisor returns after at most \<open>MaxRetries\<close> attempts to resubscribe (four steps each)
  and one last check, and it leaves no subscription installed.
\<close>

theorem supervisor_gives_up:
  assumes "Supervise env c w0 = (Inr s, w)" "\<And>sub w. \<not> sv_IsValid env sub w"
    and "0 \<le> su_MaxRetries (SupervisorConfig_withDefaults c)"
  defines "cfg \<equiv> SupervisorConfig_withDefaults c"
  shows "sp_pc (fst (sup_run (4 * nat (su_MaxRetries cfg) + 1) env cfg (s, w))) = SupReturned
    \<and> sp_sub (fst (sup_run (4 * nat (su_MaxRetries cfg) + 1) env cfg (s, w))) = None"
proof (rule sup_run_gives_up)
  show "steps_left cfg s \<le> 4 * nat (su_MaxRetries cfg) + 1"
    using assms(1) by (auto simp: Supervise_def steps_left_def Let_def split: prod.splits sum.splits)
  show "sp_pc s = SupReturned \<longrightarrow> sp_sub s = None"
    using assms(1) by (auto simp: Supervise_def Let_def split: prod.splits sum.splits)
qed (use assms in simp_all)

theorem supervisor_gives_up_witness:
  "sp_pc (fst (sup_run 41 (sub_env\<lparr> sv_IsValid := \<lambda>_ _. False \<rparr>)
     (SupervisorConfig_withDefaults blank_supervisor) (sub_start, ([0], 1)))) = SupReturned"
  using supervisor_gives_up [of "sub_env\<lparr> sv_IsValid := \<lambda>_ _. False \<rparr>" blank_supervisor "([], 0)"
      sub_start "([0], 1)"]
  by (simp add: sub_env_def blank_supervisor_def sub_start_def Supervise_def SupervisorConfig_withDefaults_def
      duration_units)

section \<open>Stopping while resubscribing\<close>

text \<open>Schedules of the goroutine and of calls of \<open>Stop\<close>.\<close>

datatype sup_action = AStep wake | AStop

fun sup_exec ::
  "('s, 'w) sup_env \<Rightarrow> SupervisorConfig \<Rightarrow> sup_action list \<Rightarrow> 's supervised \<times> 'w \<Rightarrow> ('s supervised \<times> 'w) option" where
  "sup_exec env cfg [] p = Some p"
| "sup_exec env cfg (AStep k # as) p =
     (case sup_step env cfg k p of None \<Rightarrow> None | Some p' \<Rightarrow> sup_exec env cfg as p')"
| "sup_exec env cfg (AStop # as) p = sup_exec env cfg as (snd (sup_Stop env p))"

lemma sup_exec_reachable:
  "sup_exec env (SupervisorConfig_withDefaults c) as p = Some p' \<Longrightarrow> sup_reachable env c p \<Longrightarrow> sup_reachable env c p'"
proof (induction env "SupervisorConfig_withDefaults c" as p rule: sup_exec.induct)
  case (2 env k as p)
  then show ?case by (auto split: option.splits intro: sup_reachable.step)
next
  case (3 env as p)
  then show ?case by (metis prod.collapse sup_exec.simps(3) sup_reachable.stop)
qed simp

text \<open>
  A subscription leaks when \<open>Stop\<close> is called while the supervisor resubscribes. \<open>Stop\<close>
  unsubscribes the subscription installed at that moment, the old one; the goroutine then installs
  the new one, finds \<open>stopCh\<close> closed and returns without unsubscribing it. \<open>Stop\<close> has returned and
  the goroutine is gone, but a subscription is still live.
\<close>

theorem Stop_leaks_subscription:
  "\<exists>s live n. sup_reachable sub_env blank_supervisor (s, (live, n))
     \<and> sp_stopped s \<and> sp_pc s = SupReturned \<and> live \<noteq> []"
proof -
  have "\<exists>s. sup_exec sub_env (SupervisorConfig_withDefaults blank_supervisor)
      [AStep WakeTimer, AStep WakeTimer, AStep WakeTimer, AStop, AStep WakeTimer, AStep WakeStop]
      (sub_start, ([], 1)) = Some (s, ([1], 2)) \<and> sp_stopped s \<and> sp_pc s = SupReturned"
    by (simp add: sub_eval)
  moreover have "sup_reachable sub_env blank_supervisor (sub_start, ([], 1))"
    by (rule sup_reachable.world [OF sub_start_reachable])
  ultimately show ?thesis using sup_exec_reachable by blast
qed

section \<open>Supervised pull processing\<close>

text \<open>
  \<open>SupervisePullProcess\<close> restarts \<open>run\<close>. \<open>pv_wait\<close> is its \<open>select\<close>: the error of the context, when it
  was done before the timer.
\<close>

record 'w pull_sup_env =
  pv_run :: "'w \<Rightarrow> err option \<times> 'w"
  pv_wait :: "duration \<Rightarrow> 'w \<Rightarrow> err option \<times> 'w"
  pv_OnEvent :: "(SupervisorEvent \<Rightarrow> 'w \<Rightarrow> 'w) option"
  pv_metric :: "sup_metric \<Rightarrow> 'w \<Rightarrow> 'w"

definition pull_event :: "'w pull_sup_env \<Rightarrow> sup_metric \<Rightarrow> SupervisorEvent \<Rightarrow> 'w \<Rightarrow> 'w" where
  "pull_event env m ev w =
     (case pv_OnEvent env of None \<Rightarrow> pv_metric env m w | Some f \<Rightarrow> f ev (pv_metric env m w))"

partial_function (option) pull_loop ::
  "'w pull_sup_env \<Rightarrow> SupervisorConfig \<Rightarrow> int \<Rightarrow> duration \<Rightarrow> 'w \<Rightarrow> (err option \<times> 'w) option" where
  "pull_loop env cfg attempts backoff w =
     (case pv_run env w of
        (None, w1) \<Rightarrow> Some (None, w1)
      | (Some e, w1) \<Rightarrow>
          if errors_Is e CtxCanceled \<or> errors_Is e CtxDeadlineExceeded then Some (Some e, w1)
          else if su_MaxRetries cfg \<ge> 0 \<and> attempts \<ge> su_MaxRetries cfg then
            Some (Some (EWrap ''%w: %w'' [ESent ErrSupervisorGiveUp, e]),
                  pull_event env SupervisorGiveUpTotal
                    \<lparr> se_Err = Some e, se_Kind = SupervisorGiveUp, se_Attempt = attempts \<rparr> w1)
          else
            (case pv_wait env backoff
                    (pull_event env ResubscribeTotal
                      \<lparr> se_Err = Some e, se_Kind = SupervisorResubscribed, se_Attempt = attempts + 1 \<rparr> w1) of
               (Some ce, w2) \<Rightarrow> Some (Some ce, w2)
             | (None, w2) \<Rightarrow> pull_loop env cfg (attempts + 1) (nextBackoff backoff (su_MaxBackoff cfg)) w2))"

definition SupervisePullProcess :: "'w pull_sup_env \<Rightarrow> SupervisorConfig \<Rightarrow> 'w \<Rightarrow> (err option \<times> 'w) option" where
  "SupervisePullProcess env c w =
     (let cfg = SupervisorConfig_withDefaults c in pull_loop env cfg 0 (su_InitialBackoff cfg) w)"

text \<open>How the loop may end, from what \<open>run\<close> and the wait return.\<close>

definition pull_end :: "'w pull_sup_env \<Rightarrow> err option \<Rightarrow> bool" where
  "pull_end env r \<longleftrightarrow> r = None \<or> err_is r CtxCanceled \<or> err_is r CtxDeadlineExceeded
     \<or> (\<exists>e. r = Some (EWrap ''%w: %w'' [ESent ErrSupervisorGiveUp, e]) \<and> (\<exists>w. fst (pv_run env w) = Some e))
     \<or> (\<exists>d w. r \<noteq> None \<and> fst (pv_wait env d w) = r)"

lemma pull_loop_returns:
  assumes "0 \<le> su_MaxRetries cfg" "nat (su_MaxRetries cfg - attempts) = k"
  shows "\<exists>r w'. pull_loop env cfg attempts backoff w = Some (r, w') \<and> pull_end env r"
  using assms(2)
proof (induction k arbitrary: attempts backoff w rule: less_induct)
  case (less k)
  obtain e w1 where run: "pv_run env w = (e, w1)" by (cases "pv_run env w")
  show ?case
  proof (cases "e = None \<or> err_is e CtxCanceled \<or> err_is e CtxDeadlineExceeded \<or> su_MaxRetries cfg \<le> attempts")
    case True
    moreover have "\<exists>w. fst (pv_run env w) = e" using run by (metis fst_conv)
    ultimately show ?thesis using run assms(1)
      by (subst pull_loop.simps) (auto simp: pull_end_def split: option.splits)
  next
    case False
    then obtain e' where e': "e = Some e'" by (cases e) simp_all
    define w2 where "w2 = pull_event env ResubscribeTotal
      \<lparr> se_Err = Some e', se_Kind = SupervisorResubscribed, se_Attempt = attempts + 1 \<rparr> w1"
    obtain ce w3 where wait: "pv_wait env backoff w2 = (ce, w3)" by (cases "pv_wait env backoff w2")
    have unfold: "pull_loop env cfg attempts backoff w = (case ce of Some x \<Rightarrow> Some (Some x, w3)
        | None \<Rightarrow> pull_loop env cfg (attempts + 1) (nextBackoff backoff (su_MaxBackoff cfg)) w3)"
      using run False e' wait by (subst pull_loop.simps) (simp add: w2_def split: option.splits)
    show ?thesis
    proof (cases ce)
      case None
      have "nat (su_MaxRetries cfg - (attempts + 1)) < k"
        by (subst less.prems [symmetric]) (use False in simp)
      from less.IH [OF this refl] show ?thesis using unfold None by simp
    next
      case (Some x)
      then show ?thesis using unfold wait by (auto simp: pull_end_def intro!: exI [of _ backoff] exI [of _ w2])
    qed
  qed
qed

text \<open>
  Supervised pull processing ends: with a non-negative limit \<open>SupervisePullProcess\<close> returns,
  whatever \<open>run\<close> does, and it returns nil, a cancellation, the error of the done context, or
  \<open>ErrSupervisorGiveUp\<close> together with an error of \<open>run\<close>.
\<close>

theorem SupervisePullProcess_returns:
  assumes "0 \<le> su_MaxRetries (SupervisorConfig_withDefaults c)"
  shows "\<exists>r w'. SupervisePullProcess env c w = Some (r, w') \<and> pull_end env r"
  using pull_loop_returns [OF assms refl] by (simp add: SupervisePullProcess_def Let_def)

definition failing_pull :: "nat pull_sup_env" where
  "failing_pull = \<lparr> pv_run = (\<lambda>n. (Some (EMsg ''down''), n + 1)), pv_wait = (\<lambda>_ n. (None, n)),
     pv_OnEvent = None, pv_metric = (\<lambda>_ n. n) \<rparr>"

theorem SupervisePullProcess_returns_witness:
  "\<exists>r n. SupervisePullProcess failing_pull blank_supervisor 0 = Some (r, n) \<and> pull_end failing_pull r"
  by (rule SupervisePullProcess_returns)
    (simp add: blank_supervisor_def SupervisorConfig_withDefaults_def duration_units)

end
