(* ===== verification/Watch.thy ===== *)
theory Watch
  imports Supervisor Float64
begin

text \<open>
  The watchers of a subscription: \<open>soft_liveness.go\<close> (backlog grows, nothing is processed) and
  \<open>slow_consumer.go\<close> (backlog thresholds exceeded for some time). A watcher's goroutine polls; a poll
  is one step, from the answer of \<open>ConsumerInfo\<close> and the clock to the next state and the event it
  emits. A \<open>uint64\<close> that is only compared is a natural number. The callbacks see the emitted events.
\<close>

section \<open>Soft liveness\<close>

abbreviation defaultSoftLivenessPollInterval :: duration where "defaultSoftLivenessPollInterval \<equiv> 2 * Second"
abbreviation defaultSoftLivenessStallAfter :: duration where "defaultSoftLivenessStallAfter \<equiv> 10 * Second"
abbreviation defaultSoftLivenessRisingWindows :: int where "defaultSoftLivenessRisingWindows \<equiv> 3"
abbreviation softLivenessEventBuffer :: nat where "softLivenessEventBuffer \<equiv> 16"

record SoftLivenessEvent =
  le_Err :: "err option"
  le_NumPending :: nat
  le_StalledFor :: duration

record SoftLivenessConfig =
  lc_PollInterval :: duration
  lc_StallAfter :: duration
  lc_RisingWindows :: int
  lc_CircuitStop :: bool

definition SoftLivenessConfig_withDefaults :: "SoftLivenessConfig \<Rightarrow> SoftLivenessConfig" where
  "SoftLivenessConfig_withDefaults c =
     c\<lparr> lc_PollInterval := (if lc_PollInterval c \<le> 0 then defaultSoftLivenessPollInterval else lc_PollInterval c),
        lc_StallAfter := (if lc_StallAfter c \<le> 0 then defaultSoftLivenessStallAfter else lc_StallAfter c),
        lc_RisingWindows := (if lc_RisingWindows c \<le> 0 then defaultSoftLivenessRisingWindows
                             else lc_RisingWindows c) \<rparr>"

text \<open>\<open>ProcessActivity\<close>: the time of the last success in nanoseconds, 0 when there was none.\<close>

type_synonym ProcessActivity = int

definition Touch :: "gotime \<Rightarrow> ProcessActivity \<Rightarrow> ProcessActivity" where
  "Touch now a = now"

definition LastSuccess :: "ProcessActivity \<Rightarrow> gotime" where
  "LastSuccess a = (if a = 0 then zero_time else a)"

text \<open>The watcher with the local variables of \<open>loop\<close>; \<open>sl_done\<close>: the goroutine has returned.\<close>

record SoftLiveness =
  sl_events :: "SoftLivenessEvent list"
  sl_stalled :: bool
  sl_prevPending :: nat
  sl_havePrev :: bool
  sl_rising :: int
  sl_done :: bool

definition WatchSoftLiveness :: SoftLiveness where
  "WatchSoftLiveness = \<lparr> sl_events = [], sl_stalled = False, sl_prevPending = 0, sl_havePrev = False,
     sl_rising = 0, sl_done = False \<rparr>"

text \<open>
  A poll: \<^const>\<open>None\<close> when \<open>ConsumerInfo\<close> fails, otherwise \<open>NumPending\<close>; the time since the last
  success. \<open>time.Since\<close> saturates, which no comparison here sees.
\<close>

record soft_poll =
  po_pending :: "nat option"
  po_now :: gotime
  po_activity :: ProcessActivity

definition soft_tick ::
  "SoftLivenessConfig \<Rightarrow> soft_poll \<Rightarrow> SoftLiveness \<Rightarrow> SoftLivenessEvent option \<times> SoftLiveness" where
  "soft_tick cfg p s =
     (if sl_done s then (None, s) else
      case po_pending p of
        None \<Rightarrow> (None, s)
      | Some pending \<Rightarrow>
          let rising = (if sl_havePrev s \<and> pending > sl_prevPending s then sl_rising s + 1 else 0);
              s1 = s\<lparr> sl_rising := rising, sl_prevPending := pending, sl_havePrev := True \<rparr>;
              idle = po_now p - LastSuccess (po_activity p) in
          if rising < lc_RisingWindows cfg \<or> idle < lc_StallAfter cfg \<or> pending = 0 then (None, s1)
          else
            let ev = \<lparr> le_Err = Some (ESent ErrConsumerStall), le_NumPending = pending, le_StalledFor = idle \<rparr>;
                s2 = s1\<lparr> sl_stalled := True, sl_events := trySend softLivenessEventBuffer ev (sl_events s1) \<rparr> in
            if lc_CircuitStop cfg then (Some ev, s2\<lparr> sl_done := True \<rparr>)
            else (Some ev, s2\<lparr> sl_rising := 0 \<rparr>))"

definition soft_run :: "SoftLivenessConfig \<Rightarrow> soft_poll list \<Rightarrow> SoftLiveness" where
  "soft_run cfg ps = fold (\<lambda>p s. snd (soft_tick cfg p s)) ps WatchSoftLiveness"

text \<open>What the polls that succeeded have seen.\<close>

definition seen_pending :: "soft_poll list \<Rightarrow> nat list" where
  "seen_pending ps = List.map_filter po_pending ps"

lemma soft_run_snoc: "soft_run cfg (ps @ [p]) = snd (soft_tick cfg p (soft_run cfg ps))"
  by (simp add: soft_run_def)

lemma seen_pending_snoc [simp]:
  "seen_pending (ps @ [p]) = seen_pending ps @ (case po_pending p of None \<Rightarrow> [] | Some x \<Rightarrow> [x])"
  by (simp add: seen_pending_def List.map_filter_def split: option.splits)

lemma seen_pending_Nil [simp]: "seen_pending [] = []"
  by (simp add: seen_pending_def List.map_filter_def)

text \<open>The backlog rose at each of the last \<open>n\<close> observations.\<close>

definition rose :: "nat \<Rightarrow> nat list \<Rightarrow> bool" where
  "rose n xs \<longleftrightarrow> (\<exists>ys zs. xs = ys @ zs \<and> length zs = Suc n \<and> sorted_wrt (<) zs)"

lemma rose_0 [simp]: "rose 0 xs \<longleftrightarrow> xs \<noteq> []"
proof
  assume "xs \<noteq> []"
  then have "xs = butlast xs @ [last xs]" by simp
  then show "rose 0 xs" unfolding rose_def by (metis length_Cons list.size(3) sorted_wrt1)
qed (auto simp: rose_def)

lemma rose_snoc:
  assumes "rose n xs" "last xs < x"
  shows "rose (Suc n) (xs @ [x])"
proof -
  obtain ys zs where z: "xs = ys @ zs" "length zs = Suc n" "sorted_wrt (<) zs"
    using assms(1) by (auto simp: rose_def)
  obtain us u where u: "zs = us @ [u]" using z(2) by (cases zs rule: rev_cases) auto
  with z assms(2) have "sorted_wrt (<) (zs @ [x])" by (auto simp: sorted_wrt_append)
  then have "xs @ [x] = ys @ (zs @ [x]) \<and> length (zs @ [x]) = Suc (Suc n) \<and> sorted_wrt (<) (zs @ [x])"
    using z by simp
  then show ?thesis unfolding rose_def by blast
qed

definition soft_inv :: "soft_poll list \<Rightarrow> SoftLiveness \<Rightarrow> bool" where
  "soft_inv ps s \<longleftrightarrow> sl_done s \<or>
     0 \<le> sl_rising s \<and> (sl_havePrev s \<longleftrightarrow> seen_pending ps \<noteq> [])
     \<and> (sl_havePrev s \<longrightarrow> sl_prevPending s = last (seen_pending ps) \<and> rose (nat (sl_rising s)) (seen_pending ps))"

lemma soft_tick_inv:
  assumes "soft_inv ps s"
  shows "soft_inv (ps @ [p]) (snd (soft_tick cfg p s))"
proof (cases "sl_done s \<or> po_pending p = None")
  case True
  then show ?thesis using assms by (auto simp: soft_tick_def soft_inv_def)
next
  case False
  then obtain x where x: "po_pending p = Some x" by blast
  have rise: "rose (nat (sl_rising s + 1)) (seen_pending ps @ [x])"
    if "sl_havePrev s" "sl_prevPending s < x"
    using rose_snoc [of "nat (sl_rising s)" "seen_pending ps" x] assms False that
    by (simp add: soft_inv_def nat_add_distrib)
  show ?thesis using assms False x rise
    by (auto simp: soft_tick_def soft_inv_def Let_def)
qed

lemma soft_run_inv: "soft_inv ps (soft_run cfg ps)"
proof (induction ps rule: rev_induct)
  case Nil
  then show ?case by (simp add: soft_run_def soft_inv_def WatchSoftLiveness_def)
next
  case (snoc p ps)
  then show ?case by (simp add: soft_run_snoc soft_tick_inv)
qed

text \<open>
  The stall alarm is sound: whenever a poll raises it, after any sequence of polls, the last
  \<open>RisingWindows\<close> + 1 backlog counts the watcher saw were strictly increasing, the reported count is
  the last of them and not 0, and nothing was processed for at least \<open>StallAfter\<close>.
\<close>

theorem soft_liveness_sound:
  assumes "fst (soft_tick (SoftLivenessConfig_withDefaults c) p (soft_run (SoftLivenessConfig_withDefaults c) ps)) = Some ev"
  shows "(\<exists>ys zs. seen_pending (ps @ [p]) = ys @ zs \<and> sorted_wrt (<) zs
      \<and> int (length zs) \<ge> lc_RisingWindows (SoftLivenessConfig_withDefaults c) + 1 \<and> last zs = le_NumPending ev)
    \<and> le_NumPending ev \<noteq> 0 \<and> po_pending p = Some (le_NumPending ev)
    \<and> lc_StallAfter (SoftLivenessConfig_withDefaults c) \<le> po_now p - LastSuccess (po_activity p)"
proof -
  define cfg where "cfg = SoftLivenessConfig_withDefaults c"
  define s where "s = soft_run cfg ps"
  have inv: "soft_inv ps s" unfolding s_def by (rule soft_run_inv)
  have w: "0 < lc_RisingWindows cfg"
    by (simp add: cfg_def SoftLivenessConfig_withDefaults_def)
  have tick: "fst (soft_tick cfg p s) = Some ev" using assms by (simp add: cfg_def s_def)
  then obtain x where x: "po_pending p = Some x" "\<not> sl_done s"
    by (cases "po_pending p") (auto simp: soft_tick_def split: if_splits)
  with tick w have ev: "le_NumPending ev = x" "x \<noteq> 0" "lc_StallAfter cfg \<le> po_now p - LastSuccess (po_activity p)"
      "sl_havePrev s" "sl_prevPending s < x" "lc_RisingWindows cfg \<le> sl_rising s + 1"
    by (auto simp: soft_tick_def Let_def split: if_splits)
  with inv x have "rose (Suc (nat (sl_rising s))) (seen_pending ps @ [x])" "0 \<le> sl_rising s"
    by (auto simp: soft_inv_def intro: rose_snoc)
  then obtain ys zs where z: "seen_pending (ps @ [p]) = ys @ zs" "length zs = Suc (Suc (nat (sl_rising s)))"
      "sorted_wrt (<) zs" using x by (auto simp: rose_def)
  have "last zs = last (ys @ zs)" using z(2) by (cases zs) auto
  then have "last zs = x" using z(1) x by (metis last_snoc option.simps(5) seen_pending_snoc)
  with z ev \<open>0 \<le> sl_rising s\<close> have "\<exists>ys zs. seen_pending (ps @ [p]) = ys @ zs \<and> sorted_wrt (<) zs
      \<and> int (length zs) \<ge> lc_RisingWindows cfg + 1 \<and> last zs = le_NumPending ev"
    by (metis add.commute add_right_mono int_nat_eq of_nat_Suc)
  with ev x show ?thesis unfolding cfg_def [symmetric] by simp
qed

definition soft_demo :: SoftLivenessConfig where
  "soft_demo = \<lparr> lc_PollInterval = 0, lc_StallAfter = 0, lc_RisingWindows = 1, lc_CircuitStop = False \<rparr>"

definition soft_at :: "nat \<Rightarrow> soft_poll" where
  "soft_at n = \<lparr> po_pending = Some n, po_now = 20 * Second, po_activity = 1 \<rparr>"

theorem soft_liveness_sound_witness:
  "\<exists>ev. fst (soft_tick (SoftLivenessConfig_withDefaults soft_demo) (soft_at 7)
      (soft_run (SoftLivenessConfig_withDefaults soft_demo) [soft_at 3])) = Some ev
    \<and> le_NumPending ev \<noteq> 0"
proof -
  have "\<exists>ev. fst (soft_tick (SoftLivenessConfig_withDefaults soft_demo) (soft_at 7)
      (soft_run (SoftLivenessConfig_withDefaults soft_demo) [soft_at 3])) = Some ev"
    by (simp add: soft_run_def soft_tick_def soft_demo_def soft_at_def SoftLivenessConfig_withDefaults_def
        WatchSoftLiveness_def LastSuccess_def duration_units Let_def)
  then show ?thesis using soft_liveness_sound [of soft_demo "soft_at 7" "[soft_at 3]"] by blast
qed

section \<open>Slow consumers\<close>

abbreviation defaultSlowConsumerPollInterval :: duration where "defaultSlowConsumerPollInterval \<equiv> 2 * Second"
abbreviation defaultSlowConsumerSustainFor :: duration where "defaultSlowConsumerSustainFor \<equiv> 30 * Second"
abbreviation defaultSlowConsumerPendingThresh :: nat where "defaultSlowConsumerPendingThresh \<equiv> 1000"
abbreviation defaultSlowConsumerLagThresh :: nat where "defaultSlowConsumerLagThresh \<equiv> 1000"
abbreviation defaultSlowConsumerAckPendingRatio :: rat where "defaultSlowConsumerAckPendingRatio \<equiv> fl64 (9 / 10)"
abbreviation slowConsumerEventBuffer :: nat where "slowConsumerEventBuffer \<equiv> 16"

abbreviation SlowReasonPending :: string where "SlowReasonPending \<equiv> ''pending''"
abbreviation SlowReasonLag :: string where "SlowReasonLag \<equiv> ''lag''"
abbreviation SlowReasonAckPending :: string where "SlowReasonAckPending \<equiv> ''ack_pending''"

record SlowConsumerConfig =
  wc_PollInterval :: duration
  wc_SustainFor :: duration
  wc_PendingThreshold :: nat
  wc_LagThreshold :: nat
  wc_AckPendingRatio :: rat
  wc_CircuitStop :: bool

definition SlowConsumerConfig_withDefaults :: "SlowConsumerConfig \<Rightarrow> SlowConsumerConfig" where
  "SlowConsumerConfig_withDefaults c =
     c\<lparr> wc_PollInterval := (if wc_PollInterval c \<le> 0 then defaultSlowConsumerPollInterval else wc_PollInterval c),
        wc_SustainFor := (if wc_SustainFor c \<le> 0 then defaultSlowConsumerSustainFor else wc_SustainFor c),
        wc_PendingThreshold := (if wc_PendingThreshold c = 0 then defaultSlowConsumerPendingThresh
                                else wc_PendingThreshold c),
        wc_LagThreshold := (if wc_LagThreshold c = 0 then defaultSlowConsumerLagThresh else wc_LagThreshold c),
        wc_AckPendingRatio := (if wc_AckPendingRatio c \<le> 0 then defaultSlowConsumerAckPendingRatio
                               else wc_AckPendingRatio c) \<rparr>"

record SlowConsumerEvent =
  ev_Stream :: string
  ev_Durable :: string
  ev_Reasons :: "string list"
  ev_Pending :: nat
  ev_Lag :: nat
  ev_AckPending :: int
  ev_MaxAckPending :: int
  ev_SustainedFor :: duration

text \<open>\<open>int(x)\<close> of a non-negative float truncates.\<close>

definition EvaluateSlowConsumer ::
  "nat \<Rightarrow> nat \<Rightarrow> int \<Rightarrow> int \<Rightarrow> SlowConsumerConfig \<Rightarrow> bool \<times> string list" where
  "EvaluateSlowConsumer pending lag ackPending maxAckPending c =
     (let cfg = SlowConsumerConfig_withDefaults c;
          limit = \<lfloor>fl_mul (fl_of_int maxAckPending) (wc_AckPendingRatio cfg)\<rfloor>;
          limit' = (if limit < 1 then 1 else limit);
          reasons = (if pending \<ge> wc_PendingThreshold cfg then [SlowReasonPending] else [])
            @ (if lag \<ge> wc_LagThreshold cfg then [SlowReasonLag] else [])
            @ (if maxAckPending > 0 \<and> ackPending \<ge> limit' then [SlowReasonAckPending] else []) in
      (reasons \<noteq> [], reasons))"

definition ConsumerLagMessages :: "nat \<Rightarrow> nat \<Rightarrow> nat" where
  "ConsumerLagMessages streamLastSeq deliveredStreamSeq =
     (if streamLastSeq \<le> deliveredStreamSeq then 0 else streamLastSeq - deliveredStreamSeq)"

text \<open>What a poll reads of \<open>ConsumerInfo\<close>, the tip of the stream when it could be read, the clock.\<close>

record consumer_info =
  ci_Stream :: string
  ci_Name :: string
  ci_NumPending :: nat
  ci_NumAckPending :: int
  ci_MaxAckPending :: int
  ci_DeliveredStream :: nat

record slow_poll =
  so_info :: "consumer_info option"
  so_tip :: "nat option"
  so_now :: gotime

record SlowConsumer =
  sw_events :: "SlowConsumerEvent list"
  sw_slow :: bool
  sw_haveBreach :: bool
  sw_breachStart :: gotime
  sw_done :: bool

definition WatchSlowConsumer :: SlowConsumer where
  "WatchSlowConsumer = \<lparr> sw_events = [], sw_slow = False, sw_haveBreach = False, sw_breachStart = zero_time,
     sw_done = False \<rparr>"

definition poll_lag :: "consumer_info \<Rightarrow> nat option \<Rightarrow> nat" where
  "poll_lag info tip =
     ConsumerLagMessages (case tip of Some n \<Rightarrow> if ci_Stream info = [] then 0 else n | None \<Rightarrow> 0)
       (ci_DeliveredStream info)"

definition poll_slow :: "SlowConsumerConfig \<Rightarrow> consumer_info \<Rightarrow> nat option \<Rightarrow> bool \<times> string list" where
  "poll_slow cfg info tip = EvaluateSlowConsumer (ci_NumPending info) (poll_lag info tip)
     (ci_NumAckPending info) (ci_MaxAckPending info) cfg"

definition slow_tick ::
  "SlowConsumerConfig \<Rightarrow> slow_poll \<Rightarrow> SlowConsumer \<Rightarrow> SlowConsumerEvent option \<times> SlowConsumer" where
  "slow_tick cfg p s =
     (if sw_done s then (None, s) else
      case so_info p of
        None \<Rightarrow> (None, s\<lparr> sw_haveBreach := False \<rparr>)
      | Some info \<Rightarrow>
          let lag = poll_lag info (so_tip p); (slowNow, reasons) = poll_slow cfg info (so_tip p) in
          if \<not> slowNow then (None, s\<lparr> sw_haveBreach := False \<rparr>)
          else
            let s1 = (if sw_haveBreach s then s else s\<lparr> sw_breachStart := so_now p, sw_haveBreach := True \<rparr>);
                sustained = so_now p - sw_breachStart s1 in
            if sustained < wc_SustainFor cfg then (None, s1)
            else if sw_slow s1 \<and> \<not> wc_CircuitStop cfg then (None, s1)
            else
              let ev = \<lparr> ev_Stream = ci_Stream info, ev_Durable = ci_Name info, ev_Reasons = reasons,
                         ev_Pending = ci_NumPending info, ev_Lag = lag, ev_AckPending = ci_NumAckPending info,
                         ev_MaxAckPending = ci_MaxAckPending info, ev_SustainedFor = sustained \<rparr>;
                  s2 = s1\<lparr> sw_slow := True, sw_events := trySend slowConsumerEventBuffer ev (sw_events s1) \<rparr> in
              if wc_CircuitStop cfg then (Some ev, s2\<lparr> sw_done := True \<rparr>)
              else (Some ev, s2\<lparr> sw_haveBreach := False, sw_breachStart := zero_time \<rparr>))"

text \<open>The events of a run, in order, and the state after it.\<close>

fun slow_run :: "SlowConsumerConfig \<Rightarrow> slow_poll list \<Rightarrow> SlowConsumer \<Rightarrow> SlowConsumerEvent list \<times> SlowConsumer" where
  "slow_run cfg [] s = ([], s)"
| "slow_run cfg (p # ps) s =
     (case slow_tick cfg p s of (e, s1) \<Rightarrow> case slow_run cfg ps s1 of (es, s2) \<Rightarrow>
        ((case e of None \<Rightarrow> es | Some ev \<Rightarrow> ev # es), s2))"

lemma slow_run_append:
  "slow_run cfg (ps @ qs) s = (let (es, s1) = slow_run cfg ps s; (fs, s2) = slow_run cfg qs s1 in (es @ fs, s2))"
  by (induction ps arbitrary: s) (auto split: prod.splits option.splits)

text \<open>Once it has fired, the watcher never fires again.\<close>

lemma slow_tick_silent:
  assumes "sw_slow s" "\<not> wc_CircuitStop cfg \<or> sw_done s"
  shows "fst (slow_tick cfg p s) = None" "sw_slow (snd (slow_tick cfg p s))"
    "sw_done s \<Longrightarrow> sw_done (snd (slow_tick cfg p s))"
  using assms by (auto simp: slow_tick_def Let_def split: option.splits prod.splits)

lemma slow_run_silent:
  "sw_slow s \<Longrightarrow> \<not> wc_CircuitStop cfg \<or> sw_done s \<Longrightarrow> fst (slow_run cfg ps s) = []"
proof (induction ps arbitrary: s)
  case (Cons p ps)
  have "fst (slow_run cfg ps (snd (slow_tick cfg p s))) = []"
    using Cons slow_tick_silent [of s cfg p] by blast
  then show ?case using slow_tick_silent(1) [OF Cons.prems, of p] by (auto split: prod.splits)
qed simp

lemma slow_tick_fires:
  assumes "slow_tick cfg p s = (Some ev, s')"
  shows "sw_slow s' \<and> (\<not> wc_CircuitStop cfg \<or> sw_done s')"
  using assms by (auto simp: slow_tick_def Let_def split: if_splits option.splits prod.splits)

lemma slow_run_at_most_one: "length (fst (slow_run cfg ps s)) \<le> 1"
proof (induction ps arbitrary: s)
  case (Cons p ps)
  obtain e s1 where t: "slow_tick cfg p s = (e, s1)" by (cases "slow_tick cfg p s")
  show ?case
  proof (cases e)
    case None
    with t Cons.IH [of s1] show ?thesis by (auto split: prod.splits)
  next
    case (Some ev)
    then have "fst (slow_run cfg ps s1) = []" using slow_tick_fires t slow_run_silent by blast
    with t Some show ?thesis by (auto split: prod.splits)
  qed
qed simp

text \<open>
  The slow-consumer alarm is raised at most once in the life of a watcher, however often the
  consumer recovers and becomes slow again.
\<close>

theorem slow_consumer_fires_once:
  "length (fst (slow_run (SlowConsumerConfig_withDefaults c) ps WatchSlowConsumer)) \<le> 1"
  by (rule slow_run_at_most_one)

text \<open>The alarm is raised only for a breach that held: every poll from its start on was slow.\<close>

definition is_slow :: "SlowConsumerConfig \<Rightarrow> slow_poll \<Rightarrow> bool" where
  "is_slow cfg p = (case so_info p of None \<Rightarrow> False | Some info \<Rightarrow> fst (poll_slow cfg info (so_tip p)))"

definition breach_since :: "SlowConsumerConfig \<Rightarrow> gotime \<Rightarrow> slow_poll list \<Rightarrow> bool" where
  "breach_since cfg t ps \<longleftrightarrow> (\<exists>ys q zs. ps = ys @ q # zs \<and> so_now q = t \<and> (\<forall>r\<in>set (q # zs). is_slow cfg r))"

lemma breach_since_start: "is_slow cfg p \<Longrightarrow> breach_since cfg (so_now p) (ps @ [p])"
  unfolding breach_since_def by force

lemma breach_since_snoc: "breach_since cfg t ps \<Longrightarrow> is_slow cfg p \<Longrightarrow> breach_since cfg t (ps @ [p])"
  unfolding breach_since_def by force

definition slow_inv :: "SlowConsumerConfig \<Rightarrow> slow_poll list \<Rightarrow> SlowConsumer \<Rightarrow> bool" where
  "slow_inv cfg ps s \<longleftrightarrow> sw_done s \<or> (sw_haveBreach s \<longrightarrow> breach_since cfg (sw_breachStart s) ps)"

lemma slow_tick_sound:
  assumes "slow_inv cfg ps s" "slow_tick cfg p s = (e, s')"
  shows "slow_inv cfg (ps @ [p]) s'"
    "e = Some ev \<Longrightarrow> is_slow cfg p \<and> wc_SustainFor cfg \<le> ev_SustainedFor ev
       \<and> breach_since cfg (so_now p - ev_SustainedFor ev) (ps @ [p])"
proof -
  have b: "breach_since cfg (if sw_haveBreach s then sw_breachStart s else so_now p) (ps @ [p])"
    if "is_slow cfg p" "\<not> sw_done s"
    using assms(1) that breach_since_start breach_since_snoc by (simp add: slow_inv_def)
  show "slow_inv cfg (ps @ [p]) s'"
    using assms b by (auto simp: slow_tick_def slow_inv_def is_slow_def Let_def split: if_splits option.splits prod.splits)
  show "e = Some ev \<Longrightarrow> is_slow cfg p \<and> wc_SustainFor cfg \<le> ev_SustainedFor ev
       \<and> breach_since cfg (so_now p - ev_SustainedFor ev) (ps @ [p])"
    using assms b by (auto simp: slow_tick_def is_slow_def Let_def split: if_splits option.splits prod.splits)
qed

lemma slow_run_inv: "slow_inv cfg ps (snd (slow_run cfg ps WatchSlowConsumer))"
proof (induction ps rule: rev_induct)
  case Nil
  then show ?case by (simp add: slow_inv_def WatchSlowConsumer_def)
next
  case (snoc p ps)
  obtain e s' where "slow_tick cfg p (snd (slow_run cfg ps WatchSlowConsumer)) = (e, s')"
    by (cases "slow_tick cfg p (snd (slow_run cfg ps WatchSlowConsumer))")
  with slow_tick_sound(1) [OF snoc this] show ?case
    by (auto simp: slow_run_append Let_def split: prod.splits)
qed

text \<open>
  The slow-consumer alarm is sound: when a poll raises it, a run of consecutive polls up to
  this one, beginning at least \<open>SustainFor\<close> ago, found the consumer over a threshold every time,
  without a failed poll in between, and the event reports how long that was.
\<close>

theorem slow_consumer_sound:
  assumes "fst (slow_tick (SlowConsumerConfig_withDefaults c) p
      (snd (slow_run (SlowConsumerConfig_withDefaults c) ps WatchSlowConsumer))) = Some ev"
  shows "wc_SustainFor (SlowConsumerConfig_withDefaults c) \<le> ev_SustainedFor ev
    \<and> breach_since (SlowConsumerConfig_withDefaults c) (so_now p - ev_SustainedFor ev) (ps @ [p])"
  using slow_tick_sound(2) [OF slow_run_inv prod.collapse [symmetric] assms] by blast

definition slow_demo :: SlowConsumerConfig where
  "slow_demo = \<lparr> wc_PollInterval = 0, wc_SustainFor = 5, wc_PendingThreshold = 10, wc_LagThreshold = 0,
     wc_AckPendingRatio = 1, wc_CircuitStop = False \<rparr>"

definition slow_at :: "gotime \<Rightarrow> slow_poll" where
  "slow_at t = \<lparr> so_info = Some \<lparr> ci_Stream = ''S'', ci_Name = ''d'', ci_NumPending = 20, ci_NumAckPending = 0,
     ci_MaxAckPending = 0, ci_DeliveredStream = 0 \<rparr>, so_tip = None, so_now = t \<rparr>"

theorem slow_consumer_sound_witness:
  "\<exists>ev. fst (slow_tick (SlowConsumerConfig_withDefaults slow_demo) (slow_at 7)
      (snd (slow_run (SlowConsumerConfig_withDefaults slow_demo) [slow_at 1] WatchSlowConsumer))) = Some ev
    \<and> 5 \<le> ev_SustainedFor ev"
proof -
  have "\<exists>ev. fst (slow_tick (SlowConsumerConfig_withDefaults slow_demo) (slow_at 7)
      (snd (slow_run (SlowConsumerConfig_withDefaults slow_demo) [slow_at 1] WatchSlowConsumer))) = Some ev"
    by (simp add: slow_tick_def slow_demo_def slow_at_def SlowConsumerConfig_withDefaults_def poll_slow_def
        EvaluateSlowConsumer_def poll_lag_def ConsumerLagMessages_def WatchSlowConsumer_def Let_def
       )
  moreover have "wc_SustainFor (SlowConsumerConfig_withDefaults slow_demo) = 5"
    by (simp add: slow_demo_def SlowConsumerConfig_withDefaults_def)
  ultimately show ?thesis using slow_consumer_sound [of slow_demo "slow_at 7" "[slow_at 1]"] by auto
qed

end
