(* ===== verification/FlightRecorder.thy ===== *)
theory FlightRecorder
  imports Watch
begin

text \<open>
  The flight recorder (\<open>flight_recorder.go\<close>), a ring buffer of incidents. The interface \<open>bounded_log\<close>
  says what a log that keeps the newest entries promises; the recorder is an instance of it. The
  mutex makes the methods atomic; the nil receiver, on which they do nothing, is left out, as are
  the JSON and log dumps.
\<close>

section \<open>Logs that keep the newest entries\<close>

definition newest :: "nat \<Rightarrow> 'a list \<Rightarrow> 'a list" where
  "newest n xs = drop (length xs - n) xs"

lemma newest_short: "length xs \<le> n \<Longrightarrow> newest n xs = xs"
  by (simp add: newest_def)

lemma length_newest: "length (newest n xs) = min n (length xs)"
  by (auto simp: newest_def)

lemma newest_snoc: "newest n (newest n xs @ [x]) = newest n (xs @ [x])"
proof (cases "n \<le> length xs")
  case True
  have "newest n (newest n xs @ [x]) = drop (Suc (length xs - n)) (xs @ [x])"
  proof (cases n)
    case (Suc k)
    then have "newest n (newest n xs @ [x]) = drop 1 (drop (length xs - n) (xs @ [x]))"
      using True by (simp add: newest_def)
    then show ?thesis by simp
  qed (simp add: newest_def)
  then show ?thesis using True by (simp add: newest_def Suc_diff_le)
qed (simp add: newest_def)

locale bounded_log =
  fixes start :: 's
    and push :: "'a \<Rightarrow> 's \<Rightarrow> 's"
    and contents :: "'s \<Rightarrow> 'a list"
    and inv :: "'s \<Rightarrow> bool"
    and size :: nat
  assumes inv_start: "inv start"
    and contents_start: "contents start = []"
    and inv_push: "inv s \<Longrightarrow> inv (push x s)"
    and contents_push: "inv s \<Longrightarrow> contents (push x s) = newest size (contents s @ [x])"
begin

lemma after_pushes: "inv (fold push xs start) \<and> contents (fold push xs start) = newest size xs"
proof (induction xs rule: rev_induct)
  case Nil
  then show ?case by (simp add: inv_start contents_start newest_def)
next
  case (snoc x xs)
  then show ?case by (simp add: inv_push contents_push newest_snoc)
qed

lemma at_most_size: "length (contents (fold push xs start)) \<le> size"
  using after_pushes by (simp add: length_newest)

end

section \<open>The recorder\<close>

abbreviation defaultFlightRecorderCapacity :: int where "defaultFlightRecorderCapacity \<equiv> 128"
abbreviation flightRecorderEventBuffer :: nat where "flightRecorderEventBuffer \<equiv> 32"

type_synonym IncidentKind = nat

abbreviation IncidentSupervisor :: IncidentKind where "IncidentSupervisor \<equiv> 1"
abbreviation IncidentStall :: IncidentKind where "IncidentStall \<equiv> 2"
abbreviation IncidentDLQ :: IncidentKind where "IncidentDLQ \<equiv> 3"
abbreviation IncidentReconnect :: IncidentKind where "IncidentReconnect \<equiv> 4"
abbreviation IncidentShadow :: IncidentKind where "IncidentShadow \<equiv> 5"

record IncidentEvent =
  ie_Time :: gotime
  ie_Detail :: string
  ie_Subject :: string
  ie_Stream :: string
  ie_Consumer :: string
  ie_Reason :: string
  ie_Err :: "err option"
  ie_Sequence :: nat
  ie_NumPending :: nat
  ie_Attempt :: int
  ie_Kind :: IncidentKind

definition no_incident :: IncidentEvent where
  "no_incident = \<lparr> ie_Time = zero_time, ie_Detail = [], ie_Subject = [], ie_Stream = [], ie_Consumer = [],
     ie_Reason = [], ie_Err = None, ie_Sequence = 0, ie_NumPending = 0, ie_Attempt = 0, ie_Kind = 0 \<rparr>"

record FlightRecorder =
  fr_events :: "IncidentEvent list"
  fr_buf :: "IncidentEvent list"
  fr_cap :: nat
  fr_next :: nat
  fr_full :: bool

definition recorder_capacity :: "int \<Rightarrow> nat" where
  "recorder_capacity capacity = nat (if capacity \<le> 0 then defaultFlightRecorderCapacity else capacity)"

definition NewFlightRecorder :: "int \<Rightarrow> FlightRecorder" where
  "NewFlightRecorder capacity =
     \<lparr> fr_events = [], fr_buf = replicate (recorder_capacity capacity) no_incident,
       fr_cap = recorder_capacity capacity, fr_next = 0, fr_full = False \<rparr>"

text \<open>An incident without time gets the current one.\<close>

definition stamp :: "gotime \<Rightarrow> IncidentEvent \<Rightarrow> IncidentEvent" where
  "stamp now ev = (if ie_Time ev = zero_time then ev\<lparr> ie_Time := now \<rparr> else ev)"

definition record_stamped :: "IncidentEvent \<Rightarrow> FlightRecorder \<Rightarrow> FlightRecorder" where
  "record_stamped ev r =
     (let r1 = r\<lparr> fr_buf := (fr_buf r)[fr_next r := ev], fr_next := (fr_next r + 1) mod fr_cap r \<rparr>;
          r2 = (if fr_next r1 = 0 then r1\<lparr> fr_full := True \<rparr> else r1) in
      r2\<lparr> fr_events := trySend flightRecorderEventBuffer ev (fr_events r2) \<rparr>)"

definition Record :: "gotime \<Rightarrow> IncidentEvent \<Rightarrow> FlightRecorder \<Rightarrow> FlightRecorder" where
  "Record now ev r = record_stamped (stamp now ev) r"

definition Snapshot :: "FlightRecorder \<Rightarrow> IncidentEvent list" where
  "Snapshot r =
     (if \<not> fr_full r \<and> fr_next r = 0 then []
      else if \<not> fr_full r then take (fr_next r) (fr_buf r)
      else drop (fr_next r) (fr_buf r) @ take (fr_next r) (fr_buf r))"

definition recorder_inv :: "nat \<Rightarrow> FlightRecorder \<Rightarrow> bool" where
  "recorder_inv n r \<longleftrightarrow> fr_cap r = n \<and> 0 < n \<and> length (fr_buf r) = n \<and> fr_next r < n"

lemma recorder_capacity_pos: "0 < recorder_capacity c"
  by (simp add: recorder_capacity_def)

lemma Snapshot_push:
  assumes "recorder_inv n r"
  shows "Snapshot (record_stamped ev r) = newest n (Snapshot r @ [ev])"
proof -
  let ?b = "fr_buf r" and ?i = "fr_next r"
  have i: "?i < length ?b" and n: "length ?b = n" "fr_cap r = n" using assms by (simp_all add: recorder_inv_def)
  have b: "?b = take ?i ?b @ ?b ! ?i # drop (Suc ?i) ?b" using i by (rule id_take_nth_drop)
  have upd: "?b[?i := ev] = take ?i ?b @ ev # drop (Suc ?i) ?b" using i by (rule upd_conv_take_nth_drop)
  have full: "drop ?i ?b = ?b ! ?i # drop (Suc ?i) ?b" using i by (simp add: Cons_nth_drop_Suc)
  show ?thesis
  proof (cases "Suc ?i = n")
    case True
    then have "Snapshot (record_stamped ev r) = take ?i ?b @ [ev]"
      using upd n i by (simp add: record_stamped_def Snapshot_def Let_def)
    then show ?thesis using True n full i
      by (auto simp: Snapshot_def newest_def)
  next
    case False
    then have lt: "Suc ?i < n" using i n by simp
    then have "Snapshot (record_stamped ev r) =
        (if fr_full r then drop (Suc ?i) ?b @ take ?i ?b @ [ev] else take ?i ?b @ [ev])"
      using upd n i by (simp add: record_stamped_def Snapshot_def Let_def)
    then show ?thesis using lt n full i by (auto simp: Snapshot_def newest_def)
  qed
qed

interpretation recorder: bounded_log "NewFlightRecorder c" record_stamped Snapshot
    "recorder_inv (recorder_capacity c)" "recorder_capacity c" for c
proof
  show "recorder_inv (recorder_capacity c) (NewFlightRecorder c)"
    using recorder_capacity_pos [of c] by (simp add: recorder_inv_def NewFlightRecorder_def)
  show "Snapshot (NewFlightRecorder c) = []" by (simp add: Snapshot_def NewFlightRecorder_def)
  show "recorder_inv (recorder_capacity c) (record_stamped x s)" if "recorder_inv (recorder_capacity c) s" for x s
    using that by (simp add: recorder_inv_def record_stamped_def Let_def)
qed (rule Snapshot_push)

text \<open>
  C12. The recorder is the abstract log of the newest incidents: after any sequence of \<open>Record\<close>
  calls, of any capacity (128 for a capacity that is not positive), \<open>Snapshot\<close> returns exactly the
  newest incidents in the order they were recorded, as many as the capacity allows, each stamped
  with the time of its call unless it had one.
\<close>

theorem flight_recorder_refines:
  "Snapshot (fold (\<lambda>(now, ev). Record now ev) calls (NewFlightRecorder c))
     = newest (recorder_capacity c) (map (\<lambda>(now, ev). stamp now ev) calls)"
proof -
  have "fold (\<lambda>(now, ev). Record now ev) calls r = fold record_stamped (map (\<lambda>(now, ev). stamp now ev) calls) r" for r
    by (induction calls arbitrary: r) (auto simp: Record_def)
  then show ?thesis using recorder.after_pushes [of c] by simp
qed

section \<open>What records incidents\<close>

definition supervisorKindName :: "SupervisorEventKind \<Rightarrow> string" where
  "supervisorKindName k =
     (if k = SupervisorResubscribed then ''resubscribed''
      else if k = SupervisorGiveUp then ''give_up''
      else if k = SupervisorInvalid then ''invalid'' else ''unknown'')"

text \<open>
  The attached callbacks, on a world that holds the recorder beside the rest; \<open>prev\<close> is the callback
  that was there before. \<open>Err\<close> keeps the error value, of which the code stores the text.
\<close>

definition AttachSupervisor ::
  "gotime \<Rightarrow> (SupervisorEvent \<Rightarrow> 'w \<Rightarrow> 'w) option \<Rightarrow> SupervisorEvent \<Rightarrow> FlightRecorder \<times> 'w \<Rightarrow> FlightRecorder \<times> 'w" where
  "AttachSupervisor now prev ev = (\<lambda>(r, w).
     (Record now (no_incident\<lparr> ie_Kind := IncidentSupervisor, ie_Detail := supervisorKindName (se_Kind ev),
        ie_Attempt := se_Attempt ev, ie_Err := se_Err ev \<rparr>) r,
      case prev of None \<Rightarrow> w | Some f \<Rightarrow> f ev w))"

definition AttachSoftLiveness ::
  "gotime \<Rightarrow> (SoftLivenessEvent \<Rightarrow> 'w \<Rightarrow> 'w) option \<Rightarrow> SoftLivenessEvent \<Rightarrow> FlightRecorder \<times> 'w \<Rightarrow> FlightRecorder \<times> 'w" where
  "AttachSoftLiveness now prev ev = (\<lambda>(r, w).
     (Record now (no_incident\<lparr> ie_Kind := IncidentStall, ie_Detail := ''consumer_stall'',
        ie_NumPending := le_NumPending ev, ie_Err := le_Err ev \<rparr>) r,
      case prev of None \<Rightarrow> w | Some f \<Rightarrow> f ev w))"

definition RecordDLQ ::
  "gotime \<Rightarrow> string \<Rightarrow> string \<Rightarrow> string \<Rightarrow> string \<Rightarrow> nat \<Rightarrow> FlightRecorder \<Rightarrow> FlightRecorder" where
  "RecordDLQ now subject stream consumer reason seq r =
     Record now (no_incident\<lparr> ie_Kind := IncidentDLQ, ie_Detail := ''dlq_route'', ie_Subject := subject,
       ie_Stream := stream, ie_Consumer := consumer, ie_Reason := reason, ie_Sequence := seq \<rparr>) r"

definition RecordDLQAutopsy ::
  "gotime \<Rightarrow> string \<Rightarrow> string \<Rightarrow> string \<Rightarrow> string \<Rightarrow> err option \<Rightarrow> nat \<Rightarrow> FlightRecorder \<Rightarrow> FlightRecorder" where
  "RecordDLQAutopsy now subject stream consumer reason e seq r =
     Record now (no_incident\<lparr> ie_Kind := IncidentDLQ, ie_Detail := ''autopsy'', ie_Subject := subject,
       ie_Stream := stream, ie_Consumer := consumer, ie_Reason := reason, ie_Err := e, ie_Sequence := seq \<rparr>) r"

definition RecordReconnect :: "gotime \<Rightarrow> string \<Rightarrow> FlightRecorder \<Rightarrow> FlightRecorder" where
  "RecordReconnect now detail r =
     Record now (no_incident\<lparr> ie_Kind := IncidentReconnect, ie_Detail := detail \<rparr>) r"

end
