(* ===== verification/Idempotency.thy ===== *)
theory Idempotency
  imports Consumer
begin

text \<open>
  Idempotent handling (\<open>idempotency/idempotency.go\<close>) and the store in a JetStream key-value bucket
  (\<open>idempotency/kv_store.go\<close>). The interface of a store that supports claims is the locale
  \<open>claim_laws\<close>; the key-value store satisfies it for every bucket that behaves as nats.go documents
  (\<open>kv_laws\<close>). The handler wrapper is given twice: as the function of the source, and as the steps of
  one worker, which are interleaved with those of other workers. Expiry of keys is left out.
\<close>

section \<open>Stores\<close>

record 'w ClaimStore =
  cs_Seen :: "string \<Rightarrow> 'w \<Rightarrow> bool result \<times> 'w"
  cs_Mark :: "string \<Rightarrow> 'w \<Rightarrow> err option \<times> 'w"
  cs_Claim :: "string \<Rightarrow> 'w \<Rightarrow> bool result \<times> 'w"
  cs_Release :: "string \<Rightarrow> 'w \<Rightarrow> err option \<times> 'w"

text \<open>A \<open>DedupStore\<close> has the first two; \<open>dedup_claims\<close> is the type assertion to \<open>ClaimStore\<close>.\<close>

record 'w DedupStore =
  ds_Seen :: "string \<Rightarrow> 'w \<Rightarrow> bool result \<times> 'w"
  ds_Mark :: "string \<Rightarrow> 'w \<Rightarrow> err option \<times> 'w"
  dedup_claims :: "'w ClaimStore option"

section \<open>The handler wrapper\<close>

definition MsgIDFromHeader :: "msg option \<Rightarrow> string" where
  "MsgIDFromHeader msg = (case msg of None \<Rightarrow> [] | Some m \<Rightarrow> header_Get (msg_Header m) HeaderMsgID)"

text \<open>A panic of the handler passes through: no deferred call is in the way.\<close>

definition release_after ::
  "'w ClaimStore \<Rightarrow> string \<Rightarrow> string \<Rightarrow> err \<Rightarrow> 'w \<Rightarrow> handler_result \<times> 'w" where
  "release_after store label ident e w =
     (case cs_Release store ident w of
        (Some relErr, w1) \<Rightarrow> (HReturn (Some (EWrap ''errors.Join'' [e, wrap1 label relErr])), w1)
      | (None, w1) \<Rightarrow> (HReturn (Some e), w1))"

definition withClaimHandler ::
  "'w ClaimStore \<Rightarrow> string \<Rightarrow> msg \<Rightarrow> 'w MsgHandler \<Rightarrow> 'w \<Rightarrow> handler_result \<times> 'w" where
  "withClaimHandler store ident m handler w =
     (case cs_Claim store ident w of
        (Inl e, w1) \<Rightarrow> (HReturn (Some e), w1)
      | (Inr acquired, w1) \<Rightarrow>
          if \<not> acquired then
            (case cs_Seen store ident w1 of
               (Inl e, w2) \<Rightarrow> (HReturn (Some e), w2)
             | (Inr isDone, w2) \<Rightarrow>
                 (HReturn (if isDone then None else Some (wrap1 ''%w: id=%q'' (ESent ErrClaimInFlight))), w2))
          else
            (case handler m w1 of
               (HReturn (Some e), w2) \<Rightarrow> release_after store ''idempotency release id=%q: %w'' ident e w2
             | (HReturn None, w2) \<Rightarrow>
                 (case cs_Mark store ident w2 of
                    (Some e, w3) \<Rightarrow> release_after store ''idempotency release after mark id=%q: %w'' ident e w3
                  | (None, w3) \<Rightarrow> (HReturn None, w3))
             | (r, w2) \<Rightarrow> (r, w2)))"

definition WithHandler ::
  "'w DedupStore \<Rightarrow> (msg \<Rightarrow> string) \<Rightarrow> 'w MsgHandler \<Rightarrow> 'w MsgHandler" where
  "WithHandler store extractID handler m w =
     (let ident = extractID m in
      if IsEmpty ident then handler m w
      else
        case dedup_claims store of
          Some claimer \<Rightarrow> withClaimHandler claimer ident m handler w
        | None \<Rightarrow>
            (case ds_Seen store ident w of
               (Inl e, w1) \<Rightarrow> (HReturn (Some e), w1)
             | (Inr True, w1) \<Rightarrow> (HReturn None, w1)
             | (Inr False, w1) \<Rightarrow>
                 (case handler m w1 of
                    (HReturn None, w2) \<Rightarrow> map_prod HReturn (\<lambda>w. w) (ds_Mark store ident w2)
                  | (r, w2) \<Rightarrow> (r, w2))))"

text \<open>The same as steps of a worker: one call of the store or of the handler each.\<close>

datatype claim_pc = AtClaim | AtSeen | AtHandler | AtMark | AtRelease string err | Finished handler_result

definition claim_step ::
  "'w ClaimStore \<Rightarrow> 'w MsgHandler \<Rightarrow> string \<Rightarrow> msg \<Rightarrow> claim_pc \<Rightarrow> 'w \<Rightarrow> (claim_pc \<times> 'w) option" where
  "claim_step store handler ident m pc w =
     (case pc of
        AtClaim \<Rightarrow>
          (case cs_Claim store ident w of
             (Inl e, w1) \<Rightarrow> Some (Finished (HReturn (Some e)), w1)
           | (Inr acquired, w1) \<Rightarrow> Some (if acquired then AtHandler else AtSeen, w1))
      | AtSeen \<Rightarrow>
          (case cs_Seen store ident w of
             (Inl e, w1) \<Rightarrow> Some (Finished (HReturn (Some e)), w1)
           | (Inr isDone, w1) \<Rightarrow>
               Some (Finished (HReturn (if isDone then None else Some (wrap1 ''%w: id=%q'' (ESent ErrClaimInFlight)))), w1))
      | AtHandler \<Rightarrow>
          (case handler m w of
             (HReturn (Some e), w1) \<Rightarrow> Some (AtRelease ''idempotency release id=%q: %w'' e, w1)
           | (HReturn None, w1) \<Rightarrow> Some (AtMark, w1)
           | (r, w1) \<Rightarrow> Some (Finished r, w1))
      | AtMark \<Rightarrow>
          (case cs_Mark store ident w of
             (Some e, w1) \<Rightarrow> Some (AtRelease ''idempotency release after mark id=%q: %w'' e, w1)
           | (None, w1) \<Rightarrow> Some (Finished (HReturn None), w1))
      | AtRelease label e \<Rightarrow> Some (map_prod Finished (\<lambda>w. w) (release_after store label ident e w))
      | Finished r \<Rightarrow> None)"

fun claim_run ::
  "nat \<Rightarrow> 'w ClaimStore \<Rightarrow> 'w MsgHandler \<Rightarrow> string \<Rightarrow> msg \<Rightarrow> claim_pc \<Rightarrow> 'w \<Rightarrow> claim_pc \<times> 'w" where
  "claim_run 0 store handler ident m pc w = (pc, w)"
| "claim_run (Suc n) store handler ident m pc w =
     (case claim_step store handler ident m pc w of
        None \<Rightarrow> (pc, w) | Some (pc', w') \<Rightarrow> claim_run n store handler ident m pc' w')"

lemma claim_run_Finished [simp]: "claim_run n store handler ident m (Finished r) w = (Finished r, w)"
  by (cases n) (simp_all add: claim_step_def)

lemma claim_run_AtRelease [simp]:
  "claim_run (Suc n) store handler ident m (AtRelease label e) w
     = map_prod Finished (\<lambda>w. w) (release_after store label ident e w)"
  by (cases "release_after store label ident e w") (simp add: claim_step_def)

text \<open>Four steps of one worker alone are the function of the source.\<close>

lemma claim_run_withClaimHandler:
  "claim_run 4 store handler ident m AtClaim w
     = map_prod Finished (\<lambda>w. w) (withClaimHandler store ident m handler w)"
proof -
  obtain c w1 where c: "cs_Claim store ident w = (c, w1)" by (cases "cs_Claim store ident w")
  obtain s ws where s: "cs_Seen store ident w1 = (s, ws)" by (cases "cs_Seen store ident w1")
  obtain r w2 where r: "handler m w1 = (r, w2)" by (cases "handler m w1")
  obtain k w3 where k: "cs_Mark store ident w2 = (k, w3)" by (cases "cs_Mark store ident w2")
  have seen: "c = Inr False \<Longrightarrow> ?thesis"
    using c s by (cases s) (simp_all add: numeral_eq_Suc claim_step_def withClaimHandler_def)
  have marked: "c = Inr True \<Longrightarrow> r = HReturn None \<Longrightarrow> ?thesis"
    using c r k by (cases k) (simp_all add: numeral_eq_Suc claim_step_def withClaimHandler_def split_beta map_prod_def)
  have failed: "c = Inr True \<Longrightarrow> r = HReturn (Some e) \<Longrightarrow> ?thesis" for e
    using c r by (simp add: numeral_eq_Suc claim_step_def withClaimHandler_def split_beta map_prod_def)
  have panicked: "c = Inr True \<Longrightarrow> \<nexists>e. r = HReturn e \<Longrightarrow> ?thesis"
    using c r by (cases r) (simp_all add: numeral_eq_Suc claim_step_def withClaimHandler_def)
  have refused: "c = Inl e \<Longrightarrow> ?thesis" for e
    using c by (simp add: numeral_eq_Suc claim_step_def withClaimHandler_def)
  show ?thesis by (metis (full_types) seen marked failed panicked refused obj_sumE option.exhaust)
qed

section \<open>The key-value store\<close>

record 'w KeyValue =
  kv_Get :: "string \<Rightarrow> 'w \<Rightarrow> bytes result \<times> 'w"
  kv_Put :: "string \<Rightarrow> bytes \<Rightarrow> 'w \<Rightarrow> err option \<times> 'w"
  kv_Create :: "string \<Rightarrow> bytes \<Rightarrow> 'w \<Rightarrow> err option \<times> 'w"
  kv_Purge :: "string \<Rightarrow> 'w \<Rightarrow> err option \<times> 'w"

abbreviation pendingValue :: bytes where "pendingValue \<equiv> ''p''"
abbreviation doneValue :: bytes where "doneValue \<equiv> ''d''"
abbreviation legacyMarkedValue :: bytes where "legacyMarkedValue \<equiv> [CHR 0x01]"

definition isDoneValue :: "bytes \<Rightarrow> bool" where
  "isDoneValue v \<longleftrightarrow> v = doneValue \<or> v = legacyMarkedValue"

definition kvStore_Seen :: "'w KeyValue \<Rightarrow> string \<Rightarrow> 'w \<Rightarrow> bool result \<times> 'w" where
  "kvStore_Seen kv ident w =
     (case ValidateKVKey ident of
        Some e \<Rightarrow> (Inl e, w)
      | None \<Rightarrow>
          (case kv_Get kv ident w of
             (Inr v, w1) \<Rightarrow> (Inr (isDoneValue v), w1)
           | (Inl e, w1) \<Rightarrow>
               if errors_Is e NatsErrKeyNotFound then (Inr False, w1)
               else (Inl (wrap1 ''kv dedup seen %q: %w'' e), w1)))"

definition kvStore_Mark :: "'w KeyValue \<Rightarrow> string \<Rightarrow> 'w \<Rightarrow> err option \<times> 'w" where
  "kvStore_Mark kv ident w =
     (case ValidateKVKey ident of
        Some e \<Rightarrow> (Some e, w)
      | None \<Rightarrow> map_prod (map_option (wrap1 ''kv dedup mark %q: %w'')) (\<lambda>w. w) (kv_Put kv ident doneValue w))"

definition kvStore_Claim :: "'w KeyValue \<Rightarrow> string \<Rightarrow> 'w \<Rightarrow> bool result \<times> 'w" where
  "kvStore_Claim kv ident w =
     (case ValidateKVKey ident of
        Some e \<Rightarrow> (Inl e, w)
      | None \<Rightarrow>
          (case kv_Create kv ident pendingValue w of
             (None, w1) \<Rightarrow> (Inr True, w1)
           | (Some e, w1) \<Rightarrow>
               if errors_Is e NatsErrKeyExists then (Inr False, w1)
               else (Inl (wrap1 ''kv dedup claim %q: %w'' e), w1)))"

definition kvStore_Release :: "'w KeyValue \<Rightarrow> string \<Rightarrow> 'w \<Rightarrow> err option \<times> 'w" where
  "kvStore_Release kv ident w =
     (case ValidateKVKey ident of
        Some e \<Rightarrow> (Some e, w)
      | None \<Rightarrow>
          (case kv_Purge kv ident w of
             (Some e, w1) \<Rightarrow>
               if errors_Is e NatsErrKeyNotFound then (None, w1)
               else (Some (wrap1 ''kv dedup release %q: %w'' e), w1)
           | (None, w1) \<Rightarrow> (None, w1)))"

definition NewKVStore :: "'w KeyValue \<Rightarrow> 'w ClaimStore" where
  "NewKVStore kv = \<lparr> cs_Seen = kvStore_Seen kv, cs_Mark = kvStore_Mark kv, cs_Claim = kvStore_Claim kv,
     cs_Release = kvStore_Release kv \<rparr>"

section \<open>What a claim store promises\<close>

datatype claim_status = Free | Pending | Completed

text \<open>
  \<open>status w ident\<close> is what the store holds for an id. A failing call may or may not have had its
  effect. Every call leaves the other ids alone.
\<close>

locale claim_laws =
  fixes store :: "'w ClaimStore"
    and status :: "'w \<Rightarrow> string \<Rightarrow> claim_status"
  assumes claim_law: "cs_Claim store ident w = (r, w') \<Longrightarrow>
      (case r of
         Inr True \<Rightarrow> status w ident = Free \<and> status w' ident = Pending
       | Inr False \<Rightarrow> status w ident \<noteq> Free \<and> status w' ident = status w ident
       | Inl e \<Rightarrow> status w' ident = status w ident \<or> status w ident = Free \<and> status w' ident = Pending)"
    and seen_law: "cs_Seen store ident w = (s, w') \<Longrightarrow>
      status w' ident = status w ident \<and> (case s of Inl e \<Rightarrow> True | Inr b \<Rightarrow> b = (status w ident = Completed))"
    and mark_law: "cs_Mark store ident w = (e, w') \<Longrightarrow>
      status w' ident = Completed \<or> e \<noteq> None \<and> status w' ident = status w ident"
    and release_law: "cs_Release store ident w = (e, w') \<Longrightarrow>
      status w' ident = Free \<or> e \<noteq> None \<and> status w' ident = status w ident"
begin

lemma release_after_status:
  assumes "release_after store label ident e w = (r, w')"
  shows "r \<noteq> HReturn None" "status w' ident = Free \<or> status w' ident = status w ident"
  using assms release_law [of ident w]
  by (auto simp: release_after_def split: prod.splits option.splits)

text \<open>A wrapped handler reports success only for an id that is completed.\<close>

lemma success_completed:
  assumes run: "withClaimHandler store ident m handler w = (HReturn None, w')"
  shows "status w' ident = Completed"
proof -
  obtain c w1 where c: "cs_Claim store ident w = (c, w1)" by (cases "cs_Claim store ident w")
  obtain s ws where s: "cs_Seen store ident w1 = (s, ws)" by (cases "cs_Seen store ident w1")
  obtain r w2 where r: "handler m w1 = (r, w2)" by (cases "handler m w1")
  obtain k w3 where k: "cs_Mark store ident w2 = (k, w3)" by (cases "cs_Mark store ident w2")
  note rel = release_after_status(1)
  show ?thesis
  proof (cases "c = Inr True")
    case True
    with run c r have r0: "r = HReturn None"
      by (auto simp: withClaimHandler_def dest: rel split: handler_result.splits option.splits)
    with True run c r k have "k = None" "w' = w3"
      by (auto simp: withClaimHandler_def dest: rel split: option.splits)
    with mark_law [OF k] show ?thesis by simp
  next
    case False
    with run c s have "s = Inr True" "w' = ws"
      by (auto simp: withClaimHandler_def split: sum.splits if_splits)
    with seen_law [OF s] show ?thesis by simp
  qed
qed

text \<open>A completed id is not handled again, and an id claimed by another worker is refused.\<close>

lemma not_free_not_handled:
  assumes "status w ident \<noteq> Free" "withClaimHandler store ident m handler w = (r, w')"
  shows "withClaimHandler store ident m handler' w = (r, w')" "status w' ident = status w ident"
proof -
  obtain c w1 where c: "cs_Claim store ident w = (c, w1)" by (cases "cs_Claim store ident w")
  obtain s ws where s: "cs_Seen store ident w1 = (s, ws)" by (cases "cs_Seen store ident w1")
  have "c \<noteq> Inr True" "status w1 ident = status w ident"
    using claim_law [OF c] assms(1) by (auto split: sum.splits bool.splits)
  with assms(2) c s seen_law [OF s]
  show "withClaimHandler store ident m handler' w = (r, w')" "status w' ident = status w ident"
    by (auto simp: withClaimHandler_def split: sum.splits)
qed

end

section \<open>Workers in competition\<close>

text \<open>
  Any number of workers handle deliveries with the same id \<open>ident\<close>, each with its own message; other
  activity may change the world, but not what the store holds for this id.
\<close>

inductive claim_reachable ::
  "'w ClaimStore \<Rightarrow> ('w \<Rightarrow> string \<Rightarrow> claim_status) \<Rightarrow> 'w MsgHandler \<Rightarrow> string \<Rightarrow> (msg \<times> claim_pc) list \<Rightarrow> 'w \<Rightarrow> bool"
  for store status handler ident where
  start: "claim_reachable store status handler ident [] w"
| deliver: "claim_reachable store status handler ident ws w \<Longrightarrow>
    claim_reachable store status handler ident (ws @ [(m, AtClaim)]) w"
| worker: "claim_reachable store status handler ident (us @ (m, pc) # vs) w \<Longrightarrow>
    claim_step store handler ident m pc w = Some (pc', w') \<Longrightarrow>
    claim_reachable store status handler ident (us @ (m, pc') # vs) w'"
| other: "claim_reachable store status handler ident ws w \<Longrightarrow> status w' ident = status w ident \<Longrightarrow>
    claim_reachable store status handler ident ws w'"

text \<open>A worker that holds the claim.\<close>

fun holding :: "claim_pc \<Rightarrow> bool" where
  "holding AtHandler = True"
| "holding AtMark = True"
| "holding (AtRelease l e) = True"
| "holding _ = False"

definition holders :: "(msg \<times> claim_pc) list \<Rightarrow> nat" where
  "holders ws = length (filter (\<lambda>(m, pc). holding pc) ws)"

lemma holders_simps [simp]:
  "holders [] = 0" "holders (us @ vs) = holders us + holders vs"
  "holders ((m, pc) # vs) = of_bool (holding pc) + holders vs"
  by (simp_all add: holders_def)

text \<open>The handler leaves the store's entry for this id alone.\<close>

definition keeps_status :: "('w \<Rightarrow> string \<Rightarrow> claim_status) \<Rightarrow> string \<Rightarrow> 'w MsgHandler \<Rightarrow> bool" where
  "keeps_status status ident handler \<longleftrightarrow> (\<forall>m w. status (snd (handler m w)) ident = status w ident)"

context claim_laws
begin

lemma claim_step_holding:
  assumes "claim_step store handler ident m pc w = Some (pc', w')" "keeps_status status ident handler"
  shows "holding pc' \<Longrightarrow> \<not> holding pc \<Longrightarrow> status w ident = Free \<and> status w' ident \<noteq> Free"
    "holding pc' \<Longrightarrow> holding pc \<Longrightarrow> status w ident \<noteq> Free \<Longrightarrow> status w' ident \<noteq> Free"
    "\<not> holding pc' \<Longrightarrow> \<not> holding pc \<Longrightarrow> status w ident \<noteq> Free \<Longrightarrow> status w' ident \<noteq> Free"
proof -
  have h: "handler m w = (r, w1) \<Longrightarrow> status w1 ident = status w ident" for r w1
    using assms(2) by (metis keeps_status_def snd_conv)
  show "holding pc' \<Longrightarrow> \<not> holding pc \<Longrightarrow> status w ident = Free \<and> status w' ident \<noteq> Free"
    using assms(1) claim_law [of ident w]
    by (cases pc) (auto simp: claim_step_def split: prod.splits sum.splits if_splits)
  show "holding pc' \<Longrightarrow> holding pc \<Longrightarrow> status w ident \<noteq> Free \<Longrightarrow> status w' ident \<noteq> Free"
    using assms(1) h mark_law [of ident w]
    by (cases pc) (auto simp: claim_step_def map_prod_def split: prod.splits option.splits handler_result.splits)
  show "\<not> holding pc' \<Longrightarrow> \<not> holding pc \<Longrightarrow> status w ident \<noteq> Free \<Longrightarrow> status w' ident \<noteq> Free"
    using assms(1) claim_law [of ident w] seen_law [of ident w]
    by (cases pc) (auto simp: claim_step_def split: prod.splits sum.splits if_splits)
qed

lemma one_holder:
  assumes "claim_reachable store status handler ident ws w" "keeps_status status ident handler"
  shows "holders ws \<le> 1 \<and> (holders ws = 1 \<longrightarrow> status w ident \<noteq> Free)"
  using assms(1)
proof (induction rule: claim_reachable.induct)
  case (worker us m pc vs w pc' w')
  note s = claim_step_holding [OF worker.hyps(2) assms(2)]
  show ?case
    using worker.IH s by (cases "holding pc"; cases "holding pc'") auto
qed auto

end

section \<open>The key-value store keeps the promise\<close>

text \<open>
  What nats.go documents of a bucket, with \<open>K w k\<close> the value under a key. A call that fails for a
  reason other than the two named ones may or may not have reached the server.
\<close>

definition kv_laws :: "'w KeyValue \<Rightarrow> ('w \<Rightarrow> string \<Rightarrow> bytes option) \<Rightarrow> bool" where
  "kv_laws kv K \<longleftrightarrow>
     (\<forall>k w r w'. kv_Get kv k w = (r, w') \<longrightarrow> K w' = K w
        \<and> (case r of Inr v \<Rightarrow> K w k = Some v | Inl e \<Rightarrow> errors_Is e NatsErrKeyNotFound \<longrightarrow> K w k = None))
   \<and> (\<forall>k v w e w'. kv_Put kv k v w = (e, w') \<longrightarrow>
        K w' = (K w)(k \<mapsto> v) \<or> e \<noteq> None \<and> K w' = K w)
   \<and> (\<forall>k v w e w'. kv_Create kv k v w = (e, w') \<longrightarrow>
        (case e of None \<Rightarrow> K w k = None \<and> K w' = (K w)(k \<mapsto> v)
         | Some x \<Rightarrow> if errors_Is x NatsErrKeyExists then K w k \<noteq> None \<and> K w' = K w
             else K w' = K w \<or> K w k = None \<and> K w' = (K w)(k \<mapsto> v)))
   \<and> (\<forall>k w e w'. kv_Purge kv k w = (e, w') \<longrightarrow>
        (case e of None \<Rightarrow> K w' = (K w)(k := None)
         | Some x \<Rightarrow> if errors_Is x NatsErrKeyNotFound then K w k = None \<and> K w' = K w
             else K w' = K w \<or> K w' = (K w)(k := None)))"

definition kv_status :: "('w \<Rightarrow> string \<Rightarrow> bytes option) \<Rightarrow> 'w \<Rightarrow> string \<Rightarrow> claim_status" where
  "kv_status K w k = (case K w k of None \<Rightarrow> Free | Some v \<Rightarrow> if isDoneValue v then Completed else Pending)"

lemma kv_values [simp]: "isDoneValue doneValue" "\<not> isDoneValue pendingValue"
  by (simp_all add: isDoneValue_def)

lemma kv_lawsD:
  assumes "kv_laws kv K"
  shows "kv_Get kv k w = (r, w') \<Longrightarrow> K w' = K w
      \<and> (case r of Inr v \<Rightarrow> K w k = Some v | Inl e \<Rightarrow> errors_Is e NatsErrKeyNotFound \<longrightarrow> K w k = None)"
    "kv_Put kv k v w = (e, w') \<Longrightarrow> K w' = (K w)(k \<mapsto> v) \<or> e \<noteq> None \<and> K w' = K w"
    "kv_Create kv k v w = (e, w') \<Longrightarrow>
      (case e of None \<Rightarrow> K w k = None \<and> K w' = (K w)(k \<mapsto> v)
       | Some x \<Rightarrow> if errors_Is x NatsErrKeyExists then K w k \<noteq> None \<and> K w' = K w
           else K w' = K w \<or> K w k = None \<and> K w' = (K w)(k \<mapsto> v))"
    "kv_Purge kv k w = (e, w') \<Longrightarrow>
      (case e of None \<Rightarrow> K w' = (K w)(k := None)
       | Some x \<Rightarrow> if errors_Is x NatsErrKeyNotFound then K w k = None \<and> K w' = K w
           else K w' = K w \<or> K w' = (K w)(k := None))"
  using assms unfolding kv_laws_def by blast+

lemma kvStore_claim_laws:
  assumes "kv_laws kv K"
  shows "claim_laws (NewKVStore kv) (kv_status K)"
proof
  note d = kv_lawsD [OF assms]
  fix ident and w w' :: 'a
  show "case r of Inr True \<Rightarrow> kv_status K w ident = Free \<and> kv_status K w' ident = Pending
      | Inr False \<Rightarrow> kv_status K w ident \<noteq> Free \<and> kv_status K w' ident = kv_status K w ident
      | Inl e \<Rightarrow> kv_status K w' ident = kv_status K w ident
          \<or> kv_status K w ident = Free \<and> kv_status K w' ident = Pending"
    if "cs_Claim (NewKVStore kv) ident w = (r, w')" for r
    using that d(3) [of ident pendingValue w]
    by (auto simp: NewKVStore_def kvStore_Claim_def kv_status_def split: option.splits prod.splits if_splits)
  show "kv_status K w' ident = kv_status K w ident
      \<and> (case s of Inl e \<Rightarrow> True | Inr b \<Rightarrow> b = (kv_status K w ident = Completed))"
    if "cs_Seen (NewKVStore kv) ident w = (s, w')" for s
    using that d(1) [of ident w]
    by (auto simp: NewKVStore_def kvStore_Seen_def kv_status_def
        split: option.splits prod.splits sum.splits if_splits)
  show "kv_status K w' ident = Completed \<or> e \<noteq> None \<and> kv_status K w' ident = kv_status K w ident"
    if "cs_Mark (NewKVStore kv) ident w = (e, w')" for e
    using that d(2) [of ident doneValue w]
    by (cases "kv_Put kv ident doneValue w"; cases "ValidateKVKey ident")
      (auto simp: NewKVStore_def kvStore_Mark_def kv_status_def split: option.splits)
  show "kv_status K w' ident = Free \<or> e \<noteq> None \<and> kv_status K w' ident = kv_status K w ident"
    if "cs_Release (NewKVStore kv) ident w = (e, w')" for e
  proof (cases "ValidateKVKey ident")
    case None
    then show ?thesis using that d(4) [of ident w]
      by (auto simp: NewKVStore_def kvStore_Release_def kv_status_def split: option.splits prod.splits if_splits)
  next
    case (Some x)
    with that have "e = Some x" "w' = w" by (simp_all add: NewKVStore_def kvStore_Release_def)
    then show ?thesis by simp
  qed
qed

text \<open>A bucket in memory, on which every call succeeds.\<close>

definition mem_kv :: "(string \<times> bytes) list KeyValue" where
  "mem_kv = \<lparr>
     kv_Get = (\<lambda>k w. (case map_of w k of None \<Rightarrow> Inl (ESent NatsErrKeyNotFound) | Some v \<Rightarrow> Inr v, w)),
     kv_Put = (\<lambda>k v w. (None, AList.update k v w)),
     kv_Create = (\<lambda>k v w. if map_of w k = None then (None, AList.update k v w) else (Some (ESent NatsErrKeyExists), w)),
     kv_Purge = (\<lambda>k w. (None, AList.delete k w)) \<rparr>"

lemma mem_kv_laws: "kv_laws mem_kv map_of"
  by (auto simp: kv_laws_def mem_kv_def update_conv' delete_conv' split: option.splits if_splits)

interpretation mem_store: claim_laws "NewKVStore mem_kv" "kv_status map_of"
  by (rule kvStore_claim_laws [OF mem_kv_laws])

section \<open>Properties\<close>


definition mem_id :: string where "mem_id = ''a''"

definition quiet_handler :: "'w MsgHandler" where
  "quiet_handler m w = (HReturn None, w)"

lemma mem_id_valid: "ValidateKVKey mem_id = None"
  by (simp add: mem_id_def) code_simp


text \<open>
  C15. The wrapped handler reports success, so that the message is acknowledged, only when the
  bucket holds the completion mark of its id; and for an id that has an entry it does not run the
  handler: what it returns and does is the same for every handler.
\<close>

theorem claim_success_is_completed:
  assumes "kv_laws kv K"
  shows "(withClaimHandler (NewKVStore kv) ident m handler w = (HReturn None, w') \<longrightarrow>
       (\<exists>v. K w' ident = Some v \<and> isDoneValue v))
    \<and> (K w ident \<noteq> None \<longrightarrow>
       withClaimHandler (NewKVStore kv) ident m handler w = withClaimHandler (NewKVStore kv) ident m handler' w)"
proof
  note laws = kvStore_claim_laws [OF assms]
  show "withClaimHandler (NewKVStore kv) ident m handler w = (HReturn None, w') \<longrightarrow>
      (\<exists>v. K w' ident = Some v \<and> isDoneValue v)"
    using claim_laws.success_completed [OF laws, of ident m handler w w']
    by (auto simp: kv_status_def split: option.splits if_splits)
  have "kv_status K w ident \<noteq> Free" if "K w ident \<noteq> None" using that by (auto simp: kv_status_def split: if_splits)
  then show "K w ident \<noteq> None \<longrightarrow>
      withClaimHandler (NewKVStore kv) ident m handler w = withClaimHandler (NewKVStore kv) ident m handler' w"
    using claim_laws.not_free_not_handled(1) [OF laws] by (metis prod.collapse)
qed

theorem claim_success_is_completed_witness:
  "\<exists>w. withClaimHandler (NewKVStore mem_kv) mem_id demo_msg quiet_handler [] = (HReturn None, w)
     \<and> (\<exists>v. map_of w mem_id = Some v \<and> isDoneValue v)"
proof -
  have "\<exists>w. withClaimHandler (NewKVStore mem_kv) mem_id demo_msg quiet_handler [] = (HReturn None, w)"
    by (simp add: withClaimHandler_def NewKVStore_def kvStore_Claim_def kvStore_Mark_def mem_id_valid mem_kv_def
        quiet_handler_def)
  then show ?thesis using claim_success_is_completed [OF mem_kv_laws] by blast
qed

text \<open>
  A handler that panics blocks its message: the claim is not released, so the entry stays
  pending, and every later delivery with this id is refused without being handled, with an error
  and never with success, as long as the bucket keeps the entry.
\<close>

theorem panic_blocks_id:
  assumes "kv_laws kv K" "keeps_status (kv_status K) ident handler"
    and "withClaimHandler (NewKVStore kv) ident m handler w = (r, w')" "r = HPanicValue \<or> (\<exists>e. r = HPanicError e)"
    and "withClaimHandler (NewKVStore kv) ident m2 handler2 w' = (r2, w2)"
  shows "kv_status K w' ident = Pending \<and> r2 \<noteq> HReturn None \<and> kv_status K w2 ident = Pending"
proof -
  note laws = kvStore_claim_laws [OF assms(1)]
  obtain c w1 where c: "cs_Claim (NewKVStore kv) ident w = (c, w1)" by (cases "cs_Claim (NewKVStore kv) ident w")
  have "release_after (NewKVStore kv) l ident e v \<noteq> (r, w')" for l e v
    using assms(4) by (auto simp: release_after_def split: prod.splits option.splits)
  then have "c = Inr True" "handler m w1 = (r, w')"
    using assms(3,4) c
    by (auto simp: withClaimHandler_def split: sum.splits if_splits prod.splits handler_result.splits option.splits)
  then have pending: "kv_status K w' ident = Pending"
    using claim_laws.claim_law [OF laws c] assms(2) by (simp add: keeps_status_def) (metis snd_conv)
  then have keep: "kv_status K w2 ident = Pending"
    using claim_laws.not_free_not_handled(2) [OF laws _ assms(5)] by simp
  moreover have "r2 \<noteq> HReturn None"
    using claim_laws.success_completed [OF laws, of ident m2 handler2 w' w2] assms(5) keep by auto
  ultimately show ?thesis using pending by simp
qed

theorem panic_blocks_id_witness:
  "\<exists>w. withClaimHandler (NewKVStore mem_kv) mem_id demo_msg (\<lambda>_ w. (HPanicValue, w)) [] = (HPanicValue, w)
     \<and> fst (withClaimHandler (NewKVStore mem_kv) mem_id demo_msg quiet_handler w) \<noteq> HReturn None"
proof -
  let ?p = "\<lambda>_ w. (HPanicValue, w)"
  have "withClaimHandler (NewKVStore mem_kv) mem_id demo_msg ?p [] = (HPanicValue, [(mem_id, pendingValue)])"
    by (simp add: withClaimHandler_def NewKVStore_def kvStore_Claim_def mem_id_valid mem_kv_def)
  moreover have "keeps_status (kv_status map_of) mem_id ?p" by (simp add: keeps_status_def)
  ultimately show ?thesis
    using panic_blocks_id [OF mem_kv_laws _ _ _ prod.collapse [symmetric]] by blast
qed

end
