(* ===== verification/Managers.thy ===== *)
theory Managers
  imports Payload Validate Page
begin

text \<open>
  The management of streams (\<open>stream_manager.go\<close>), consumers (\<open>consumer_manager.go\<close>) and key-value
  buckets (\<open>kv_manager.go\<close>), with \<open>ctxutil.go\<close>. The calls of the JetStream server are the record
  \<open>js_env\<close>. Its configuration types are records of the fields the sources use; stream policies and
  storage types are numbers, of which only 0 is looked at. Sequence numbers are natural numbers; where a sum can leave the
  64 bits of \<open>uint64\<close> the wrap-around is written out by \<open>u64\<close>.
\<close>

definition u64 :: "nat \<Rightarrow> nat" where "u64 n = n mod 2 ^ 64"

lemma u64_id [simp]: "n < 2 ^ 64 \<Longrightarrow> u64 n = n"
  by (simp add: u64_def)

section \<open>Types\<close>

record StreamConfig =
  s_Name :: string
  s_Description :: string
  s_Subjects :: "string list"
  s_Storage :: nat
  s_MaxBytes :: int
  s_MaxAge :: duration
  s_MaxMsgs :: int
  s_Discard :: nat
  s_DuplicateWindow :: duration
  s_MaxConsumers :: int
  s_Retention :: nat
  s_Replicas :: int
  s_MaxMsgSize :: int
  s_NoAck :: bool
  s_Mirror :: "string option"
  s_Sources :: "string list"

definition no_stream_config :: StreamConfig where
  "no_stream_config = \<lparr> s_Name = [], s_Description = [], s_Subjects = [], s_Storage = 0, s_MaxBytes = 0,
     s_MaxAge = 0, s_MaxMsgs = 0, s_Discard = 0, s_DuplicateWindow = 0, s_MaxConsumers = 0, s_Retention = 0,
     s_Replicas = 0, s_MaxMsgSize = 0, s_NoAck = False, s_Mirror = None, s_Sources = [] \<rparr>"

record StreamInfo =
  si_Config :: StreamConfig
  si_FirstSeq :: nat
  si_LastSeq :: nat

record RawStreamMsg =
  rm_Subject :: string
  rm_Sequence :: nat
  rm_Header :: header
  rm_Data :: bytes
  rm_Time :: gotime

text \<open>
  The policies of \<open>protocol.go\<close>. The sources rely on \<open>DeliverAll\<close>, \<open>ReplayInstant\<close> and \<open>AckNone\<close>
  being the zero values of their types (\<open>config.go\<close> 280).
\<close>

datatype DeliverPolicy = DeliverAll | DeliverLast | DeliverNew | DeliverByStartSequence
  | DeliverByStartTime | DeliverLastPerSubject
datatype ReplayPolicy = ReplayInstant | ReplayOriginal
datatype AckPolicy = AckNone | AckAll | AckExplicit

text \<open>The consumer configuration of nats.go, and the library's own with its flags.\<close>

record NatsConsumerConfig =
  cc_Durable :: string
  cc_FilterSubject :: string
  cc_FilterSubjects :: "string list"
  cc_DeliverSubject :: string
  cc_DeliverGroup :: string
  cc_DeliverPolicy :: DeliverPolicy
  cc_ReplayPolicy :: ReplayPolicy
  cc_AckPolicy :: AckPolicy
  cc_MaxDeliver :: int
  cc_AckWait :: duration
  cc_MaxAckPending :: int
  cc_RateLimit :: nat
  cc_Heartbeat :: duration
  cc_InactiveThreshold :: duration
  cc_Replicas :: int
  cc_MaxWaiting :: int
  cc_OptStartSeq :: nat
  cc_OptStartTime :: "gotime option"
  cc_FlowControl :: bool
  cc_MemoryStorage :: bool
  cc_Metadata :: "(string \<times> string) list"

record DurableConsumerConfig = NatsConsumerConfig +
  dc_HasAckPolicy :: bool
  dc_HasDeliverPolicy :: bool
  dc_HasReplayPolicy :: bool

section \<open>The server\<close>

record 'w js_env =
  js_ctxErr :: "'w \<Rightarrow> err option"
  js_lost :: "'w \<Rightarrow> err option"
  js_AddStream :: "StreamConfig \<Rightarrow> 'w \<Rightarrow> StreamInfo result \<times> 'w"
  js_UpdateStream :: "StreamConfig \<Rightarrow> 'w \<Rightarrow> StreamInfo result \<times> 'w"
  js_DeleteStream :: "string \<Rightarrow> 'w \<Rightarrow> err option \<times> 'w"
  js_StreamInfo :: "string \<Rightarrow> 'w \<Rightarrow> StreamInfo result \<times> 'w"
  js_StreamNames :: "'w \<Rightarrow> string list \<times> 'w"
  js_PurgeStream :: "string \<Rightarrow> string \<Rightarrow> 'w \<Rightarrow> err option \<times> 'w"
  js_GetMsg :: "string \<Rightarrow> nat \<Rightarrow> 'w \<Rightarrow> RawStreamMsg result \<times> 'w"
  js_GetLastMsg :: "string \<Rightarrow> string \<Rightarrow> 'w \<Rightarrow> RawStreamMsg result \<times> 'w"
  js_AddConsumer :: "string \<Rightarrow> NatsConsumerConfig \<Rightarrow> 'w \<Rightarrow> NatsConsumerConfig result \<times> 'w"
  js_UpdateConsumer :: "string \<Rightarrow> NatsConsumerConfig \<Rightarrow> 'w \<Rightarrow> NatsConsumerConfig result \<times> 'w"
  js_DeleteConsumer :: "string \<Rightarrow> string \<Rightarrow> 'w \<Rightarrow> err option \<times> 'w"
  js_ConsumerInfo :: "string \<Rightarrow> string \<Rightarrow> 'w \<Rightarrow> NatsConsumerConfig result \<times> 'w"
  js_ConsumerNames :: "string \<Rightarrow> 'w \<Rightarrow> string list \<times> 'w"

text \<open>
  \<open>js_ctxErr\<close> is \<open>ctx.Err()\<close>, nil for a nil context. \<open>runWithContextValue\<close> runs the call in a goroutine
  and may return early: \<open>js_lost\<close> is the error of the context when it was done before the call
  returned. The call takes effect in either case. Of a consumer's info only its configuration is
  used here.
\<close>

definition ctxReady :: "'w js_env \<Rightarrow> 'w \<Rightarrow> err option" where
  "ctxReady env w = js_ctxErr env w"

definition runWithContextValue :: "'w js_env \<Rightarrow> ('w \<Rightarrow> 'a result \<times> 'w) \<Rightarrow> 'w \<Rightarrow> 'a result \<times> 'w" where
  "runWithContextValue env fn w =
     (case ctxReady env w of
        Some e \<Rightarrow> (Inl e, w)
      | None \<Rightarrow> (case fn w of (r, w1) \<Rightarrow> case js_lost env w1 of Some e \<Rightarrow> (Inl e, w1) | None \<Rightarrow> (r, w1)))"

definition runWithContext :: "'w js_env \<Rightarrow> ('w \<Rightarrow> err option \<times> 'w) \<Rightarrow> 'w \<Rightarrow> err option \<times> 'w" where
  "runWithContext env fn w =
     (case ctxReady env w of
        Some e \<Rightarrow> (Some e, w)
      | None \<Rightarrow> (case fn w of (r, w1) \<Rightarrow> case js_lost env w1 of Some e \<Rightarrow> (Some e, w1) | None \<Rightarrow> (r, w1)))"

text \<open>\<open>if err != nil { return ..., err }\<close> before a call, and the wrapping of the call's error.\<close>

definition guarded :: "err option \<Rightarrow> ('w \<Rightarrow> 'a result \<times> 'w) \<Rightarrow> 'w \<Rightarrow> 'a result \<times> 'w" where
  "guarded e fn w = (case e of Some e \<Rightarrow> (Inl e, w) | None \<Rightarrow> fn w)"

definition guarded_err :: "err option \<Rightarrow> ('w \<Rightarrow> err option \<times> 'w) \<Rightarrow> 'w \<Rightarrow> err option \<times> 'w" where
  "guarded_err e fn w = (case e of Some e \<Rightarrow> (Some e, w) | None \<Rightarrow> fn w)"

definition wrapping :: "string \<Rightarrow> ('w \<Rightarrow> 'a result \<times> 'w) \<Rightarrow> 'w \<Rightarrow> 'a result \<times> 'w" where
  "wrapping label fn w = map_prod (map_sum (wrap1 label) (\<lambda>x. x)) (\<lambda>w. w) (fn w)"

definition wrapping_err :: "string \<Rightarrow> ('w \<Rightarrow> err option \<times> 'w) \<Rightarrow> 'w \<Rightarrow> err option \<times> 'w" where
  "wrapping_err label fn w = map_prod (map_option (wrap1 label)) (\<lambda>w. w) (fn w)"

lemmas manager_ops = guarded_def guarded_err_def wrapping_def wrapping_err_def runWithContextValue_def
  runWithContext_def ctxReady_def

section \<open>Streams\<close>

abbreviation defaultStreamReplicas :: int where "defaultStreamReplicas \<equiv> 1"

definition toNatsStreamConfig :: "StreamConfig \<Rightarrow> StreamConfig" where
  "toNatsStreamConfig cfg =
     (let sc = no_stream_config\<lparr> s_Name := s_Name cfg, s_Description := s_Description cfg,
            s_Subjects := s_Subjects cfg, s_Replicas := s_Replicas cfg, s_MaxMsgs := s_MaxMsgs cfg,
            s_MaxBytes := s_MaxBytes cfg, s_MaxAge := s_MaxAge cfg, s_MaxMsgSize := s_MaxMsgSize cfg,
            s_NoAck := s_NoAck cfg, s_MaxConsumers := s_MaxConsumers cfg \<rparr>;
          sc = (if s_Retention cfg \<noteq> 0 then sc\<lparr> s_Retention := s_Retention cfg \<rparr> else sc);
          sc = (if s_Storage cfg \<noteq> 0 then sc\<lparr> s_Storage := s_Storage cfg \<rparr> else sc);
          sc = (if s_Discard cfg \<noteq> 0 then sc\<lparr> s_Discard := s_Discard cfg \<rparr> else sc);
          sc = (if s_DuplicateWindow cfg > 0 then sc\<lparr> s_DuplicateWindow := s_DuplicateWindow cfg \<rparr> else sc);
          sc = (if s_Mirror cfg \<noteq> None then sc\<lparr> s_Mirror := s_Mirror cfg \<rparr> else sc) in
      if s_Sources cfg \<noteq> [] then sc\<lparr> s_Sources := s_Sources cfg \<rparr> else sc)"

definition with_default_replicas :: "StreamConfig \<Rightarrow> StreamConfig" where
  "with_default_replicas sc = (if s_Replicas sc = 0 then sc\<lparr> s_Replicas := defaultStreamReplicas \<rparr> else sc)"

text \<open>The configuration sent when the stream exists already: the replicas it has are kept.\<close>

definition update_config :: "'w js_env \<Rightarrow> StreamConfig \<Rightarrow> 'w \<Rightarrow> StreamConfig \<times> 'w" where
  "update_config env cfg w =
     (let sc = toNatsStreamConfig cfg in
      if s_Replicas cfg = 0 then
        (case js_StreamInfo env (s_Name cfg) w of
           (Inr existing, w1) \<Rightarrow> (with_default_replicas (sc\<lparr> s_Replicas := s_Replicas (si_Config existing) \<rparr>), w1)
         | (Inl e, w1) \<Rightarrow> (with_default_replicas sc, w1))
      else (with_default_replicas sc, w))"

definition CreateOrUpdateStream :: "'w js_env \<Rightarrow> StreamConfig \<Rightarrow> 'w \<Rightarrow> StreamInfo result \<times> 'w" where
  "CreateOrUpdateStream env cfg w =
     guarded (then_err (ctxReady env w) (then_err (ValidateStreamName (s_Name cfg)) (ValidateSubjects (s_Subjects cfg))))
       (runWithContextValue env (\<lambda>w.
          case js_AddStream env (with_default_replicas (toNatsStreamConfig cfg)) w of
            (Inr info, w1) \<Rightarrow> (Inr info, w1)
          | (Inl addErr, w1) \<Rightarrow>
              (case update_config env cfg w1 of (updateCfg, w2) \<Rightarrow>
               case js_UpdateStream env updateCfg w2 of
                 (Inl updateErr, w3) \<Rightarrow>
                   (Inl (EWrap ''create or update stream %q: add: %w; update: %w'' [addErr, updateErr]), w3)
               | (Inr info, w3) \<Rightarrow> (Inr info, w3)))) w"

definition AddStream :: "'w js_env \<Rightarrow> StreamConfig option \<Rightarrow> 'w \<Rightarrow> StreamInfo result \<times> 'w" where
  "AddStream env cfg w =
     guarded (ctxReady env w) (\<lambda>w. case cfg of
         None \<Rightarrow> (Inl (wrap1 ''add stream: %w'' (ESent ErrEmptyConfigNotAllowed)), w)
       | Some cfg \<Rightarrow>
           guarded (then_err (ValidateStreamName (s_Name cfg)) (ValidateSubjects (s_Subjects cfg)))
             (runWithContextValue env (wrapping ''add stream %q: %w'' (js_AddStream env cfg))) w) w"

definition UpdateStream :: "'w js_env \<Rightarrow> StreamConfig option \<Rightarrow> 'w \<Rightarrow> StreamInfo result \<times> 'w" where
  "UpdateStream env cfg w =
     guarded (ctxReady env w) (\<lambda>w. case cfg of
         None \<Rightarrow> (Inl (wrap1 ''update stream: %w'' (ESent ErrEmptyConfigNotAllowed)), w)
       | Some cfg \<Rightarrow>
           guarded (ValidateStreamName (s_Name cfg))
             (runWithContextValue env (wrapping ''update stream %q: %w'' (js_UpdateStream env cfg))) w) w"

definition DeleteStream :: "'w js_env \<Rightarrow> string \<Rightarrow> 'w \<Rightarrow> err option \<times> 'w" where
  "DeleteStream env name w =
     guarded_err (then_err (ctxReady env w) (ValidateStreamName name))
       (runWithContext env (wrapping_err ''delete stream %q: %w'' (js_DeleteStream env name))) w"

definition StreamInfo :: "'w js_env \<Rightarrow> string \<Rightarrow> 'w \<Rightarrow> StreamInfo result \<times> 'w" where
  "StreamInfo env name w =
     guarded (then_err (ctxReady env w) (ValidateStreamName name))
       (runWithContextValue env (wrapping ''stream info %q: %w'' (js_StreamInfo env name))) w"

text \<open>\<open>sort.Strings\<close>: bytewise order.\<close>

fun string_le :: "string \<Rightarrow> string \<Rightarrow> bool" where
  "string_le [] _ = True"
| "string_le (_ # _) [] = False"
| "string_le (a # as) (b # bs) = ((of_char a :: nat) < of_char b \<or> a = b \<and> string_le as bs)"

fun insert_string :: "string \<Rightarrow> string list \<Rightarrow> string list" where
  "insert_string x [] = [x]"
| "insert_string x (y # ys) = (if string_le x y then x # y # ys else y # insert_string x ys)"

definition sort_strings :: "string list \<Rightarrow> string list" where
  "sort_strings xs = foldr insert_string xs []"

definition ListStreamsPage ::
  "'w js_env \<Rightarrow> int \<Rightarrow> int \<Rightarrow> 'w \<Rightarrow> (StreamInfo list result \<times> nat \<times> 'w) option" where
  "ListStreamsPage env offset limit w =
     (case js_StreamNames env w of (names, w1) \<Rightarrow>
        pageInfos (sort_strings names) offset limit
          (\<lambda>name w. case js_StreamInfo env name w of
               (Inl e, w') \<Rightarrow> (Inl (if errors_Is e NatsErrStreamNotFound then e
                                  else wrap1 ''list streams: info %q: %w'' e), w')
             | (Inr info, w') \<Rightarrow> (Inr info, w'))
          (\<lambda>e. errors_Is e NatsErrStreamNotFound) w1)"

definition PurgeStream :: "'w js_env \<Rightarrow> string \<Rightarrow> string \<Rightarrow> 'w \<Rightarrow> err option \<times> 'w" where
  "PurgeStream env name subject w =
     guarded_err (then_err (ValidateStreamName name) (if IsEmpty subject then None else ValidateSubject subject))
       (wrapping_err ''purge stream %q: %w'' (js_PurgeStream env name subject)) w"

definition GetMsg :: "'w js_env \<Rightarrow> string \<Rightarrow> nat \<Rightarrow> 'w \<Rightarrow> RawStreamMsg result \<times> 'w" where
  "GetMsg env stream seq w =
     guarded (ValidateStreamName stream) (wrapping ''get msg stream=%q seq=%d: %w'' (js_GetMsg env stream seq)) w"

definition GetLastMsg :: "'w js_env \<Rightarrow> string \<Rightarrow> string \<Rightarrow> 'w \<Rightarrow> RawStreamMsg result \<times> 'w" where
  "GetLastMsg env stream subject w =
     guarded (then_err (ValidateStreamName stream) (ValidateSubject subject))
       (wrapping ''get last msg stream=%q subject=%q: %w'' (js_GetLastMsg env stream subject)) w"

text \<open>The walk over a gap; \<^const>\<open>None\<close> is a walk that does not end, as \<open>next\<close> wraps around.\<close>

partial_function (option) walk_next ::
  "'w js_env \<Rightarrow> string \<Rightarrow> nat \<Rightarrow> nat \<Rightarrow> 'w \<Rightarrow> (RawStreamMsg result \<times> 'w) option" where
  "walk_next env stream next tip w =
     (if next \<le> tip then
        (case js_GetMsg env stream next w of
           (Inr m, w1) \<Rightarrow> Some (Inr m, w1)
         | (Inl e, w1) \<Rightarrow>
             if errors_Is e NatsErrMsgNotFound then walk_next env stream (u64 (next + 1)) tip w1
             else Some (Inl (wrap1 ''get next msg stream=%q after=%d at=%d: %w'' e), w1))
      else Some (Inl (wrap1 ''get next msg stream=%q after=%d: %w'' (ESent NatsErrMsgNotFound)), w))"

definition getNextMsgAfterKnownLast ::
  "'w js_env \<Rightarrow> string \<Rightarrow> nat \<Rightarrow> nat \<Rightarrow> 'w \<Rightarrow> (RawStreamMsg result \<times> 'w) option" where
  "getNextMsgAfterKnownLast env stream seq tip w = walk_next env stream (u64 (seq + 1)) tip w"

definition GetNextMsgAfter ::
  "'w js_env \<Rightarrow> string \<Rightarrow> nat \<Rightarrow> 'w \<Rightarrow> (RawStreamMsg result \<times> 'w) option" where
  "GetNextMsgAfter env stream seq w =
     (case ValidateStreamName stream of
        Some e \<Rightarrow> Some (Inl e, w)
      | None \<Rightarrow>
          (case StreamInfo env stream w of
             (Inl e, w1) \<Rightarrow> Some (Inl e, w1)
           | (Inr info, w1) \<Rightarrow> getNextMsgAfterKnownLast env stream seq (si_LastSeq info) w1))"

section \<open>Consumers\<close>

definition toNatsConsumerConfig :: "DurableConsumerConfig \<Rightarrow> NatsConsumerConfig" where
  "toNatsConsumerConfig cfg =
     \<lparr> cc_Durable = cc_Durable cfg, cc_FilterSubject = cc_FilterSubject cfg,
       cc_FilterSubjects = cc_FilterSubjects cfg, cc_DeliverSubject = cc_DeliverSubject cfg,
       cc_DeliverGroup = cc_DeliverGroup cfg,
       cc_DeliverPolicy = (if dc_HasDeliverPolicy cfg then cc_DeliverPolicy cfg else DeliverAll),
       cc_ReplayPolicy = (if \<not> dc_HasReplayPolicy cfg \<and> cc_ReplayPolicy cfg = ReplayInstant then ReplayInstant
                          else cc_ReplayPolicy cfg),
       cc_AckPolicy = (if \<not> dc_HasAckPolicy cfg \<and> cc_AckPolicy cfg = AckNone then AckExplicit
                       else cc_AckPolicy cfg),
       cc_MaxDeliver = cc_MaxDeliver cfg, cc_AckWait = cc_AckWait cfg, cc_MaxAckPending = cc_MaxAckPending cfg,
       cc_RateLimit = cc_RateLimit cfg, cc_Heartbeat = cc_Heartbeat cfg,
       cc_InactiveThreshold = cc_InactiveThreshold cfg, cc_Replicas = cc_Replicas cfg,
       cc_MaxWaiting = cc_MaxWaiting cfg, cc_OptStartSeq = cc_OptStartSeq cfg,
       cc_OptStartTime = cc_OptStartTime cfg, cc_FlowControl = cc_FlowControl cfg,
       cc_MemoryStorage = cc_MemoryStorage cfg, cc_Metadata = cc_Metadata cfg \<rparr>"

definition validate_filters :: "string \<Rightarrow> string list \<Rightarrow> err option" where
  "validate_filters subj subjs =
     then_err (if IsEmpty subj then None else ValidateSubject subj) (ValidateSubjects subjs)"

text \<open>What happens when the consumer could not be added: the existing one is updated, if it may be.\<close>

definition update_consumer ::
  "'w js_env \<Rightarrow> string \<Rightarrow> DurableConsumerConfig \<Rightarrow> err \<Rightarrow> 'w \<Rightarrow> NatsConsumerConfig result \<times> 'w" where
  "update_consumer env stream cfg addErr w =
     (case js_ConsumerInfo env stream (cc_Durable cfg) w of
        (Inl infoErr, w1) \<Rightarrow> (Inl (wrap1 ''create consumer stream=%q durable=%q: %w'' addErr), w1)
      | (Inr existing, w1) \<Rightarrow>
          let cc0 = toNatsConsumerConfig cfg;
              cc = (if dc_HasDeliverPolicy cfg then cc0
                    else cc0\<lparr> cc_DeliverPolicy := cc_DeliverPolicy existing \<rparr>) in
          if cc_DeliverPolicy existing \<noteq> cc_DeliverPolicy cc then
            (Inl (wrap1 ''create or update consumer stream=%q durable=%q: deliver policy %v -> %v: %w''
                   (ESent ErrConsumerRecreateRequired)), w1)
          else wrapping ''update consumer stream=%q durable=%q: %w'' (js_UpdateConsumer env stream cc) w1)"

definition CreateOrUpdateConsumer ::
  "'w js_env \<Rightarrow> string \<Rightarrow> DurableConsumerConfig \<Rightarrow> 'w \<Rightarrow> NatsConsumerConfig result \<times> 'w" where
  "CreateOrUpdateConsumer env stream cfg w =
     guarded (then_err (ctxReady env w) (then_err (ValidateStreamName stream)
       (then_err (ValidateDurableName (cc_Durable cfg))
         (validate_filters (cc_FilterSubject cfg) (cc_FilterSubjects cfg)))))
       (runWithContextValue env (\<lambda>w.
          case js_AddConsumer env stream (toNatsConsumerConfig cfg) w of
            (Inr info, w1) \<Rightarrow> (Inr info, w1)
          | (Inl e, w1) \<Rightarrow> update_consumer env stream cfg e w1)) w"

definition AddConsumer ::
  "'w js_env \<Rightarrow> string \<Rightarrow> NatsConsumerConfig option \<Rightarrow> 'w \<Rightarrow> NatsConsumerConfig result \<times> 'w" where
  "AddConsumer env stream cfg w =
     guarded (then_err (ctxReady env w) (ValidateStreamName stream)) (\<lambda>w. case cfg of
         None \<Rightarrow> (Inl (wrap1 ''add consumer stream=%q: %w'' (ESent ErrEmptyConfigNotAllowed)), w)
       | Some cfg \<Rightarrow>
           guarded (then_err (if IsEmpty (cc_Durable cfg) then None else ValidateDurableName (cc_Durable cfg))
               (validate_filters (cc_FilterSubject cfg) (cc_FilterSubjects cfg)))
             (runWithContextValue env
               (wrapping ''add consumer stream=%q durable=%q: %w'' (js_AddConsumer env stream cfg))) w) w"

definition UpdateConsumer ::
  "'w js_env \<Rightarrow> string \<Rightarrow> NatsConsumerConfig option \<Rightarrow> 'w \<Rightarrow> NatsConsumerConfig result \<times> 'w" where
  "UpdateConsumer env stream cfg w =
     guarded (then_err (ctxReady env w) (ValidateStreamName stream)) (\<lambda>w. case cfg of
         None \<Rightarrow> (Inl (wrap1 ''update consumer stream=%q: %w'' (ESent ErrEmptyConfigNotAllowed)), w)
       | Some cfg \<Rightarrow>
           guarded (if IsEmpty (cc_Durable cfg) then None else ValidateDurableName (cc_Durable cfg))
             (runWithContextValue env
               (wrapping ''update consumer stream=%q durable=%q: %w'' (js_UpdateConsumer env stream cfg))) w) w"

definition DeleteConsumer :: "'w js_env \<Rightarrow> string \<Rightarrow> string \<Rightarrow> 'w \<Rightarrow> err option \<times> 'w" where
  "DeleteConsumer env stream durable w =
     guarded_err (then_err (ctxReady env w) (then_err (ValidateStreamName stream) (ValidateDurableName durable)))
       (runWithContext env
         (wrapping_err ''delete consumer stream=%q durable=%q: %w'' (js_DeleteConsumer env stream durable))) w"

definition ConsumerInfo :: "'w js_env \<Rightarrow> string \<Rightarrow> string \<Rightarrow> 'w \<Rightarrow> NatsConsumerConfig result \<times> 'w" where
  "ConsumerInfo env stream durable w =
     guarded (then_err (ctxReady env w) (then_err (ValidateStreamName stream) (ValidateDurableName durable)))
       (runWithContextValue env
         (wrapping ''consumer info stream=%q durable=%q: %w'' (js_ConsumerInfo env stream durable))) w"

definition ConsumerNames :: "'w js_env \<Rightarrow> string \<Rightarrow> 'w \<Rightarrow> string list result \<times> 'w" where
  "ConsumerNames env stream w =
     guarded (ValidateStreamName stream)
       (\<lambda>w. case js_ConsumerNames env stream w of (names, w1) \<Rightarrow> (Inr (sort_strings names), w1)) w"

definition ListConsumersPage ::
  "'w js_env \<Rightarrow> string \<Rightarrow> int \<Rightarrow> int \<Rightarrow> 'w \<Rightarrow> (NatsConsumerConfig list result \<times> nat \<times> 'w) option" where
  "ListConsumersPage env stream offset limit w =
     (case ConsumerNames env stream w of
        (Inl e, w1) \<Rightarrow> Some (Inl e, 0, w1)
      | (Inr names, w1) \<Rightarrow>
          pageInfos names offset limit
            (\<lambda>name w. case js_ConsumerInfo env stream name w of
                 (Inl e, w') \<Rightarrow> (Inl (if errors_Is e NatsErrConsumerNotFound then e
                                    else wrap1 ''list consumers stream=%q name=%q: %w'' e), w')
               | (Inr info, w') \<Rightarrow> (Inr info, w'))
            (\<lambda>e. errors_Is e NatsErrConsumerNotFound) w1)"

text \<open>\<open>PauseConsumer\<close> and \<open>ResumeConsumer\<close>: \<open>call\<close> is the one of the new API, when there is one.\<close>

definition with_js_v2 :: "string \<Rightarrow> ('w \<Rightarrow> err option \<times> 'w) option \<Rightarrow> string \<Rightarrow> string \<Rightarrow> 'w \<Rightarrow> err option \<times> 'w" where
  "with_js_v2 label call stream durable w =
     guarded_err (then_err (ValidateStreamName stream) (ValidateDurableName durable))
       (wrapping_err label (case call of None \<Rightarrow> (\<lambda>w. (Some (ESent ErrJetStreamV2Required), w)) | Some f \<Rightarrow> f)) w"

definition PauseConsumer :: "(gotime \<Rightarrow> 'w \<Rightarrow> err option \<times> 'w) option \<Rightarrow> string \<Rightarrow> string \<Rightarrow> gotime \<Rightarrow> 'w \<Rightarrow> err option \<times> 'w" where
  "PauseConsumer call stream durable pauseUntil w =
     with_js_v2 ''pause consumer stream=%q durable=%q: %w'' (map_option (\<lambda>f. f pauseUntil) call) stream durable w"

definition ResumeConsumer :: "('w \<Rightarrow> err option \<times> 'w) option \<Rightarrow> string \<Rightarrow> string \<Rightarrow> 'w \<Rightarrow> err option \<times> 'w" where
  "ResumeConsumer call stream durable w =
     with_js_v2 ''resume consumer stream=%q durable=%q: %w'' call stream durable w"

section \<open>Key-value buckets\<close>

record KeyValueConfig =
  kc_Bucket :: string
  kc_Description :: string
  kc_TTL :: duration
  kc_MaxBytes :: int
  kc_Storage :: nat
  kc_Replicas :: int
  kc_History :: nat
  kc_Compression :: bool

record KVBucketStatus =
  bs_Bucket :: string
  bs_Values :: nat
  bs_History :: int

record KVEntry =
  en_Created :: gotime
  en_Bucket :: string
  en_Key :: string
  en_Value :: bytes
  en_Revision :: nat

text \<open>
  An open bucket is known by its name. \<open>kb_CreateOrUpdate\<close> belongs to the new API, which may be
  missing. An entry the server returns carries no bucket name of its own.
\<close>

record 'w kv_env =
  kb_CreateOrUpdate :: "(KeyValueConfig \<Rightarrow> 'w \<Rightarrow> err option \<times> 'w) option"
  kb_Create :: "KeyValueConfig \<Rightarrow> 'w \<Rightarrow> err option \<times> 'w"
  kb_Open :: "string \<Rightarrow> 'w \<Rightarrow> err option \<times> 'w"
  kb_Delete :: "string \<Rightarrow> 'w \<Rightarrow> err option \<times> 'w"
  kb_Names :: "'w \<Rightarrow> string list \<times> 'w"
  kb_Status :: "string \<Rightarrow> 'w \<Rightarrow> KVBucketStatus result \<times> 'w"
  kb_Keys :: "string \<Rightarrow> 'w \<Rightarrow> string list result \<times> 'w"
  kb_Get :: "string \<Rightarrow> string \<Rightarrow> 'w \<Rightarrow> KVEntry result \<times> 'w"
  kb_Put :: "string \<Rightarrow> string \<Rightarrow> bytes \<Rightarrow> 'w \<Rightarrow> nat result \<times> 'w"
  kb_DeleteKey :: "string \<Rightarrow> string \<Rightarrow> 'w \<Rightarrow> err option \<times> 'w"
  kb_History :: "string \<Rightarrow> string \<Rightarrow> 'w \<Rightarrow> KVEntry list result \<times> 'w"

definition toJetStreamKeyValueConfig :: "KeyValueConfig \<Rightarrow> KeyValueConfig" where
  "toJetStreamKeyValueConfig cfg = cfg\<lparr> kc_History := (if kc_History cfg = 0 then 1 else kc_History cfg) \<rparr>"

definition kvEntryFrom :: "string \<Rightarrow> KVEntry \<Rightarrow> KVEntry" where
  "kvEntryFrom bucket entry = entry\<lparr> en_Bucket := bucket \<rparr>"

text \<open>A call that succeeds, then another: the first error, wrapped, ends both.\<close>

definition and_then ::
  "string \<Rightarrow> ('w \<Rightarrow> err option \<times> 'w) \<Rightarrow> ('w \<Rightarrow> 'a result \<times> 'w) \<Rightarrow> 'w \<Rightarrow> 'a result \<times> 'w" where
  "and_then label call k w = (case call w of (Some e, w1) \<Rightarrow> (Inl (wrap1 label e), w1) | (None, w1) \<Rightarrow> k w1)"

definition kv_CreateOrUpdate :: "'w kv_env \<Rightarrow> KeyValueConfig \<Rightarrow> 'w \<Rightarrow> string result \<times> 'w" where
  "kv_CreateOrUpdate env cfg w =
     guarded (ValidateBucketName (kc_Bucket cfg))
       (case kb_CreateOrUpdate env of
          None \<Rightarrow> (\<lambda>w. (Inl (wrap1 ''create or update kv bucket %q: %w'' (ESent ErrJetStreamV2Required)), w))
        | Some call \<Rightarrow>
            and_then ''create or update kv bucket %q: %w'' (call (toJetStreamKeyValueConfig cfg))
              (and_then ''open kv bucket %q after create/update: %w'' (kb_Open env (kc_Bucket cfg))
                (\<lambda>w. (Inr (kc_Bucket cfg), w)))) w"

definition kv_CreateRaw :: "'w kv_env \<Rightarrow> KeyValueConfig option \<Rightarrow> 'w \<Rightarrow> KVBucketStatus result \<times> 'w" where
  "kv_CreateRaw env cfg w =
     (case cfg of
        None \<Rightarrow> (Inl (wrap1 ''create kv bucket: %w'' (ESent ErrEmptyConfigNotAllowed)), w)
      | Some cfg \<Rightarrow>
          guarded (ValidateBucketName (kc_Bucket cfg))
            (and_then ''create kv bucket %q: %w'' (kb_Create env cfg)
              (wrapping ''create kv bucket %q: status: %w'' (kb_Status env (kc_Bucket cfg)))) w)"

definition kv_Open :: "'w kv_env \<Rightarrow> string \<Rightarrow> 'w \<Rightarrow> string result \<times> 'w" where
  "kv_Open env bucket w =
     guarded (ValidateBucketName bucket)
       (and_then ''open kv bucket %q: %w'' (kb_Open env bucket) (\<lambda>w. (Inr bucket, w))) w"

definition kv_Delete :: "'w kv_env \<Rightarrow> string \<Rightarrow> 'w \<Rightarrow> err option \<times> 'w" where
  "kv_Delete env bucket w =
     guarded_err (ValidateBucketName bucket) (wrapping_err ''delete kv bucket %q: %w'' (kb_Delete env bucket)) w"

fun bucket_statuses :: "'w kv_env \<Rightarrow> string list \<Rightarrow> KVBucketStatus list \<Rightarrow> 'w \<Rightarrow> KVBucketStatus list result \<times> 'w" where
  "bucket_statuses env [] out w = (Inr out, w)"
| "bucket_statuses env (name # names) out w =
     and_then ''list kv buckets: open %q: %w'' (kb_Open env name)
       (\<lambda>w. case kb_Status env name w of
            (Inl e, w1) \<Rightarrow> (Inl (wrap1 ''list kv buckets: status %q: %w'' e), w1)
          | (Inr st, w1) \<Rightarrow> bucket_statuses env names (out @ [st]) w1) w"

definition ListBuckets :: "'w kv_env \<Rightarrow> 'w \<Rightarrow> KVBucketStatus list result \<times> 'w" where
  "ListBuckets env w = (case kb_Names env w of (names, w1) \<Rightarrow> bucket_statuses env names [] w1)"

definition BucketInfo :: "'w kv_env \<Rightarrow> string \<Rightarrow> 'w \<Rightarrow> KVBucketStatus result \<times> 'w" where
  "BucketInfo env bucket w =
     guarded (ValidateBucketName bucket)
       (and_then ''kv bucket info %q: %w'' (kb_Open env bucket)
         (wrapping ''kv bucket info %q: status: %w'' (kb_Status env bucket))) w"

text \<open>\<^const>\<open>None\<close>: the slice expression of \<open>pageSlice\<close> panics.\<close>

definition ListKeys :: "'w kv_env \<Rightarrow> string \<Rightarrow> int \<Rightarrow> int \<Rightarrow> 'w \<Rightarrow> ((string list \<times> nat) result \<times> 'w) option" where
  "ListKeys env bucket offset limit w =
     (case guarded (ValidateBucketName bucket)
             (and_then ''list kv keys bucket=%q: %w'' (kb_Open env bucket)
               (\<lambda>w. case kb_Keys env bucket w of
                    (Inl e, w1) \<Rightarrow>
                      if errors_Is e NatsErrNoKeysFound then (Inr [], w1)
                      else (Inl (wrap1 ''list kv keys bucket=%q: %w'' e), w1)
                  | (Inr keys, w1) \<Rightarrow> (Inr keys, w1))) w of
        (Inl e, w1) \<Rightarrow> Some (Inl e, w1)
      | (Inr keys, w1) \<Rightarrow> map_option (\<lambda>p. (Inr p, w1)) (pageSlice keys offset limit))"

definition kvm_Get :: "'w kv_env \<Rightarrow> string \<Rightarrow> string \<Rightarrow> 'w \<Rightarrow> KVEntry result \<times> 'w" where
  "kvm_Get env bucket key w =
     guarded (then_err (ValidateBucketName bucket) (ValidateKVKey key))
       (and_then ''get kv bucket=%q key=%q: %w'' (kb_Open env bucket)
         (\<lambda>w. map_prod (map_sum (wrap1 ''get kv bucket=%q key=%q: %w'') (kvEntryFrom bucket)) (\<lambda>w. w)
            (kb_Get env bucket key w))) w"

definition kvm_Put :: "'w kv_env \<Rightarrow> string \<Rightarrow> string \<Rightarrow> bytes \<Rightarrow> 'w \<Rightarrow> KVEntry result \<times> 'w" where
  "kvm_Put env bucket key v w =
     guarded (then_err (ValidateBucketName bucket) (ValidateKVKey key))
       (and_then ''put kv bucket=%q key=%q: %w'' (kb_Open env bucket)
         (\<lambda>w. case kb_Put env bucket key v w of
              (Inl e, w1) \<Rightarrow> (Inl (wrap1 ''put kv bucket=%q key=%q: %w'' e), w1)
            | (Inr revision, w1) \<Rightarrow>
                map_prod (map_sum (wrap1 ''put kv bucket=%q key=%q: get after put (rev=%d): %w'') (kvEntryFrom bucket))
                  (\<lambda>w. w) (kb_Get env bucket key w1))) w"

definition DeleteKey :: "'w kv_env \<Rightarrow> string \<Rightarrow> string \<Rightarrow> 'w \<Rightarrow> err option \<times> 'w" where
  "DeleteKey env bucket key w =
     guarded_err (then_err (ValidateBucketName bucket) (ValidateKVKey key))
       (\<lambda>w. case kb_Open env bucket w of
            (Some e, w1) \<Rightarrow> (Some (wrap1 ''delete kv key bucket=%q key=%q: %w'' e), w1)
          | (None, w1) \<Rightarrow> wrapping_err ''delete kv key bucket=%q key=%q: %w'' (kb_DeleteKey env bucket key) w1) w"

definition History :: "'w kv_env \<Rightarrow> string \<Rightarrow> string \<Rightarrow> 'w \<Rightarrow> KVEntry list result \<times> 'w" where
  "History env bucket key w =
     guarded (then_err (ValidateBucketName bucket) (ValidateKVKey key))
       (and_then ''kv history bucket=%q key=%q: %w'' (kb_Open env bucket)
         (\<lambda>w. map_prod (map_sum (wrap1 ''kv history bucket=%q key=%q: %w'') (map (kvEntryFrom bucket))) (\<lambda>w. w)
            (kb_History env bucket key w))) w"

section \<open>Reading a stream\<close>

text \<open>
  A server whose answers about \<open>stream\<close> come from its contents \<open>S w\<close>, which reading does not change:
  a message is stored under its sequence number, between the first and the last of the stream. No
  call fails or is cancelled.
\<close>

definition reads_ok :: "'w js_env \<Rightarrow> string \<Rightarrow> ('w \<Rightarrow> nat \<Rightarrow> RawStreamMsg option) \<Rightarrow> bool" where
  "reads_ok env stream S \<longleftrightarrow>
     (\<forall>w. js_ctxErr env w = None \<and> js_lost env w = None)
   \<and> (\<forall>seq w. S (snd (js_GetMsg env stream seq w)) = S w
        \<and> (case S w seq of Some m \<Rightarrow> fst (js_GetMsg env stream seq w) = Inr m \<and> rm_Sequence m = seq
           | None \<Rightarrow> \<exists>e. fst (js_GetMsg env stream seq w) = Inl e \<and> errors_Is e NatsErrMsgNotFound))
   \<and> (\<forall>w. S (snd (js_StreamInfo env stream w)) = S w
        \<and> (\<exists>info. fst (js_StreamInfo env stream w) = Inr info
             \<and> (\<forall>seq m. S w seq = Some m \<longrightarrow> si_FirstSeq info \<le> seq \<and> seq \<le> si_LastSeq info)
             \<and> si_LastSeq info + 1 < 2 ^ 64))"

lemma reads_okD:
  assumes "reads_ok env stream S"
  shows "js_ctxErr env w = None" "js_lost env w = None"
    "js_GetMsg env stream seq w = (r, w') \<Longrightarrow> S w' = S w"
    "js_GetMsg env stream seq w = (r, w') \<Longrightarrow> S w seq = Some m \<Longrightarrow> r = Inr m \<and> rm_Sequence m = seq"
    "js_GetMsg env stream seq w = (r, w') \<Longrightarrow> S w seq = None \<Longrightarrow> \<exists>e. r = Inl e \<and> errors_Is e NatsErrMsgNotFound"
proof -
  show "js_ctxErr env w = None" "js_lost env w = None" using assms by (simp_all add: reads_ok_def)
  have g: "S (snd (js_GetMsg env stream seq w)) = S w
      \<and> (case S w seq of Some m \<Rightarrow> fst (js_GetMsg env stream seq w) = Inr m \<and> rm_Sequence m = seq
         | None \<Rightarrow> \<exists>e. fst (js_GetMsg env stream seq w) = Inl e \<and> errors_Is e NatsErrMsgNotFound)"
    using assms unfolding reads_ok_def by blast
  show "js_GetMsg env stream seq w = (r, w') \<Longrightarrow> S w' = S w"
    "js_GetMsg env stream seq w = (r, w') \<Longrightarrow> S w seq = Some m \<Longrightarrow> r = Inr m \<and> rm_Sequence m = seq"
    "js_GetMsg env stream seq w = (r, w') \<Longrightarrow> S w seq = None \<Longrightarrow> \<exists>e. r = Inl e \<and> errors_Is e NatsErrMsgNotFound"
    using g by simp_all
qed

lemma StreamInfo_reads:
  assumes "reads_ok env stream S" "ValidateStreamName stream = None"
  shows "\<exists>info w'. StreamInfo env stream w = (Inr info, w') \<and> S w' = S w
    \<and> (\<forall>seq m. S w seq = Some m \<longrightarrow> si_FirstSeq info \<le> seq \<and> seq \<le> si_LastSeq info)
    \<and> si_LastSeq info + 1 < 2 ^ 64 \<and> js_StreamInfo env stream w = (Inr info, w')"
proof -
  obtain r w' where r: "js_StreamInfo env stream w = (r, w')" by (cases "js_StreamInfo env stream w")
  moreover from this assms(1) obtain info where "r = Inr info" "S w' = S w"
      "\<forall>seq m. S w seq = Some m \<longrightarrow> si_FirstSeq info \<le> seq \<and> seq \<le> si_LastSeq info"
      "si_LastSeq info + 1 < 2 ^ 64"
    unfolding reads_ok_def by (metis fst_conv snd_conv)
  ultimately show ?thesis
    using reads_okD(1,2) [OF assms(1)] assms(2) by (simp add: StreamInfo_def manager_ops)
qed

text \<open>The least stored sequence number in a range.\<close>

definition first_stored :: "(nat \<Rightarrow> 'm option) \<Rightarrow> nat \<Rightarrow> nat \<Rightarrow> nat option" where
  "first_stored C lo hi = List.find (\<lambda>s. C s \<noteq> None) [lo..<Suc hi]"

lemma first_stored_unfold:
  "first_stored C lo hi = (if lo \<le> hi then if C lo \<noteq> None then Some lo else first_stored C (Suc lo) hi else None)"
  by (simp add: first_stored_def upt_rec [of lo "Suc hi"] less_Suc_eq_le del: upt_Suc)

lemma first_stored_Some:
  assumes "first_stored C lo hi = Some s"
  shows "lo \<le> s \<and> s \<le> hi \<and> C s \<noteq> None \<and> (\<forall>j. lo \<le> j \<and> j < s \<longrightarrow> C j = None)"
proof -
  have "\<exists>i. i < Suc hi - lo \<and> C (lo + i) \<noteq> None \<and> s = lo + i \<and> (\<forall>j<i. C (lo + j) = None)"
    using assms by (auto simp: first_stored_def find_Some_iff simp del: upt_Suc)
  then obtain i where i: "i < Suc hi - lo" "C (lo + i) \<noteq> None" "s = lo + i" "\<forall>j<i. C (lo + j) = None"
    by blast
  have "C j = None" if "lo \<le> j" "j < s" for j
    using i that by (auto dest!: spec [of _ "j - lo"])
  with i show ?thesis by auto
qed

lemma first_stored_None: "first_stored C lo hi = None \<longleftrightarrow> (\<forall>j. lo \<le> j \<and> j \<le> hi \<longrightarrow> C j = None)"
  by (auto simp: first_stored_def find_None_iff)

definition next_answer :: "(nat \<Rightarrow> RawStreamMsg option) \<Rightarrow> nat \<Rightarrow> nat \<Rightarrow> RawStreamMsg result" where
  "next_answer C n tip = (case first_stored C n tip of
      Some s \<Rightarrow> Inr (the (C s))
    | None \<Rightarrow> Inl (wrap1 ''get next msg stream=%q after=%d: %w'' (ESent NatsErrMsgNotFound)))"

lemma next_answer_unfold:
  "next_answer C n tip =
     (if n \<le> tip then (case C n of Some m \<Rightarrow> Inr m | None \<Rightarrow> next_answer C (Suc n) tip)
      else Inl (wrap1 ''get next msg stream=%q after=%d: %w'' (ESent NatsErrMsgNotFound)))"
  by (subst next_answer_def, subst first_stored_unfold) (auto simp: next_answer_def)

lemma walk_next_correct:
  assumes "reads_ok env stream S" "tip + 1 < 2 ^ 64"
  shows "\<exists>w'. S w' = S w \<and> walk_next env stream n tip w = Some (next_answer (S w) n tip, w')"
proof (induction "Suc tip - n" arbitrary: n w)
  case 0
  then show ?case by (subst walk_next.simps, subst next_answer_unfold) auto
next
  case (Suc k)
  obtain r w1 where g: "js_GetMsg env stream n w = (r, w1)" by (cases "js_GetMsg env stream n w")
  note d = reads_okD [OF assms(1)]
  have n: "n \<le> tip" using Suc.hyps(2) by simp
  show ?case
  proof (cases "S w n")
    case None
    obtain e where e: "r = Inl e" "errors_Is e NatsErrMsgNotFound" using d(5) [OF g None] by blast
    have "u64 (n + 1) = Suc n" using n assms(2) by simp
    then have "walk_next env stream n tip w = walk_next env stream (Suc n) tip w1"
      using n g e by (subst walk_next.simps) simp
    moreover have "next_answer (S w) n tip = next_answer (S w) (Suc n) tip"
      using n None by (subst next_answer_unfold) simp
    moreover have "\<exists>w'. S w' = S w1 \<and> walk_next env stream (Suc n) tip w1 = Some (next_answer (S w1) (Suc n) tip, w')"
      using Suc.hyps by simp
    ultimately show ?thesis using d(3) [OF g] by simp
  next
    case (Some m)
    with g d(3) [OF g] d(4) [OF g] n show ?thesis
      by (subst walk_next.simps, subst next_answer_unfold) auto
  qed
qed

lemma GetNextMsgAfter_answer:
  assumes "reads_ok env stream S" "ValidateStreamName stream = None" "seq + 1 < 2 ^ 64"
  shows "\<exists>r w'. GetNextMsgAfter env stream seq w = Some (r, w') \<and> S w' = S w
    \<and> (case r of
         Inr m \<Rightarrow> seq < rm_Sequence m \<and> S w (rm_Sequence m) = Some m
           \<and> (\<forall>j. seq < j \<and> j < rm_Sequence m \<longrightarrow> S w j = None)
       | Inl e \<Rightarrow> errors_Is e NatsErrMsgNotFound \<and> (\<forall>j. seq < j \<longrightarrow> S w j = None))"
proof -
  obtain info w1 where i: "StreamInfo env stream w = (Inr info, w1)" "S w1 = S w"
      "\<forall>seq m. S w seq = Some m \<longrightarrow> si_FirstSeq info \<le> seq \<and> seq \<le> si_LastSeq info"
      "si_LastSeq info + 1 < 2 ^ 64"
    using StreamInfo_reads [OF assms(1,2), of w] by blast
  let ?f = "first_stored (S w) (Suc seq) (si_LastSeq info)"
  obtain w' where w: "S w' = S w"
      "walk_next env stream (Suc seq) (si_LastSeq info) w1 = Some (next_answer (S w) (Suc seq) (si_LastSeq info), w')"
    using walk_next_correct [OF assms(1) i(4), of w1 "Suc seq"] unfolding i(2) by blast
  have run: "GetNextMsgAfter env stream seq w = walk_next env stream (Suc seq) (si_LastSeq info) w1"
    using assms(2,3) i(1) by (simp add: GetNextMsgAfter_def getNextMsgAfterKnownLast_def)
  have sequence: "rm_Sequence m = s" if "S w s = Some m" for s m
    using reads_okD(4) [OF assms(1) _ that] by (metis prod.collapse)
  show ?thesis
  proof (cases ?f)
    case None
    then have "S w j = None" if "seq < j" for j
      using that i(3) by (metis Suc_leI first_stored_None not_None_eq)
    with None w run show ?thesis by (simp add: next_answer_def)
  next
    case (Some s)
    then have "Suc seq \<le> s \<and> S w s \<noteq> None \<and> (\<forall>j. Suc seq \<le> j \<and> j < s \<longrightarrow> S w j = None)"
      using first_stored_Some by blast
    with Some w run sequence show ?thesis by (auto simp: Suc_le_eq next_answer_def)
  qed
qed

text \<open>
  C14. \<open>GetNextMsgAfter\<close> returns, and what it returns is the stored message with the least sequence
  number above the given one, however many messages were deleted in between, or \<open>ErrMsgNotFound\<close>
  if there is none.
\<close>

theorem GetNextMsgAfter_least:
  assumes "reads_ok env stream S" "ValidateStreamName stream = None" "seq + 1 < 2 ^ 64"
  shows "\<exists>r w'. GetNextMsgAfter env stream seq w = Some (r, w') \<and> S w' = S w
    \<and> (case r of
         Inr m \<Rightarrow> seq < rm_Sequence m \<and> S w (rm_Sequence m) = Some m
           \<and> (\<forall>j. seq < j \<and> j < rm_Sequence m \<longrightarrow> S w j = None)
       | Inl e \<Rightarrow> errors_Is e NatsErrMsgNotFound \<and> (\<forall>j. seq < j \<longrightarrow> S w j = None))"
  by (rule GetNextMsgAfter_answer [OF assms])

text \<open>A server that holds the messages of one stream and does nothing else.\<close>

definition stored_js :: "RawStreamMsg list \<Rightarrow> 'w js_env" where
  "stored_js ms = \<lparr> js_ctxErr = (\<lambda>_. None), js_lost = (\<lambda>_. None),
     js_AddStream = (\<lambda>_ w. (Inl (EMsg ''read only''), w)), js_UpdateStream = (\<lambda>_ w. (Inl (EMsg ''read only''), w)),
     js_DeleteStream = (\<lambda>_ w. (Some (EMsg ''read only''), w)),
     js_StreamInfo = (\<lambda>_ w. (Inr \<lparr> si_Config = no_stream_config,
        si_FirstSeq = (if ms = [] then 0 else rm_Sequence (hd ms)),
        si_LastSeq = (if ms = [] then 0 else rm_Sequence (last ms)) \<rparr>, w)),
     js_StreamNames = (\<lambda>w. ([], w)), js_PurgeStream = (\<lambda>_ _ w. (Some (EMsg ''read only''), w)),
     js_GetMsg = (\<lambda>_ seq w. (case List.find (\<lambda>m. rm_Sequence m = seq) ms of
        Some m \<Rightarrow> Inr m | None \<Rightarrow> Inl (ESent NatsErrMsgNotFound), w)),
     js_GetLastMsg = (\<lambda>_ _ w. (Inl (ESent NatsErrMsgNotFound), w)),
     js_AddConsumer = (\<lambda>_ _ w. (Inl (EMsg ''read only''), w)),
     js_UpdateConsumer = (\<lambda>_ _ w. (Inl (EMsg ''read only''), w)),
     js_DeleteConsumer = (\<lambda>_ _ w. (Some (EMsg ''read only''), w)),
     js_ConsumerInfo = (\<lambda>_ _ w. (Inl (ESent NatsErrConsumerNotFound), w)),
     js_ConsumerNames = (\<lambda>_ w. ([], w)) \<rparr>"

definition stored :: "RawStreamMsg list \<Rightarrow> 'w \<Rightarrow> nat \<Rightarrow> RawStreamMsg option" where
  "stored ms w seq = List.find (\<lambda>m. rm_Sequence m = seq) ms"

definition raw_at :: "nat \<Rightarrow> gotime \<Rightarrow> RawStreamMsg" where
  "raw_at seq t = \<lparr> rm_Subject = ''s'', rm_Sequence = seq, rm_Header = None, rm_Data = [], rm_Time = t \<rparr>"

lemma stored_reads:
  assumes "sorted (map rm_Sequence ms)" "\<forall>m\<in>set ms. rm_Sequence m + 1 < 2 ^ 64"
  shows "reads_ok (stored_js ms :: 'w js_env) stream (stored ms)"
proof -
  have seq: "rm_Sequence m = seq" "m \<in> set ms" if "List.find (\<lambda>m. rm_Sequence m = seq) ms = Some m" for m seq
    using that by (auto simp: find_Some_iff)
  have lo: "rm_Sequence (hd ms) \<le> rm_Sequence m" if "m \<in> set ms" for m
    using assms(1) that by (cases ms) auto
  have hi: "rm_Sequence m \<le> rm_Sequence (last ms)" if "m \<in> set ms" for m
    using assms(1) that by (cases ms rule: rev_cases) (auto simp: sorted_append)
  let ?first = "if ms = [] then 0 else rm_Sequence (hd ms)" and ?tip = "if ms = [] then 0 else rm_Sequence (last ms)"
  have tip: "?tip + 1 < 2 ^ 64" using assms(2) by (cases ms rule: rev_cases) simp_all
  have bounds: "?first \<le> seq \<and> seq \<le> ?tip" if "stored ms w seq = Some m" for w :: 'w and seq m
  proof -
    have m: "rm_Sequence m = seq" "m \<in> set ms" using seq [of seq m] that by (simp_all add: stored_def)
    then have "ms \<noteq> []" by auto
    with lo [OF m(2)] hi [OF m(2)] m(1) show ?thesis by simp
  qed
  show ?thesis unfolding reads_ok_def
  proof (intro conjI allI)
    fix seq and w :: 'w
    show "case stored ms w seq of Some m \<Rightarrow> fst (js_GetMsg (stored_js ms) stream seq w) = Inr m \<and> rm_Sequence m = seq
        | None \<Rightarrow> \<exists>e. fst (js_GetMsg (stored_js ms) stream seq w) = Inl e \<and> errors_Is e NatsErrMsgNotFound"
    proof (cases "stored ms w seq")
      case (Some m)
      then have "rm_Sequence m = seq" by (intro seq(1)) (simp add: stored_def)
      with Some show ?thesis by (simp add: stored_js_def stored_def)
    qed (simp add: stored_js_def stored_def)
    show "\<exists>info. fst (js_StreamInfo (stored_js ms) stream w) = Inr info
        \<and> (\<forall>seq m. stored ms w seq = Some m \<longrightarrow> si_FirstSeq info \<le> seq \<and> seq \<le> si_LastSeq info)
        \<and> si_LastSeq info + 1 < 2 ^ 64"
      by (rule exI [of _ "\<lparr> si_Config = no_stream_config, si_FirstSeq = ?first, si_LastSeq = ?tip \<rparr>"])
        (use tip bounds in \<open>simp add: stored_js_def\<close>)
  qed (simp_all add: stored_js_def stored_def)
qed

theorem GetNextMsgAfter_least_witness:
  "\<exists>m w. GetNextMsgAfter (stored_js [raw_at 1 5, raw_at 10 20]) ''S'' 1 () = Some (Inr m, w)
     \<and> rm_Sequence m = 10"
proof -
  let ?ms = "[raw_at 1 5, raw_at 10 20]"
  have "reads_ok (stored_js ?ms) ''S'' (stored ?ms)" by (rule stored_reads) (simp_all add: raw_at_def)
  moreover have "ValidateStreamName ''S'' = None" by code_simp
  ultimately obtain r w where r: "GetNextMsgAfter (stored_js ?ms) ''S'' 1 () = Some (r, w)"
      "case r of Inr m \<Rightarrow> 1 < rm_Sequence m \<and> stored ?ms () (rm_Sequence m) = Some m
         \<and> (\<forall>j. 1 < j \<and> j < rm_Sequence m \<longrightarrow> stored ?ms () j = None)
       | Inl e \<Rightarrow> errors_Is e NatsErrMsgNotFound \<and> (\<forall>j. 1 < j \<longrightarrow> stored ?ms () j = None)"
    using GetNextMsgAfter_least [of "stored_js ?ms" "''S''" "stored ?ms" 1 "()"] by auto
  have ten: "stored ?ms () 10 = Some (raw_at 10 20)" by (simp add: stored_def raw_at_def)
  show ?thesis
  proof (cases r)
    case (Inl e)
    with r(2) have "stored ?ms () 10 = None" by simp
    with ten show ?thesis by simp
  next
    case (Inr m)
    with r(2) have "rm_Sequence m = 10" by (auto simp: stored_def raw_at_def split: if_splits)
    with r(1) Inr show ?thesis by blast
  qed
qed

text \<open>
  Updating a stream does not change its number of replicas by accident: when the stream exists
  (adding it failed, and its info can be read) and the caller left the replicas unset, the one
  update sent carries the caller's configuration with the replicas the stream has.
\<close>

theorem CreateOrUpdateStream_keeps_replicas:
  assumes "ctxReady env w = None" "ValidateStreamName (s_Name cfg) = None" "ValidateSubjects (s_Subjects cfg) = None"
    and "s_Replicas cfg = 0"
    and "js_AddStream env (with_default_replicas (toNatsStreamConfig cfg)) w = (Inl addErr, w1)"
    and "js_StreamInfo env (s_Name cfg) w1 = (Inr existing, w2)" "s_Replicas (si_Config existing) \<noteq> 0"
    and "js_UpdateStream env ((toNatsStreamConfig cfg)\<lparr> s_Replicas := s_Replicas (si_Config existing) \<rparr>) w2 = (Inr info, w3)"
    and "js_lost env w3 = None"
  shows "CreateOrUpdateStream env cfg w = (Inr info, w3)"
  using assms
  by (simp add: CreateOrUpdateStream_def manager_ops update_config_def with_default_replicas_def Let_def)

definition replica_js :: "unit js_env" where
  "replica_js = (stored_js [])\<lparr>
     js_StreamInfo := (\<lambda>_ w. (Inr \<lparr> si_Config = no_stream_config\<lparr> s_Replicas := 3 \<rparr>, si_FirstSeq = 0, si_LastSeq = 0 \<rparr>, w)),
     js_UpdateStream := (\<lambda>c w. (Inr \<lparr> si_Config = c, si_FirstSeq = 0, si_LastSeq = 0 \<rparr>, w)) \<rparr>"

theorem CreateOrUpdateStream_keeps_replicas_witness:
  "\<exists>info. CreateOrUpdateStream replica_js (no_stream_config\<lparr> s_Name := ''S'' \<rparr>) () = (Inr info, ())
     \<and> s_Replicas (si_Config info) = 3"
proof -
  have "ValidateStreamName ''S'' = None" by code_simp
  then show ?thesis
    using CreateOrUpdateStream_keeps_replicas [of replica_js "()" "no_stream_config\<lparr> s_Name := ''S'' \<rparr>"
        "EMsg ''read only''" "()" "\<lparr> si_Config = no_stream_config\<lparr> s_Replicas := 3 \<rparr>, si_FirstSeq = 0, si_LastSeq = 0 \<rparr>" "()"]
    by (simp add: replica_js_def stored_js_def ctxReady_def no_stream_config_def)
qed

end
