(* ===== verification/Replay.thy ===== *)
theory Replay
  imports Managers Shard "HOL-Library.AList"
begin

text \<open>
  Replay (\<open>replay.go\<close>, \<open>replay_options.go\<close>): seeking a durable consumer, side-car consumers, ranges
  of stored messages by sequence and by time, and the binary search over message times. The laws
  of the server are \<^const>\<open>reads_ok\<close> and \<open>consumers_ok\<close> below. A search that does not end is
  \<^const>\<open>None\<close>.
\<close>

section \<open>Options\<close>

record ReplayConfig =
  rp_OptStartTime :: "gotime option"
  rp_UntilTime :: "gotime option"
  rp_Durable :: string
  rp_FilterSubject :: string
  rp_FilterSubjects :: "string list"
  rp_DeliverPolicy :: DeliverPolicy
  rp_ReplayPolicy :: ReplayPolicy
  rp_OptStartSeq :: nat
  rp_UntilSeq :: nat
  rp_Limit :: int
  rp_deliverSet :: bool
  rp_replaySet :: bool
  rp_optStartSeqSet :: bool
  rp_optStartTimeSet :: bool
  rp_untilSeqSet :: bool
  rp_untilTimeSet :: bool
  rp_limitSet :: bool

definition no_replay :: ReplayConfig where
  "no_replay = \<lparr> rp_OptStartTime = None, rp_UntilTime = None, rp_Durable = [], rp_FilterSubject = [],
     rp_FilterSubjects = [], rp_DeliverPolicy = DeliverAll, rp_ReplayPolicy = ReplayInstant, rp_OptStartSeq = 0,
     rp_UntilSeq = 0, rp_Limit = 0, rp_deliverSet = False, rp_replaySet = False, rp_optStartSeqSet = False,
     rp_optStartTimeSet = False, rp_untilSeqSet = False, rp_untilTimeSet = False, rp_limitSet = False \<rparr>"

type_synonym ReplayOpt = "ReplayConfig \<Rightarrow> ReplayConfig"

definition WithReplayDurable :: "string \<Rightarrow> ReplayOpt" where
  "WithReplayDurable name c = c\<lparr> rp_Durable := name \<rparr>"

definition WithFilterSubject :: "string \<Rightarrow> ReplayOpt" where
  "WithFilterSubject subject c = c\<lparr> rp_FilterSubject := subject, rp_FilterSubjects := [] \<rparr>"

definition WithFilterSubjects :: "string list \<Rightarrow> ReplayOpt" where
  "WithFilterSubjects subjects c = c\<lparr> rp_FilterSubjects := subjects, rp_FilterSubject := [] \<rparr>"

definition WithDeliverPolicy :: "DeliverPolicy \<Rightarrow> ReplayOpt" where
  "WithDeliverPolicy policy c = c\<lparr> rp_DeliverPolicy := policy, rp_deliverSet := True \<rparr>"

definition WithReplayPolicy :: "ReplayPolicy \<Rightarrow> ReplayOpt" where
  "WithReplayPolicy policy c = c\<lparr> rp_ReplayPolicy := policy, rp_replaySet := True \<rparr>"

definition WithStartSeq :: "nat \<Rightarrow> ReplayOpt" where
  "WithStartSeq seq c = c\<lparr> rp_OptStartSeq := seq, rp_optStartSeqSet := True \<rparr>"

definition WithStartTime :: "gotime \<Rightarrow> ReplayOpt" where
  "WithStartTime t c = c\<lparr> rp_OptStartTime := Some t, rp_optStartTimeSet := True \<rparr>"

definition FromSeq :: "nat \<Rightarrow> ReplayOpt" where
  "FromSeq seq c = c\<lparr> rp_DeliverPolicy := DeliverByStartSequence, rp_deliverSet := True,
     rp_OptStartSeq := seq, rp_optStartSeqSet := True, rp_OptStartTime := None, rp_optStartTimeSet := True \<rparr>"

definition FromTime :: "gotime \<Rightarrow> ReplayOpt" where
  "FromTime t c = c\<lparr> rp_DeliverPolicy := DeliverByStartTime, rp_deliverSet := True,
     rp_OptStartTime := Some t, rp_optStartTimeSet := True, rp_OptStartSeq := 0, rp_optStartSeqSet := True \<rparr>"

definition FromBeginning :: ReplayOpt where
  "FromBeginning c = c\<lparr> rp_DeliverPolicy := DeliverAll, rp_deliverSet := True, rp_OptStartSeq := 0,
     rp_optStartSeqSet := True, rp_OptStartTime := None, rp_optStartTimeSet := True \<rparr>"

definition FromNew :: ReplayOpt where
  "FromNew c = c\<lparr> rp_DeliverPolicy := DeliverNew, rp_deliverSet := True, rp_OptStartSeq := 0,
     rp_optStartSeqSet := True, rp_OptStartTime := None, rp_optStartTimeSet := True \<rparr>"

definition UntilSeq :: "nat \<Rightarrow> ReplayOpt" where
  "UntilSeq seq c = c\<lparr> rp_UntilSeq := seq, rp_untilSeqSet := True \<rparr>"

definition UntilTime :: "gotime \<Rightarrow> ReplayOpt" where
  "UntilTime t c = c\<lparr> rp_UntilTime := Some t, rp_untilTimeSet := True \<rparr>"

definition Limit :: "int \<Rightarrow> ReplayOpt" where
  "Limit n c = c\<lparr> rp_Limit := n, rp_limitSet := True \<rparr>"

definition OneMessage :: "nat \<Rightarrow> ReplayOpt" where
  "OneMessage seq c = c\<lparr> rp_DeliverPolicy := DeliverByStartSequence, rp_deliverSet := True,
     rp_OptStartSeq := seq, rp_optStartSeqSet := True, rp_OptStartTime := None, rp_optStartTimeSet := True,
     rp_UntilSeq := seq, rp_untilSeqSet := True, rp_Limit := 1, rp_limitSet := True \<rparr>"

text \<open>A nil option is \<^const>\<open>None\<close>.\<close>

definition apply_opts :: "('c \<Rightarrow> 'c) option list \<Rightarrow> 'c \<Rightarrow> 'c" where
  "apply_opts opts cfg = fold (\<lambda>opt c. case opt of None \<Rightarrow> c | Some f \<Rightarrow> f c) opts cfg"

definition applyReplayOpts :: "ReplayOpt option list \<Rightarrow> ReplayConfig" where
  "applyReplayOpts opts = apply_opts opts no_replay"

abbreviation DefaultMsgRangeMax :: int where "DefaultMsgRangeMax \<equiv> 1000"

definition WithMaxMessages :: "int \<Rightarrow> int \<Rightarrow> int" where
  "WithMaxMessages n m = (if n > 0 then n else m)"

text \<open>\<open>msgRangeConfig\<close> has one field, \<open>max\<close>.\<close>

definition applyMsgRangeOpts :: "(int \<Rightarrow> int) option list \<Rightarrow> int" where
  "applyMsgRangeOpts opts =
     (let m = apply_opts opts DefaultMsgRangeMax in if m \<le> 0 then DefaultMsgRangeMax else m)"

section \<open>Consumer configurations\<close>

definition durableConfigFromNATS :: "NatsConsumerConfig \<Rightarrow> DurableConsumerConfig" where
  "durableConfigFromNATS cc =
     \<lparr> cc_Durable = cc_Durable cc, cc_FilterSubject = cc_FilterSubject cc, cc_FilterSubjects = cc_FilterSubjects cc,
       cc_DeliverSubject = cc_DeliverSubject cc, cc_DeliverGroup = cc_DeliverGroup cc,
       cc_DeliverPolicy = cc_DeliverPolicy cc, cc_ReplayPolicy = cc_ReplayPolicy cc, cc_AckPolicy = cc_AckPolicy cc,
       cc_MaxDeliver = cc_MaxDeliver cc, cc_AckWait = cc_AckWait cc, cc_MaxAckPending = cc_MaxAckPending cc,
       cc_RateLimit = cc_RateLimit cc, cc_Heartbeat = cc_Heartbeat cc, cc_InactiveThreshold = cc_InactiveThreshold cc,
       cc_Replicas = cc_Replicas cc, cc_MaxWaiting = cc_MaxWaiting cc, cc_OptStartSeq = cc_OptStartSeq cc,
       cc_OptStartTime = cc_OptStartTime cc, cc_FlowControl = cc_FlowControl cc,
       cc_MemoryStorage = cc_MemoryStorage cc, cc_Metadata = cc_Metadata cc,
       dc_HasAckPolicy = True, dc_HasDeliverPolicy = True, dc_HasReplayPolicy = True \<rparr>"

definition no_durable :: DurableConsumerConfig where
  "no_durable =
     \<lparr> cc_Durable = [], cc_FilterSubject = [], cc_FilterSubjects = [], cc_DeliverSubject = [], cc_DeliverGroup = [],
       cc_DeliverPolicy = DeliverAll, cc_ReplayPolicy = ReplayInstant, cc_AckPolicy = AckNone,
       cc_MaxDeliver = 0, cc_AckWait = 0, cc_MaxAckPending = 0, cc_RateLimit = 0, cc_Heartbeat = 0,
       cc_InactiveThreshold = 0, cc_Replicas = 0, cc_MaxWaiting = 0, cc_OptStartSeq = 0, cc_OptStartTime = None,
       cc_FlowControl = False, cc_MemoryStorage = False, cc_Metadata = [],
       dc_HasAckPolicy = False, dc_HasDeliverPolicy = False, dc_HasReplayPolicy = False \<rparr>"

text \<open>The four groups of fields an option may replace, in the order of the code.\<close>

definition replay_filters :: "ReplayConfig \<Rightarrow> DurableConsumerConfig \<Rightarrow> DurableConsumerConfig" where
  "replay_filters cfg out0 =
     (let out = (if \<not> IsEmpty (rp_FilterSubject cfg)
                 then out0\<lparr> cc_FilterSubject := rp_FilterSubject cfg, cc_FilterSubjects := [] \<rparr> else out0) in
      if rp_FilterSubjects cfg \<noteq> []
      then out\<lparr> cc_FilterSubjects := rp_FilterSubjects cfg, cc_FilterSubject := [] \<rparr> else out)"

definition replay_policies :: "ReplayConfig \<Rightarrow> DurableConsumerConfig \<Rightarrow> DurableConsumerConfig" where
  "replay_policies cfg out0 =
     (let out = (if rp_deliverSet cfg
                 then out0\<lparr> cc_DeliverPolicy := rp_DeliverPolicy cfg, dc_HasDeliverPolicy := True \<rparr> else out0) in
      if rp_replaySet cfg
      then out\<lparr> cc_ReplayPolicy := rp_ReplayPolicy cfg, dc_HasReplayPolicy := True \<rparr> else out)"

definition replay_start :: "ReplayConfig \<Rightarrow> DurableConsumerConfig \<Rightarrow> DurableConsumerConfig" where
  "replay_start cfg out0 =
     (let out = (if rp_optStartSeqSet cfg then out0\<lparr> cc_OptStartSeq := rp_OptStartSeq cfg \<rparr> else out0) in
      if rp_optStartTimeSet cfg then out\<lparr> cc_OptStartTime := rp_OptStartTime cfg \<rparr> else out)"

definition replay_ack :: "DurableConsumerConfig \<Rightarrow> DurableConsumerConfig" where
  "replay_ack out =
     (if \<not> dc_HasAckPolicy out \<and> cc_AckPolicy out = AckNone
      then out\<lparr> cc_AckPolicy := AckExplicit, dc_HasAckPolicy := True \<rparr> else out)"

definition applyReplayConfig :: "DurableConsumerConfig \<Rightarrow> string \<Rightarrow> ReplayConfig \<Rightarrow> DurableConsumerConfig" where
  "applyReplayConfig base durable cfg =
     replay_ack (replay_start cfg (replay_policies cfg (replay_filters cfg (base\<lparr> cc_Durable := durable \<rparr>))))"

definition FormatUint :: "nat \<Rightarrow> string" where
  "FormatUint n = (if n = 0 then ''0'' else digits_of n)"

abbreviation MetaReplayUntilSeq :: string where "MetaReplayUntilSeq \<equiv> ''replay_until_seq''"
abbreviation MetaReplayLimit :: string where "MetaReplayLimit \<equiv> ''replay_limit''"

definition applyReplayBoundMetadata :: "DurableConsumerConfig \<Rightarrow> ReplayConfig \<Rightarrow> DurableConsumerConfig" where
  "applyReplayBoundMetadata cfg r =
     (if \<not> rp_untilSeqSet r \<and> \<not> rp_limitSet r then cfg
      else
        let meta = (if rp_untilSeqSet r \<and> rp_UntilSeq r > 0
                    then AList.update MetaReplayUntilSeq (FormatUint (rp_UntilSeq r)) (cc_Metadata cfg)
                    else cc_Metadata cfg);
            meta' = (if rp_limitSet r \<and> rp_Limit r > 0
                     then AList.update MetaReplayLimit (FormatUint (nat (rp_Limit r))) meta else meta) in
        cfg\<lparr> cc_Metadata := meta' \<rparr>)"

definition validateReplayFilters :: "ReplayConfig \<Rightarrow> err option" where
  "validateReplayFilters cfg = validate_filters (rp_FilterSubject cfg) (rp_FilterSubjects cfg)"

definition validateReplayBounds :: "ReplayConfig \<Rightarrow> err option" where
  "validateReplayBounds cfg =
     (if rp_limitSet cfg \<and> rp_Limit cfg < 1
      then Some (wrap1 ''%w: limit must be >= 1'' (ESent ErrInvalidReplayBound))
      else if rp_deliverSet cfg \<and> rp_DeliverPolicy cfg = DeliverNew
              \<and> (rp_untilSeqSet cfg \<or> rp_untilTimeSet cfg \<or> rp_limitSet cfg)
      then Some (wrap1 ''%w: bounds are not valid with FromNew'' (ESent ErrInvalidReplayBound))
      else if rp_untilSeqSet cfg \<and> rp_optStartSeqSet cfg \<and> rp_UntilSeq cfg < rp_OptStartSeq cfg
      then Some (wrap1 ''%w: untilSeq %d < startSeq %d'' (ESent ErrInvalidReplayBound))
      else if rp_untilTimeSet cfg
              \<and> (case (rp_OptStartTime cfg, rp_UntilTime cfg) of (Some a, Some b) \<Rightarrow> b < a | _ \<Rightarrow> False)
      then Some (wrap1 ''%w: untilTime before start time'' (ESent ErrInvalidReplayBound))
      else None)"

record ReplayConsumerResult =
  rr_StartTime :: "gotime option"
  rr_UntilTime :: "gotime option"
  rr_Durable :: string
  rr_StartSeq :: nat
  rr_UntilSeq :: nat
  rr_Limit :: int

definition replayResult :: "string \<Rightarrow> ReplayConfig \<Rightarrow> ReplayConsumerResult" where
  "replayResult durable cfg =
     \<lparr> rr_StartTime = rp_OptStartTime cfg, rr_UntilTime = rp_UntilTime cfg, rr_Durable = durable,
       rr_StartSeq = (if rp_optStartSeqSet cfg then rp_OptStartSeq cfg else 0),
       rr_UntilSeq = (if rp_untilSeqSet cfg then rp_UntilSeq cfg else 0),
       rr_Limit = (if rp_limitSet cfg then rp_Limit cfg else 0) \<rparr>"

section \<open>Stored messages\<close>

record StoredMessage =
  sm_Time :: gotime
  sm_Header :: header
  sm_Subject :: string
  sm_Data :: bytes
  sm_Sequence :: nat
  sm_MessageType :: MessageType

definition storedMessageFromRaw :: "RawStreamMsg \<Rightarrow> StoredMessage" where
  "storedMessageFromRaw raw =
     \<lparr> sm_Time = rm_Time raw, sm_Header = rm_Header raw, sm_Subject = rm_Subject raw, sm_Data = rm_Data raw,
       sm_Sequence = rm_Sequence raw,
       sm_MessageType = (if rm_Header raw = None then JSON else MessageTypeFromHeader (rm_Header raw)) \<rparr>"

definition replay_GetMsg :: "'w js_env \<Rightarrow> string \<Rightarrow> nat \<Rightarrow> 'w \<Rightarrow> StoredMessage result \<times> 'w" where
  "replay_GetMsg env stream seq w =
     guarded (ValidateStreamName stream) (\<lambda>w.
       map_prod (map_sum (wrap1 ''replay get msg stream=%q seq=%d: %w'') storedMessageFromRaw) (\<lambda>w. w)
         (GetMsg env stream seq w)) w"

definition GetLastMsgForSubject :: "'w js_env \<Rightarrow> string \<Rightarrow> string \<Rightarrow> 'w \<Rightarrow> StoredMessage result \<times> 'w" where
  "GetLastMsgForSubject env stream subject w =
     guarded (ValidateStreamName stream) (\<lambda>w.
       map_prod (map_sum (wrap1 ''replay get last msg stream=%q subject=%q: %w'') storedMessageFromRaw) (\<lambda>w. w)
         (GetLastMsg env stream subject w)) w"

definition replay_GetNextMsgAfter ::
  "'w js_env \<Rightarrow> string \<Rightarrow> nat \<Rightarrow> 'w \<Rightarrow> (StoredMessage result \<times> 'w) option" where
  "replay_GetNextMsgAfter env stream seq w =
     (case ValidateStreamName stream of
        Some e \<Rightarrow> Some (Inl e, w)
      | None \<Rightarrow>
          map_option
            (map_prod (map_sum (wrap1 ''replay get next msg stream=%q after=%d: %w'') storedMessageFromRaw) (\<lambda>w. w))
            (GetNextMsgAfter env stream seq w))"

section \<open>Ranges\<close>

text \<open>\<open>nextExisting\<close>: the walk from \<open>seq\<close> on.\<close>

partial_function (option) nextExisting ::
  "'w js_env \<Rightarrow> string \<Rightarrow> nat \<Rightarrow> nat \<Rightarrow> 'w \<Rightarrow> (RawStreamMsg result \<times> 'w) option" where
  "nextExisting env stream endSeq seq w =
     (if seq \<le> endSeq then
        (case GetMsg env stream seq w of
           (Inr m, w1) \<Rightarrow> Some (Inr m, w1)
         | (Inl e, w1) \<Rightarrow>
             if errors_Is e NatsErrMsgNotFound then nextExisting env stream endSeq (u64 (seq + 1)) w1
             else Some (Inl e, w1))
      else Some (Inl (ESent NatsErrMsgNotFound), w))"

partial_function (option) range_loop ::
  "'w js_env \<Rightarrow> string \<Rightarrow> int \<Rightarrow> nat \<Rightarrow> StoredMessage list \<Rightarrow> nat \<Rightarrow> 'w
     \<Rightarrow> ((StoredMessage list \<times> bool) result \<times> 'w) option" where
  "range_loop env stream mx endSeq out cur w =
     (if int (length out) \<ge> mx then
        (if cur < endSeq then
           (case nextExisting env stream endSeq (u64 (cur + 1)) w of
              None \<Rightarrow> None
            | Some (Inr _, w1) \<Rightarrow> Some (Inr (out, True), w1)
            | Some (Inl e, w1) \<Rightarrow>
                if errors_Is e NatsErrMsgNotFound then Some (Inr (out, False), w1) else Some (Inl e, w1))
         else Some (Inr (out, False), w))
      else if cur \<ge> endSeq then Some (Inr (out, False), w)
      else
        (case nextExisting env stream endSeq (u64 (cur + 1)) w of
           None \<Rightarrow> None
         | Some (Inl e, w1) \<Rightarrow>
             if errors_Is e NatsErrMsgNotFound then Some (Inr (out, False), w1)
             else Some (Inl (wrap1 ''replay get msg range stream=%q after=%d: %w'' e), w1)
         | Some (Inr m, w1) \<Rightarrow>
             range_loop env stream mx endSeq (out @ [storedMessageFromRaw m]) (rm_Sequence m) w1))"

text \<open>The walk of \<open>GetMsgRange\<close> from the first message on; \<open>startSeq\<close> is positive.\<close>

definition range_from ::
  "'w js_env \<Rightarrow> string \<Rightarrow> int \<Rightarrow> nat \<Rightarrow> nat \<Rightarrow> 'w \<Rightarrow> ((StoredMessage list \<times> bool) result \<times> 'w) option" where
  "range_from env stream mx startSeq endSeq w =
     (case GetMsg env stream startSeq w of
        (Inr raw, w1) \<Rightarrow> range_loop env stream mx endSeq [storedMessageFromRaw raw] startSeq w1
      | (Inl e, w1) \<Rightarrow>
          if errors_Is e NatsErrMsgNotFound then
            (case nextExisting env stream endSeq (u64 (startSeq - 1 + 1)) w1 of
               None \<Rightarrow> None
             | Some (Inl e', w2) \<Rightarrow>
                 if errors_Is e' NatsErrMsgNotFound then Some (Inr ([], False), w2)
                 else Some (Inl (wrap1 ''replay get msg range stream=%q start=%d: %w'' e'), w2)
             | Some (Inr m, w2) \<Rightarrow> range_loop env stream mx endSeq [storedMessageFromRaw m] (rm_Sequence m) w2)
          else Some (Inl (wrap1 ''replay get msg range stream=%q start=%d: %w'' e), w1))"

definition GetMsgRange ::
  "'w js_env \<Rightarrow> string \<Rightarrow> nat \<Rightarrow> nat \<Rightarrow> (int \<Rightarrow> int) option list \<Rightarrow> 'w
     \<Rightarrow> ((StoredMessage list \<times> bool) result \<times> 'w) option" where
  "GetMsgRange env stream startSeq endSeq opts w =
     (case ValidateStreamName stream of
        Some e \<Rightarrow> Some (Inl e, w)
      | None \<Rightarrow>
          if startSeq = 0 \<or> endSeq = 0 then
            Some (Inl (wrap1 ''%w: startSeq and endSeq must be >= 1'' (ESent ErrInvalidReplayBound)), w)
          else if endSeq < startSeq then
            Some (Inl (wrap1 ''%w: endSeq %d < startSeq %d'' (ESent ErrInvalidReplayBound)), w)
          else
            (case StreamInfo env stream w of
               (Inl e, w1) \<Rightarrow> Some (Inl (wrap1 ''replay get msg range stream=%q: %w'' e), w1)
             | (Inr info, w1) \<Rightarrow>
                 let tip = si_LastSeq info in
                 if startSeq > tip then Some (Inr ([], False), w1)
                 else range_from env stream (applyMsgRangeOpts opts) startSeq (if endSeq > tip then tip else endSeq) w1))"

section \<open>Searching by time\<close>

abbreviation maxPrevWalk :: nat where "maxPrevWalk \<equiv> 128"

text \<open>The walk towards the start of the stream, with the number of steps left.\<close>

fun prev_walk :: "'w js_env \<Rightarrow> string \<Rightarrow> nat \<Rightarrow> nat \<Rightarrow> nat \<Rightarrow> 'w \<Rightarrow> RawStreamMsg result \<times> 'w" where
  "prev_walk env stream first prev 0 w = (Inl (ESent NatsErrMsgNotFound), w)"
| "prev_walk env stream first prev (Suc n) w =
     (if prev \<ge> first then
        (case GetMsg env stream prev w of
           (Inr m, w1) \<Rightarrow> (Inr m, w1)
         | (Inl e, w1) \<Rightarrow>
             if \<not> errors_Is e NatsErrMsgNotFound then (Inl e, w1)
             else if n = 0 \<or> prev = 0 then (Inl (ESent NatsErrMsgNotFound), w1)
             else prev_walk env stream first (prev - 1) n w1)
      else (Inl (ESent NatsErrMsgNotFound), w))"

definition getExistingAtOrNear ::
  "'w js_env \<Rightarrow> string \<Rightarrow> nat \<Rightarrow> nat \<Rightarrow> nat \<Rightarrow> 'w \<Rightarrow> (RawStreamMsg result \<times> 'w) option" where
  "getExistingAtOrNear env stream seq0 first tip w =
     (let seq1 = (if seq0 < first then first else seq0);
          seq = (if seq1 > tip then tip else seq1) in
      case GetMsg env stream seq w of
        (Inr m, w1) \<Rightarrow> Some (Inr m, w1)
      | (Inl e, w1) \<Rightarrow>
          if \<not> errors_Is e NatsErrMsgNotFound then Some (Inl e, w1)
          else
            (case GetNextMsgAfter env stream seq w1 of
               None \<Rightarrow> None
             | Some (Inr m, w2) \<Rightarrow> Some (Inr m, w2)
             | Some (Inl e', w2) \<Rightarrow>
                 if \<not> errors_Is e' NatsErrMsgNotFound then Some (Inl e', w2)
                 else Some (prev_walk env stream first seq maxPrevWalk w2)))"

text \<open>The loops of the two searches; the result is \<open>found\<close>.\<close>

partial_function (option) find_first_loop ::
  "'w js_env \<Rightarrow> string \<Rightarrow> gotime \<Rightarrow> nat \<Rightarrow> nat \<Rightarrow> nat \<Rightarrow> nat \<Rightarrow> nat \<Rightarrow> 'w \<Rightarrow> (nat result \<times> 'w) option" where
  "find_first_loop env stream t first tip lo hi found w =
     (if lo \<le> hi then
        (case getExistingAtOrNear env stream (lo + (hi - lo) div 2) first tip w of
           None \<Rightarrow> None
         | Some (Inl e, w1) \<Rightarrow> Some (Inl e, w1)
         | Some (Inr m, w1) \<Rightarrow>
             if \<not> rm_Time m < t then
               (if rm_Sequence m = 0 \<or> rm_Sequence m - 1 < first then Some (Inr (rm_Sequence m), w1)
                else find_first_loop env stream t first tip lo (rm_Sequence m - 1) (rm_Sequence m) w1)
             else find_first_loop env stream t first tip (u64 (rm_Sequence m + 1)) hi found w1)
      else Some (Inr found, w))"

partial_function (option) find_last_loop ::
  "'w js_env \<Rightarrow> string \<Rightarrow> gotime \<Rightarrow> nat \<Rightarrow> nat \<Rightarrow> nat \<Rightarrow> nat \<Rightarrow> nat \<Rightarrow> 'w \<Rightarrow> (nat result \<times> 'w) option" where
  "find_last_loop env stream t first tip lo hi found w =
     (if lo \<le> hi then
        (case getExistingAtOrNear env stream (lo + (hi - lo) div 2) first tip w of
           None \<Rightarrow> None
         | Some (Inl e, w1) \<Rightarrow> Some (Inl e, w1)
         | Some (Inr m, w1) \<Rightarrow>
             if \<not> rm_Time m > t then
               find_last_loop env stream t first tip (u64 (rm_Sequence m + 1)) hi (rm_Sequence m) w1
             else if rm_Sequence m = 0 \<or> rm_Sequence m - 1 < first then Some (Inr found, w1)
             else find_last_loop env stream t first tip lo (rm_Sequence m - 1) found w1)
      else Some (Inr found, w))"

text \<open>What the two searches share: the bounds of the stream, and no result when \<open>found\<close> is 0.\<close>

definition search_stream ::
  "'w js_env \<Rightarrow> string \<Rightarrow> (nat \<Rightarrow> nat \<Rightarrow> 'w \<Rightarrow> (nat result \<times> 'w) option) \<Rightarrow> 'w \<Rightarrow> (nat result \<times> 'w) option" where
  "search_stream env stream loop w =
     (case ValidateStreamName stream of
        Some e \<Rightarrow> Some (Inl e, w)
      | None \<Rightarrow>
          (case StreamInfo env stream w of
             (Inl e, w1) \<Rightarrow> Some (Inl e, w1)
           | (Inr info, w1) \<Rightarrow>
               if si_LastSeq info = 0 \<or> si_FirstSeq info = 0 then Some (Inl (ESent NatsErrMsgNotFound), w1)
               else
                 (case loop (si_FirstSeq info) (si_LastSeq info) w1 of
                    None \<Rightarrow> None
                  | Some (Inl e, w2) \<Rightarrow> Some (Inl e, w2)
                  | Some (Inr found, w2) \<Rightarrow>
                      Some (if found = 0 then Inl (ESent NatsErrMsgNotFound) else Inr found, w2))))"

definition FindFirstSeqAtOrAfter :: "'w js_env \<Rightarrow> string \<Rightarrow> gotime \<Rightarrow> 'w \<Rightarrow> (nat result \<times> 'w) option" where
  "FindFirstSeqAtOrAfter env stream t w =
     search_stream env stream (\<lambda>first tip. find_first_loop env stream t first tip first tip 0) w"

definition FindLastSeqAtOrBefore :: "'w js_env \<Rightarrow> string \<Rightarrow> gotime \<Rightarrow> 'w \<Rightarrow> (nat result \<times> 'w) option" where
  "FindLastSeqAtOrBefore env stream t w =
     search_stream env stream (\<lambda>first tip. find_last_loop env stream t first tip first tip 0) w"

definition GetMsgRangeByTime ::
  "'w js_env \<Rightarrow> string \<Rightarrow> gotime \<Rightarrow> gotime \<Rightarrow> (int \<Rightarrow> int) option list \<Rightarrow> 'w
     \<Rightarrow> ((StoredMessage list \<times> bool) result \<times> 'w) option" where
  "GetMsgRangeByTime env stream start until opts w =
     (if until < start
      then Some (Inl (wrap1 ''%w: end time before start time'' (ESent ErrInvalidReplayBound)), w)
      else case FindFirstSeqAtOrAfter env stream start w of
        None \<Rightarrow> None
      | Some (Inl e, w1) \<Rightarrow> Some (Inl e, w1)
      | Some (Inr startSeq, w1) \<Rightarrow>
          (case FindLastSeqAtOrBefore env stream until w1 of
             None \<Rightarrow> None
           | Some (Inl e, w2) \<Rightarrow> Some (Inl e, w2)
           | Some (Inr endSeq, w2) \<Rightarrow>
               if endSeq < startSeq then Some (Inr ([], False), w2)
               else GetMsgRange env stream startSeq endSeq opts w2))"

section \<open>Seeking\<close>

definition resolveReplayBounds ::
  "'w js_env \<Rightarrow> string \<Rightarrow> ReplayConfig \<Rightarrow> 'w \<Rightarrow> (ReplayConfig result \<times> 'w) option" where
  "resolveReplayBounds env stream cfg w =
     (let one = (\<lambda>out. if rp_limitSet out \<and> rp_Limit out = 1 \<and> rp_optStartSeqSet out \<and> rp_OptStartSeq out > 0
                         \<and> \<not> rp_untilSeqSet out
                       then out\<lparr> rp_UntilSeq := rp_OptStartSeq out, rp_untilSeqSet := True \<rparr> else out) in
      case (rp_untilTimeSet cfg \<and> \<not> rp_untilSeqSet cfg, rp_UntilTime cfg) of
        (True, Some t) \<Rightarrow>
          (case FindLastSeqAtOrBefore env stream t w of
             None \<Rightarrow> None
           | Some (Inl e, w1) \<Rightarrow> Some (Inl (wrap1 ''resolve untilTime: %w'' e), w1)
           | Some (Inr seq, w1) \<Rightarrow> Some (Inr (one (cfg\<lparr> rp_UntilSeq := seq, rp_untilSeqSet := True \<rparr>)), w1))
      | _ \<Rightarrow> Some (Inr (one cfg), w))"

definition baseDurableConfig :: "'w js_env \<Rightarrow> string \<Rightarrow> string \<Rightarrow> 'w \<Rightarrow> DurableConsumerConfig result \<times> 'w" where
  "baseDurableConfig env stream durable w =
     (case ConsumerInfo env stream durable w of
        (Inl e, w1) \<Rightarrow>
          if errors_Is e NatsErrConsumerNotFound
          then (Inr (no_durable\<lparr> cc_Durable := durable, cc_AckPolicy := AckExplicit, dc_HasAckPolicy := True \<rparr>), w1)
          else (Inl e, w1)
      | (Inr cc, w1) \<Rightarrow> (Inr (durableConfigFromNATS cc), w1))"

definition recreateDurable ::
  "'w js_env \<Rightarrow> string \<Rightarrow> string \<Rightarrow> DurableConsumerConfig \<Rightarrow> 'w \<Rightarrow> err option \<times> 'w" where
  "recreateDurable env stream durable cfg w =
     (let create = (\<lambda>w. case CreateOrUpdateConsumer env stream cfg w of
                      (Inl e, w') \<Rightarrow> (Some e, w') | (Inr _, w') \<Rightarrow> (None, w')) in
      case ConsumerInfo env stream durable w of
        (Inr _, w1) \<Rightarrow>
          (case DeleteConsumer env stream durable w1 of
             (Some e, w2) \<Rightarrow> (Some e, w2)
           | (None, w2) \<Rightarrow> create w2)
      | (Inl e, w1) \<Rightarrow> if errors_Is e NatsErrConsumerNotFound then create w1 else (Some e, w1))"

text \<open>The end of both operations: resolve the bounds, merge, recreate the durable.\<close>

definition seek_durable ::
  "'w js_env \<Rightarrow> string \<Rightarrow> string \<Rightarrow> string \<Rightarrow> DurableConsumerConfig \<Rightarrow> ReplayConfig \<Rightarrow> 'w
     \<Rightarrow> (ReplayConsumerResult result \<times> 'w) option" where
  "seek_durable env label stream target base cfg w =
     (case resolveReplayBounds env stream cfg w of
        None \<Rightarrow> None
      | Some (Inl e, w1) \<Rightarrow> Some (Inl e, w1)
      | Some (Inr resolved, w1) \<Rightarrow>
          (case recreateDurable env stream target
                  (applyReplayBoundMetadata (applyReplayConfig base target resolved) resolved) w1 of
             (Some e, w2) \<Rightarrow> Some (Inl (wrap1 label e), w2)
           | (None, w2) \<Rightarrow> Some (Inr (replayResult target resolved), w2)))"

definition ResetConsumer ::
  "'w js_env \<Rightarrow> string \<Rightarrow> string \<Rightarrow> ReplayOpt option list \<Rightarrow> 'w \<Rightarrow> (ReplayConsumerResult result \<times> 'w) option" where
  "ResetConsumer env stream durable opts w =
     (let cfg = applyReplayOpts opts in
      case then_err (ValidateStreamName stream) (then_err (ValidateDurableName durable)
             (then_err (validateReplayFilters cfg) (validateReplayBounds cfg))) of
        Some e \<Rightarrow> Some (Inl e, w)
      | None \<Rightarrow>
          (case baseDurableConfig env stream durable w of
             (Inl e, w1) \<Rightarrow> Some (Inl e, w1)
           | (Inr base, w1) \<Rightarrow>
               seek_durable env ''reset consumer for replay stream=%q durable=%q: %w'' stream durable base cfg w1))"

text \<open>\<open>nuid\<close> is \<open>nuid.Next()\<close>.\<close>

definition CreateReplayConsumer ::
  "('w \<Rightarrow> string \<times> 'w) \<Rightarrow> 'w js_env \<Rightarrow> string \<Rightarrow> string \<Rightarrow> ReplayOpt option list \<Rightarrow> 'w
     \<Rightarrow> (ReplayConsumerResult result \<times> 'w) option" where
  "CreateReplayConsumer nuid env stream sourceDurable opts w =
     (let cfg = applyReplayOpts opts in
      case then_err (ValidateStreamName stream) (then_err (ValidateDurableName sourceDurable)
             (then_err (validateReplayFilters cfg) (validateReplayBounds cfg))) of
        Some e \<Rightarrow> Some (Inl e, w)
      | None \<Rightarrow>
          (case baseDurableConfig env stream sourceDurable w of
             (Inl e, w1) \<Rightarrow> Some (Inl e, w1)
           | (Inr base, w1) \<Rightarrow>
               (case (if IsEmpty (rp_Durable cfg)
                      then (case nuid w1 of (n, w2) \<Rightarrow> (sourceDurable @ ''-replay-'' @ n, w2))
                      else (rp_Durable cfg, w1)) of
                  (target, w2) \<Rightarrow>
                    (case ValidateDurableName target of
                       Some e \<Rightarrow> Some (Inl e, w2)
                     | None \<Rightarrow>
                         if target = sourceDurable then
                           Some (Inl (EMsg ''create replay consumer: target durable must differ from source %q''), w2)
                         else
                           seek_durable env ''create replay consumer stream=%q source=%q target=%q: %w''
                             stream target base cfg w2))))"

section \<open>Ranges return what is stored\<close>

lemma GetMsg_reads:
  assumes "reads_ok env stream S" "ValidateStreamName stream = None"
  shows "S w seq = Some m \<Longrightarrow> \<exists>w'. GetMsg env stream seq w = (Inr m, w') \<and> S w' = S w \<and> rm_Sequence m = seq"
    "S w seq = None \<Longrightarrow> \<exists>e w'. GetMsg env stream seq w = (Inl e, w') \<and> S w' = S w \<and> errors_Is e NatsErrMsgNotFound"
proof -
  obtain r w' where g: "js_GetMsg env stream seq w = (r, w')" by (cases "js_GetMsg env stream seq w")
  note d = reads_okD(3-5) [OF assms(1) g]
  show "\<exists>w'. GetMsg env stream seq w = (Inr m, w') \<and> S w' = S w \<and> rm_Sequence m = seq" if "S w seq = Some m"
    using d(1) d(2) [OF that] g assms(2) by (simp add: GetMsg_def manager_ops)
  show "\<exists>e w'. GetMsg env stream seq w = (Inl e, w') \<and> S w' = S w \<and> errors_Is e NatsErrMsgNotFound" if "S w seq = None"
    using d(1) d(3) [OF that] g assms(2) by (auto simp: GetMsg_def manager_ops)
qed

lemma nextExisting_correct:
  assumes "reads_ok env stream S" "ValidateStreamName stream = None" "endSeq + 1 < 2 ^ 64"
  shows "\<exists>w'. S w' = S w \<and> nextExisting env stream endSeq n w =
    Some (case first_stored (S w) n endSeq of Some s \<Rightarrow> Inr (the (S w s)) | None \<Rightarrow> Inl (ESent NatsErrMsgNotFound), w')"
proof (induction "Suc endSeq - n" arbitrary: n w)
  case 0
  then show ?case by (subst nextExisting.simps, subst first_stored_unfold) auto
next
  case (Suc k)
  have n: "n \<le> endSeq" using Suc.hyps(2) by simp
  show ?case
  proof (cases "S w n")
    case None
    obtain e w1 where g: "GetMsg env stream n w = (Inl e, w1)" "S w1 = S w" "errors_Is e NatsErrMsgNotFound"
      using GetMsg_reads(2) [OF assms(1,2) None] by blast
    have "u64 (n + 1) = Suc n" using n assms(3) by simp
    then have "nextExisting env stream endSeq n w = nextExisting env stream endSeq (Suc n) w1"
      using n g by (subst nextExisting.simps) simp
    moreover have "first_stored (S w) n endSeq = first_stored (S w) (Suc n) endSeq"
      using n None by (subst first_stored_unfold) simp
    moreover have "\<exists>w'. S w' = S w1 \<and> nextExisting env stream endSeq (Suc n) w1 =
        Some (case first_stored (S w1) (Suc n) endSeq of Some s \<Rightarrow> Inr (the (S w1 s))
              | None \<Rightarrow> Inl (ESent NatsErrMsgNotFound), w')"
      using Suc.hyps by (intro Suc.hyps(1)) simp
    ultimately show ?thesis unfolding g(2) by simp
  next
    case (Some m)
    then obtain w1 where "GetMsg env stream n w = (Inr m, w1)" "S w1 = S w"
      using GetMsg_reads(1) [OF assms(1,2)] by blast
    with n Some show ?thesis by (subst nextExisting.simps, subst first_stored_unfold) auto
  qed
qed

text \<open>The stored messages of a range, in order.\<close>

definition in_range :: "(nat \<Rightarrow> RawStreamMsg option) \<Rightarrow> nat \<Rightarrow> nat \<Rightarrow> StoredMessage list" where
  "in_range C lo hi = map (\<lambda>s. storedMessageFromRaw (the (C s))) (filter (\<lambda>s. C s \<noteq> None) [lo..<Suc hi])"

lemma in_range_first:
  "in_range C lo hi = (case first_stored C lo hi of
     None \<Rightarrow> [] | Some s \<Rightarrow> storedMessageFromRaw (the (C s)) # in_range C (Suc s) hi)"
proof (cases "first_stored C lo hi")
  case None
  then have "filter (\<lambda>s. C s \<noteq> None) [lo..<Suc hi] = []"
    by (auto simp: filter_empty_conv first_stored_None simp del: upt_Suc)
  with None show ?thesis by (simp add: in_range_def)
next
  case (Some s)
  then have s: "lo \<le> s" "s \<le> hi" "C s \<noteq> None" "\<And>j. lo \<le> j \<Longrightarrow> j < s \<Longrightarrow> C j = None"
    using first_stored_Some by blast+
  have "[lo..<Suc hi] = [lo..<s] @ s # [Suc s..<Suc hi]"
    using upt_add_eq_append [of lo s "Suc hi - s"] s(1,2) by (simp add: upt_conv_Cons del: upt_Suc)
  moreover have "filter (\<lambda>s. C s \<noteq> None) [lo..<s] = []"
    using s(4) by (auto simp: filter_empty_conv)
  ultimately show ?thesis using s(3) Some by (simp add: in_range_def del: upt_Suc)
qed

lemma in_range_clamp:
  assumes "\<And>s m. C s = Some m \<Longrightarrow> s \<le> tip" "tip \<le> hi"
  shows "in_range C lo hi = in_range C lo tip"
proof -
  have "filter (\<lambda>s. C s \<noteq> None) [lo..<Suc hi] = filter (\<lambda>s. C s \<noteq> None) [lo..<Suc tip]"
  proof (cases "lo \<le> Suc tip")
    case True
    then have "[lo..<Suc hi] = [lo..<Suc tip] @ [Suc tip..<Suc hi]"
      using assms(2) by (metis le_Suc_ex Suc_le_mono upt_add_eq_append)
    moreover have "filter (\<lambda>s. C s \<noteq> None) [Suc tip..<Suc hi] = []"
      using assms(1) by (force simp: filter_empty_conv simp del: upt_Suc)
    ultimately show ?thesis by (simp del: upt_Suc)
  next
    case False
    then have "filter (\<lambda>s. C s \<noteq> None) [lo..<Suc hi] = []"
      using assms(1) by (force simp: filter_empty_conv simp del: upt_Suc)
    with False show ?thesis by (simp del: upt_Suc)
  qed
  then show ?thesis by (simp add: in_range_def)
qed

lemma range_loop_correct:
  assumes "reads_ok env stream S" "ValidateStreamName stream = None" "endSeq + 1 < 2 ^ 64"
    and "int (length out) \<le> mx"
  shows "\<exists>w'. S w' = S w \<and> range_loop env stream mx endSeq out cur w =
    Some (Inr (out @ take (nat mx - length out) (in_range (S w) (Suc cur) endSeq),
               nat mx < length out + length (in_range (S w) (Suc cur) endSeq)), w')"
  using assms(4)
proof (induction "Suc endSeq - cur" arbitrary: cur out w rule: less_induct)
  case less
  show ?case
  proof (cases "cur < endSeq")
    case False
    then have "in_range (S w) (Suc cur) endSeq = []" by (simp add: in_range_def)
    with False less.prems show ?thesis by (subst range_loop.simps) auto
  next
    case True
    then have u: "u64 (cur + 1) = Suc cur" using assms(3) by simp
    obtain w1 where w1: "S w1 = S w" "nextExisting env stream endSeq (Suc cur) w =
        Some (case first_stored (S w) (Suc cur) endSeq of Some s \<Rightarrow> Inr (the (S w s))
              | None \<Rightarrow> Inl (ESent NatsErrMsgNotFound), w1)"
      using nextExisting_correct [OF assms(1-3)] by blast
    show ?thesis
    proof (cases "first_stored (S w) (Suc cur) endSeq")
      case None
      then have "in_range (S w) (Suc cur) endSeq = []" by (subst in_range_first) simp
      with None w1 u True less.prems show ?thesis by (subst range_loop.simps) auto
    next
      case (Some s)
      then have s: "Suc cur \<le> s" "s \<le> endSeq" "S w s \<noteq> None" using first_stored_Some by blast+
      then obtain m where m: "S w s = Some m" by blast
      then have seq: "rm_Sequence m = s" using GetMsg_reads(1) [OF assms(1,2)] by blast
      have rest: "in_range (S w) (Suc cur) endSeq = storedMessageFromRaw m # in_range (S w) (Suc s) endSeq"
        using Some m by (subst in_range_first) simp
      show ?thesis
      proof (cases "int (length out) \<ge> mx")
        case True
        then have "nat mx = length out" using less.prems by simp
        with True \<open>cur < endSeq\<close> w1 u Some m rest show ?thesis by (subst range_loop.simps) simp
      next
        case False
        let ?out = "out @ [storedMessageFromRaw m]"
        have "range_loop env stream mx endSeq out cur w = range_loop env stream mx endSeq ?out s w1"
          using False \<open>cur < endSeq\<close> w1 u Some m seq by (subst range_loop.simps) simp
        moreover have "\<exists>w'. S w' = S w1 \<and> range_loop env stream mx endSeq ?out s w1 =
            Some (Inr (?out @ take (nat mx - length ?out) (in_range (S w1) (Suc s) endSeq),
                       nat mx < length ?out + length (in_range (S w1) (Suc s) endSeq)), w')"
          using False s by (intro less.hyps) simp_all
        moreover have "nat mx - length out = Suc (nat mx - Suc (length out))" using False by linarith
        ultimately show ?thesis using w1(1) rest by simp
      qed
    qed
  qed
qed

lemma range_from_correct:
  assumes "reads_ok env stream S" "ValidateStreamName stream = None" "endSeq + 1 < 2 ^ 64"
    and "1 \<le> mx" "0 < startSeq" "startSeq \<le> endSeq"
  shows "\<exists>w'. S w' = S w \<and> range_from env stream mx startSeq endSeq w =
    Some (Inr (take (nat mx) (in_range (S w) startSeq endSeq), nat mx < length (in_range (S w) startSeq endSeq)), w')"
proof -
  have run: "\<exists>w'. S w' = S w \<and> range_loop env stream mx endSeq [storedMessageFromRaw m] s w1 =
      Some (Inr (take (nat mx) (in_range (S w) startSeq endSeq), nat mx < length (in_range (S w) startSeq endSeq)), w')"
    if "S w1 = S w" "first_stored (S w) startSeq endSeq = Some s" "S w s = Some m" for s m w1
  proof -
    have "in_range (S w) startSeq endSeq = storedMessageFromRaw m # in_range (S w) (Suc s) endSeq"
      using that by (subst in_range_first) simp
    moreover obtain k where "nat mx = Suc k" using assms(4) by (cases "nat mx") auto
    ultimately show ?thesis
      using range_loop_correct [OF assms(1-3), of "[storedMessageFromRaw m]" mx w1 s] that(1) assms(4) by simp
  qed
  show ?thesis
  proof (cases "S w startSeq")
    case (Some m)
    then obtain w1 where g: "GetMsg env stream startSeq w = (Inr m, w1)" "S w1 = S w"
      using GetMsg_reads(1) [OF assms(1,2)] by blast
    have "first_stored (S w) startSeq endSeq = Some startSeq"
      using Some assms(6) by (subst first_stored_unfold) simp
    with run [OF g(2)] Some g(1) show ?thesis by (simp add: range_from_def)
  next
    case None
    then obtain e w1 where g: "GetMsg env stream startSeq w = (Inl e, w1)" "S w1 = S w" "errors_Is e NatsErrMsgNotFound"
      using GetMsg_reads(2) [OF assms(1,2)] by blast
    have u: "u64 (startSeq - 1 + 1) = startSeq" using assms(3,5,6) by simp
    obtain w2 where w2: "S w2 = S w" "nextExisting env stream endSeq startSeq w1 =
        Some (case first_stored (S w) startSeq endSeq of Some s \<Rightarrow> Inr (the (S w s))
              | None \<Rightarrow> Inl (ESent NatsErrMsgNotFound), w2)"
      using nextExisting_correct [OF assms(1-3), of w1 startSeq] unfolding g(2) by blast
    show ?thesis
    proof (cases "first_stored (S w) startSeq endSeq")
      case None
      then have "in_range (S w) startSeq endSeq = []" by (subst in_range_first) simp
      with None g w2 u show ?thesis by (simp add: range_from_def)
    next
      case (Some s)
      then obtain m where m: "S w s = Some m" using first_stored_Some by blast
      then have "rm_Sequence m = s" using GetMsg_reads(1) [OF assms(1,2)] by blast
      with run [OF w2(1) Some m] Some g w2 u m show ?thesis by (simp add: range_from_def)
    qed
  qed
qed

lemma applyMsgRangeOpts_pos: "1 \<le> applyMsgRangeOpts opts"
  by (simp add: applyMsgRangeOpts_def Let_def)

lemma GetMsgRange_stored:
  assumes "reads_ok env stream S" "ValidateStreamName stream = None" "0 < startSeq" "startSeq \<le> endSeq"
  shows "\<exists>w'. S w' = S w \<and> GetMsgRange env stream startSeq endSeq opts w =
    (let ms = in_range (S w) startSeq endSeq; n = nat (applyMsgRangeOpts opts) in
     Some (Inr (take n ms, n < length ms), w'))"
proof -
  obtain info w1 where i: "StreamInfo env stream w = (Inr info, w1)" "S w1 = S w"
      "\<forall>seq m. S w seq = Some m \<longrightarrow> si_FirstSeq info \<le> seq \<and> seq \<le> si_LastSeq info"
      "si_LastSeq info + 1 < 2 ^ 64"
    using StreamInfo_reads [OF assms(1,2), of w] by blast
  let ?tip = "si_LastSeq info" and ?m = "applyMsgRangeOpts opts"
  define fin where "fin = (if endSeq > ?tip then ?tip else endSeq)"
  have clamp: "in_range (S w) startSeq endSeq = in_range (S w) startSeq fin"
    unfolding fin_def using i(3) in_range_clamp [of "S w" ?tip endSeq startSeq] by auto
  show ?thesis
  proof (cases "startSeq > ?tip")
    case True
    then have "in_range (S w) startSeq fin = []" by (simp add: in_range_def fin_def)
    with True clamp i(1,2) assms(2-4) show ?thesis by (simp add: GetMsgRange_def)
  next
    case False
    have "\<exists>w'. S w' = S w1 \<and> range_from env stream ?m startSeq fin w1 =
      Some (Inr (take (nat ?m) (in_range (S w1) startSeq fin), nat ?m < length (in_range (S w1) startSeq fin)), w')"
      using False i(4) assms(3,4) applyMsgRangeOpts_pos by (intro range_from_correct [OF assms(1,2)]) (auto simp: fin_def)
    moreover have "GetMsgRange env stream startSeq endSeq opts w = range_from env stream ?m startSeq fin w1"
      using False i(1) assms(2-4) by (simp add: GetMsgRange_def Let_def fin_def)
    ultimately show ?thesis using clamp i(2) by (simp add: Let_def)
  qed
qed

text \<open>
  C19. \<open>GetMsgRange\<close> returns, with the stored messages from \<open>startSeq\<close> to \<open>endSeq\<close> in order, whatever was
  deleted between them and wherever the range lies in the stream, cut after the configured number of
  messages; \<open>truncated\<close> is set exactly when there are more.
\<close>

theorem GetMsgRange_correct:
  assumes "reads_ok env stream S" "ValidateStreamName stream = None" "0 < startSeq" "startSeq \<le> endSeq"
  shows "\<exists>w'. S w' = S w \<and> GetMsgRange env stream startSeq endSeq opts w =
    (let ms = in_range (S w) startSeq endSeq; n = nat (applyMsgRangeOpts opts) in
     Some (Inr (take n ms, n < length ms), w'))"
  using GetMsgRange_stored [OF assms] .

theorem GetMsgRange_correct_witness:
  "GetMsgRange (stored_js [raw_at 2 5, raw_at 4 7, raw_at 9 8]) ''S'' 1 9 [Some (WithMaxMessages 2)] ()
     = Some (Inr (map storedMessageFromRaw [raw_at 2 5, raw_at 4 7], True), ())"
proof -
  let ?ms = "[raw_at 2 5, raw_at 4 7, raw_at 9 8]"
  have "reads_ok (stored_js ?ms) ''S'' (stored ?ms)" by (rule stored_reads) (simp_all add: raw_at_def)
  moreover have "ValidateStreamName ''S'' = None" by code_simp
  ultimately obtain w' where "GetMsgRange (stored_js ?ms) ''S'' 1 9 [Some (WithMaxMessages 2)] () =
    (let ms = in_range (stored ?ms ()) 1 9; n = nat (applyMsgRangeOpts [Some (WithMaxMessages 2)]) in
     Some (Inr (take n ms, n < length ms), w'))"
    using GetMsgRange_correct [of "stored_js ?ms" "''S''" "stored ?ms" 1 9 "()"] by auto
  moreover have range: "[1..<Suc 9] = [1, 2, 3, 4, 5, 6, 7, 8, 9 :: nat]" by (simp add: upt_conv_Cons)
  moreover have "in_range (stored ?ms ()) 1 9 = map storedMessageFromRaw ?ms"
    unfolding in_range_def range by (simp add: stored_def raw_at_def)
  moreover have "applyMsgRangeOpts [Some (WithMaxMessages 2)] = 2"
    by (simp add: applyMsgRangeOpts_def apply_opts_def WithMaxMessages_def)
  ultimately show ?thesis by simp
qed

section \<open>The search on a stream without gaps\<close>

text \<open>
  The messages stored are those from the first to the last sequence the server reports, and their
  times do not decrease.
\<close>

definition ordered :: "(nat \<Rightarrow> RawStreamMsg option) \<Rightarrow> bool" where
  "ordered C \<longleftrightarrow> (\<forall>a b m n. a \<le> b \<longrightarrow> C a = Some m \<longrightarrow> C b = Some n \<longrightarrow> rm_Time m \<le> rm_Time n)"

definition dense :: "'w js_env \<Rightarrow> string \<Rightarrow> ('w \<Rightarrow> nat \<Rightarrow> RawStreamMsg option) \<Rightarrow> 'w \<Rightarrow> bool" where
  "dense env stream S w \<longleftrightarrow> ordered (S w)
     \<and> (\<forall>w' info. S w' = S w \<longrightarrow> fst (js_StreamInfo env stream w') = Inr info \<longrightarrow>
          (\<forall>seq. S w seq \<noteq> None \<longleftrightarrow> 0 < si_FirstSeq info \<and> si_FirstSeq info \<le> seq \<and> seq \<le> si_LastSeq info))"

text \<open>What the searches look for; 0 stands for no message.\<close>

definition first_at :: "(nat \<Rightarrow> RawStreamMsg option) \<Rightarrow> gotime \<Rightarrow> nat \<Rightarrow> bool" where
  "first_at C t f \<longleftrightarrow>
     (if f = 0 then \<forall>j m. C j = Some m \<longrightarrow> rm_Time m < t
      else (\<exists>m. C f = Some m \<and> t \<le> rm_Time m) \<and> (\<forall>j m. j < f \<longrightarrow> C j = Some m \<longrightarrow> rm_Time m < t))"

definition last_at :: "(nat \<Rightarrow> RawStreamMsg option) \<Rightarrow> gotime \<Rightarrow> nat \<Rightarrow> bool" where
  "last_at C t f \<longleftrightarrow>
     (if f = 0 then \<forall>j m. C j = Some m \<longrightarrow> t < rm_Time m
      else (\<exists>m. C f = Some m \<and> rm_Time m \<le> t) \<and> (\<forall>j m. f < j \<longrightarrow> C j = Some m \<longrightarrow> t < rm_Time m))"

lemma near_dense:
  assumes "reads_ok env stream S" "ValidateStreamName stream = None"
    and "\<forall>seq. S w seq \<noteq> None \<longleftrightarrow> first \<le> seq \<and> seq \<le> tip" "0 < first" "first \<le> seq" "seq \<le> tip"
  shows "\<exists>m w'. getExistingAtOrNear env stream seq first tip w = Some (Inr m, w') \<and> S w' = S w
    \<and> S w seq = Some m \<and> rm_Sequence m = seq"
proof -
  obtain m where m: "S w seq = Some m" using assms(3-6) by (metis gr0I not_None_eq not_less_zero less_le_trans)
  then obtain w' where "GetMsg env stream seq w = (Inr m, w')" "S w' = S w" "rm_Sequence m = seq"
    using GetMsg_reads(1) [OF assms(1,2)] by blast
  with m assms(5,6) show ?thesis by (simp add: getExistingAtOrNear_def)
qed

lemma find_first_loop_dense:
  assumes "reads_ok env stream S" "ValidateStreamName stream = None"
    and "\<forall>seq. C seq \<noteq> None \<longleftrightarrow> first \<le> seq \<and> seq \<le> tip" "ordered C" "0 < first" "tip + 1 < 2 ^ 64"
    and "S w = C" "first \<le> lo" "hi \<le> tip" "\<forall>j m. j < lo \<longrightarrow> C j = Some m \<longrightarrow> rm_Time m < t"
    and "if found = 0 then hi = tip else found = Suc hi \<and> (\<exists>m. C found = Some m \<and> t \<le> rm_Time m)"
  shows "\<exists>w' f. find_first_loop env stream t first tip lo hi found w = Some (Inr f, w') \<and> S w' = C \<and> first_at C t f"
  using assms(7-)
proof (induction "Suc hi - lo" arbitrary: lo hi found w rule: less_induct)
  case less
  show ?case
  proof (cases "lo \<le> hi")
    case False
    have tip: "j \<le> tip" if "C j = Some m" for j m using assms(3) that by (metis option.distinct(1))
    have "first_at C t found"
    proof (cases "found = 0")
      case True
      then have "tip < lo" using False less.prems(5) by simp
      with True tip less.prems(4) show ?thesis unfolding first_at_def by (metis le_less_trans)
    next
      case found: False
      then have "found \<le> lo" using False less.prems(5) by simp
      with found less.prems(4,5) show ?thesis unfolding first_at_def by (metis less_le_trans)
    qed
    with False less.prems(1) show ?thesis by (subst find_first_loop.simps) auto
  next
    case True
    define mid where "mid = lo + (hi - lo) div 2"
    have mid: "lo \<le> mid" "mid \<le> hi" using True by (auto simp: mid_def)
    obtain m w1 where m: "getExistingAtOrNear env stream mid first tip w = Some (Inr m, w1)" "S w1 = C"
        "C mid = Some m" "rm_Sequence m = mid"
      using near_dense [OF assms(1,2), of w first tip mid] assms(3,5) less.prems(1-3) mid by auto
    show ?thesis
    proof (cases "rm_Time m < t")
      case True
      have below: "rm_Time n < t" if "j < Suc mid" "C j = Some n" for j n
        using that m(3) True assms(4) unfolding ordered_def by (metis le_less_trans less_Suc_eq_le)
      have "u64 (mid + 1) = Suc mid" using mid less.prems(3) assms(6) by simp
      then have "find_first_loop env stream t first tip lo hi found w
          = find_first_loop env stream t first tip (Suc mid) hi found w1"
        using \<open>lo \<le> hi\<close> m True by (subst find_first_loop.simps) (simp flip: mid_def)
      moreover have "\<exists>w' f. find_first_loop env stream t first tip (Suc mid) hi found w1 = Some (Inr f, w')
          \<and> S w' = C \<and> first_at C t f"
        using less.prems m(2) mid below by (intro less.hyps) auto
      ultimately show ?thesis by simp
    next
      case False
      show ?thesis
      proof (cases "mid = 0 \<or> mid - 1 < first")
        case True
        then have "mid = first" using less.prems(2) mid(1) assms(5) by linarith
        moreover have "\<not> j < first" if "C j = Some n" for j n using assms(3) that by (metis not_le option.distinct(1))
        ultimately have "first_at C t mid" using False m(3) assms(5) by (auto simp: first_at_def)
        with True False \<open>lo \<le> hi\<close> m show ?thesis by (subst find_first_loop.simps) (simp flip: mid_def)
      next
        case brk: False
        then have "find_first_loop env stream t first tip lo hi found w
            = find_first_loop env stream t first tip lo (mid - 1) mid w1"
          using \<open>lo \<le> hi\<close> m False by (subst find_first_loop.simps) (simp flip: mid_def)
        moreover have "\<exists>w' f. find_first_loop env stream t first tip lo (mid - 1) mid w1 = Some (Inr f, w')
            \<and> S w' = C \<and> first_at C t f"
          using less.prems m mid brk False by (intro less.hyps) auto
        ultimately show ?thesis by simp
      qed
    qed
  qed
qed

lemma find_last_loop_dense:
  assumes "reads_ok env stream S" "ValidateStreamName stream = None"
    and "\<forall>seq. C seq \<noteq> None \<longleftrightarrow> first \<le> seq \<and> seq \<le> tip" "ordered C" "0 < first" "tip + 1 < 2 ^ 64"
    and "S w = C" "first \<le> lo" "hi \<le> tip" "\<forall>j m. hi < j \<longrightarrow> C j = Some m \<longrightarrow> t < rm_Time m"
    and "if found = 0 then lo = first else Suc found = lo \<and> (\<exists>m. C found = Some m \<and> rm_Time m \<le> t)"
  shows "\<exists>w' f. find_last_loop env stream t first tip lo hi found w = Some (Inr f, w') \<and> S w' = C \<and> last_at C t f"
  using assms(7-)
proof (induction "Suc hi - lo" arbitrary: lo hi found w rule: less_induct)
  case less
  show ?case
  proof (cases "lo \<le> hi")
    case False
    have first: "first \<le> j" if "C j = Some m" for j m using assms(3) that by (metis option.distinct(1))
    have "last_at C t found"
    proof (cases "found = 0")
      case True
      then have "hi < first" using False less.prems(5) by simp
      with True first less.prems(4) show ?thesis unfolding last_at_def by (metis less_le_trans)
    next
      case found: False
      then have "hi \<le> found" using False less.prems(5) by simp
      with found less.prems(4,5) show ?thesis unfolding last_at_def by (metis le_less_trans)
    qed
    with False less.prems(1) show ?thesis by (subst find_last_loop.simps) auto
  next
    case True
    define mid where "mid = lo + (hi - lo) div 2"
    have mid: "lo \<le> mid" "mid \<le> hi" using True by (auto simp: mid_def)
    obtain m w1 where m: "getExistingAtOrNear env stream mid first tip w = Some (Inr m, w1)" "S w1 = C"
        "C mid = Some m" "rm_Sequence m = mid"
      using near_dense [OF assms(1,2), of w first tip mid] assms(3,5) less.prems(1-3) mid by auto
    show ?thesis
    proof (cases "t < rm_Time m")
      case False
      have "u64 (mid + 1) = Suc mid" using mid less.prems(3) assms(6) by simp
      then have "find_last_loop env stream t first tip lo hi found w
          = find_last_loop env stream t first tip (Suc mid) hi mid w1"
        using \<open>lo \<le> hi\<close> m False by (subst find_last_loop.simps) (simp flip: mid_def)
      moreover have "\<exists>w' f. find_last_loop env stream t first tip (Suc mid) hi mid w1 = Some (Inr f, w')
          \<and> S w' = C \<and> last_at C t f"
        using less.prems m mid False assms(5) by (intro less.hyps) auto
      ultimately show ?thesis by simp
    next
      case True
      have above: "t < rm_Time n" if "mid \<le> j" "C j = Some n" for j n
        using that m(3) True assms(4) unfolding ordered_def by (metis less_le_trans)
      show ?thesis
      proof (cases "mid = 0 \<or> mid - 1 < first")
        case brk: True
        then have e: "mid = first" using less.prems(2) mid(1) assms(5) by linarith
        have "first \<le> j" if "C j = Some n" for j n using assms(3) that by (metis option.distinct(1))
        moreover have "lo = first" using e less.prems(2) mid(1) by simp
        ultimately have "found = 0" using less.prems(5) by (metis Suc_n_not_le_n)
        moreover have "last_at C t 0" using above e assms(3) by (auto simp: last_at_def)
        ultimately show ?thesis using brk True \<open>lo \<le> hi\<close> m by (subst find_last_loop.simps) (simp flip: mid_def)
      next
        case brk: False
        have "mid \<le> j" if "mid - 1 < j" for j using that brk by linarith
        with above have above1: "\<forall>j n. mid - 1 < j \<longrightarrow> C j = Some n \<longrightarrow> t < rm_Time n" by blast
        from brk have "find_last_loop env stream t first tip lo hi found w
            = find_last_loop env stream t first tip lo (mid - 1) found w1"
          using \<open>lo \<le> hi\<close> m True by (subst find_last_loop.simps) (simp flip: mid_def)
        moreover have "\<exists>w' f. find_last_loop env stream t first tip lo (mid - 1) found w1 = Some (Inr f, w')
            \<and> S w' = C \<and> last_at C t f"
          using less.prems m(2) mid brk above1 by (intro less.hyps) auto
        ultimately show ?thesis by simp
      qed
    qed
  qed
qed

lemma search_dense:
  assumes "reads_ok env stream S" "ValidateStreamName stream = None" "dense env stream S w"
    and loop: "\<And>first tip w1. \<lbrakk>\<forall>seq. S w seq \<noteq> None \<longleftrightarrow> first \<le> seq \<and> seq \<le> tip; ordered (S w);
        0 < first; tip + 1 < 2 ^ 64; S w1 = S w\<rbrakk>
      \<Longrightarrow> \<exists>w' f. loop first tip w1 = Some (Inr f, w') \<and> S w' = S w \<and> P f"
    and empty: "\<forall>seq. S w seq = None \<Longrightarrow> P 0"
  shows "\<exists>w' f. search_stream env stream loop w =
    Some (if f = 0 then Inl (ESent NatsErrMsgNotFound) else Inr f, w') \<and> S w' = S w \<and> P f"
proof -
  obtain info w1 where i: "StreamInfo env stream w = (Inr info, w1)" "S w1 = S w"
      "si_LastSeq info + 1 < 2 ^ 64" "js_StreamInfo env stream w = (Inr info, w1)"
    using StreamInfo_reads [OF assms(1,2), of w] by blast
  let ?first = "si_FirstSeq info" and ?tip = "si_LastSeq info"
  have dense: "S w seq \<noteq> None \<longleftrightarrow> 0 < ?first \<and> ?first \<le> seq \<and> seq \<le> ?tip" "ordered (S w)" for seq
    using assms(3) i(4) unfolding dense_def by (metis fst_conv)+
  show ?thesis
  proof (cases "?tip = 0 \<or> ?first = 0")
    case True
    then have "\<forall>seq. S w seq = None" using dense(1) by (metis leD le_zero_eq)
    with True empty i(1,2) assms(2) show ?thesis by (auto simp: search_stream_def)
  next
    case False
    then have "\<forall>seq. S w seq \<noteq> None \<longleftrightarrow> ?first \<le> seq \<and> seq \<le> ?tip" using dense(1) by simp
    then obtain w' f where "loop ?first ?tip w1 = Some (Inr f, w')" "S w' = S w" "P f"
      using loop [of ?first ?tip w1] False dense(2) i(2,3) by auto
    with False i(1) assms(2) show ?thesis by (auto simp: search_stream_def)
  qed
qed

lemma FindFirst_dense:
  assumes "reads_ok env stream S" "ValidateStreamName stream = None" "dense env stream S w"
  shows "\<exists>w' f. FindFirstSeqAtOrAfter env stream t w =
    Some (if f = 0 then Inl (ESent NatsErrMsgNotFound) else Inr f, w') \<and> S w' = S w \<and> first_at (S w) t f"
  unfolding FindFirstSeqAtOrAfter_def
proof (rule search_dense [OF assms])
  fix first tip w1
  assume a: "\<forall>seq. S w seq \<noteq> None \<longleftrightarrow> first \<le> seq \<and> seq \<le> tip" "ordered (S w)" "0 < first" "tip + 1 < 2 ^ 64" "S w1 = S w"
  then have "S w j = None" if "j < first" for j using that by (metis leD)
  then show "\<exists>w' f. find_first_loop env stream t first tip first tip 0 w1 = Some (Inr f, w') \<and> S w' = S w \<and> first_at (S w) t f"
    by (intro find_first_loop_dense [OF assms(1,2) a]) simp_all
qed (simp add: first_at_def)

lemma FindLast_dense:
  assumes "reads_ok env stream S" "ValidateStreamName stream = None" "dense env stream S w"
  shows "\<exists>w' f. FindLastSeqAtOrBefore env stream t w =
    Some (if f = 0 then Inl (ESent NatsErrMsgNotFound) else Inr f, w') \<and> S w' = S w \<and> last_at (S w) t f"
  unfolding FindLastSeqAtOrBefore_def
proof (rule search_dense [OF assms])
  fix first tip w1
  assume a: "\<forall>seq. S w seq \<noteq> None \<longleftrightarrow> first \<le> seq \<and> seq \<le> tip" "ordered (S w)" "0 < first" "tip + 1 < 2 ^ 64" "S w1 = S w"
  then have "S w j = None" if "tip < j" for j using that by (metis leD)
  then show "\<exists>w' f. find_last_loop env stream t first tip first tip 0 w1 = Some (Inr f, w') \<and> S w' = S w \<and> last_at (S w) t f"
    by (intro find_last_loop_dense [OF assms(1,2) a]) simp_all
qed (simp add: last_at_def)

text \<open>
  On a stream without gaps both searches end, and find the first message at or after, and the
  last one at or before, a point in time; they report \<open>ErrMsgNotFound\<close> exactly if there is none.
\<close>

theorem time_search_dense:
  assumes "reads_ok env stream S" "ValidateStreamName stream = None" "dense env stream S w"
  shows "(\<exists>w' f. FindFirstSeqAtOrAfter env stream t w =
      Some (if f = 0 then Inl (ESent NatsErrMsgNotFound) else Inr f, w') \<and> S w' = S w \<and> first_at (S w) t f)
    \<and> (\<exists>w' f. FindLastSeqAtOrBefore env stream t w =
      Some (if f = 0 then Inl (ESent NatsErrMsgNotFound) else Inr f, w') \<and> S w' = S w \<and> last_at (S w) t f)"
  using FindFirst_dense [OF assms] FindLast_dense [OF assms] by blast

definition three :: "RawStreamMsg list" where
  "three = [raw_at 4 10, raw_at 5 20, raw_at 6 30]"

lemma three_dense: "reads_ok (stored_js three) ''S'' (stored three)" "dense (stored_js three) ''S'' (stored three) w"
proof -
  show "reads_ok (stored_js three) ''S'' (stored three)" by (rule stored_reads) (simp_all add: three_def raw_at_def)
  show "dense (stored_js three) ''S'' (stored three) w"
    unfolding dense_def ordered_def
    by (auto simp: three_def stored_js_def stored_def raw_at_def split: if_splits)
qed

theorem time_search_dense_witness:
  "\<exists>w1 w2. FindFirstSeqAtOrAfter (stored_js three) ''S'' 15 () = Some (Inr 5, w1)
     \<and> FindLastSeqAtOrBefore (stored_js three) ''S'' 5 () = Some (Inl (ESent NatsErrMsgNotFound), w2)"
proof -
  have v: "ValidateStreamName ''S'' = None" by code_simp
  note a = time_search_dense [OF three_dense(1) v three_dense(2) [of "()"]]
  obtain w1 f where f: "FindFirstSeqAtOrAfter (stored_js three) ''S'' 15 () =
      Some (if f = 0 then Inl (ESent NatsErrMsgNotFound) else Inr f, w1)" "first_at (stored three ()) 15 f"
    using a [of 15] by blast
  obtain w2 g where g: "FindLastSeqAtOrBefore (stored_js three) ''S'' 5 () =
      Some (if g = 0 then Inl (ESent NatsErrMsgNotFound) else Inr g, w2)" "last_at (stored three ()) 5 g"
    using a [of 5] by blast
  have "f = 5" using f(2)
    by (auto simp: first_at_def stored_def three_def raw_at_def dest: spec [of _ 5] split: if_splits)
  moreover have "g = 0" using g(2) by (auto simp: last_at_def stored_def three_def raw_at_def split: if_splits)
  ultimately show ?thesis using f(1) g(1) by simp
qed

lemma first_at_iff:
  "ordered C \<Longrightarrow> first_at C t a \<Longrightarrow> a \<noteq> 0 \<Longrightarrow> C s = Some m \<Longrightarrow> t \<le> rm_Time m \<longleftrightarrow> a \<le> s"
  unfolding first_at_def ordered_def by (metis not_le order_trans)

lemma last_at_iff:
  "ordered C \<Longrightarrow> last_at C t b \<Longrightarrow> b \<noteq> 0 \<Longrightarrow> C s = Some m \<Longrightarrow> rm_Time m \<le> t \<longleftrightarrow> s \<le> b"
  unfolding last_at_def ordered_def by (metis not_le order_trans)



section \<open>The search on a stream with a gap\<close>

definition gap :: "RawStreamMsg list" where
  "gap = [raw_at 1 5, raw_at 10 20]"

lemma gap_reads: "reads_ok (stored_js gap) ''S'' (stored gap)"
  by (rule stored_reads) (simp_all add: gap_def raw_at_def)

lemma gap_valid: "ValidateStreamName ''S'' = None"
  by code_simp

lemma gap_info: "StreamInfo (stored_js gap) ''S'' () = (Inr \<lparr> si_Config = no_stream_config, si_FirstSeq = 1, si_LastSeq = 10 \<rparr>, ())"
  by (simp add: StreamInfo_def manager_ops gap_valid stored_js_def gap_def raw_at_def)

lemma near_gap: "getExistingAtOrNear (stored_js gap) ''S'' 5 1 10 () = Some (Inr (raw_at 10 20), ())"
proof -
  have "first_stored (stored gap ()) 6 10 = Some 10"
    by (simp add: first_stored_def stored_def gap_def raw_at_def)
  then have "walk_next (stored_js gap) ''S'' 6 10 () = Some (Inr (raw_at 10 20), ())"
    using walk_next_correct [OF gap_reads, of 10 "()" 6] by (simp add: next_answer_def stored_def gap_def raw_at_def)
  then have "GetNextMsgAfter (stored_js gap) ''S'' 5 () = Some (Inr (raw_at 10 20), ())"
    by (simp add: GetNextMsgAfter_def gap_valid gap_info getNextMsgAfterKnownLast_def)
  moreover have "\<exists>e. GetMsg (stored_js gap) ''S'' 5 () = (Inl e, ()) \<and> errors_Is e NatsErrMsgNotFound"
    using GetMsg_reads(2) [OF gap_reads gap_valid, of "()" 5] by (simp add: stored_def gap_def raw_at_def)
  ultimately show ?thesis by (auto simp: getExistingAtOrNear_def)
qed

lemma find_first_gap:
  assumes "find_first_loop env stream t first tip lo hi found w = Some y"
  shows "\<not> (env = (stored_js gap :: unit js_env) \<and> stream = ''S'' \<and> t = 10 \<and> first = 1 \<and> tip = 10 \<and> lo = 1 \<and> hi = 9 \<and> found = 10)"
  using assms
proof (rule find_first_loop.raw_induct [rotated], goal_cases)
  case (1 loop env stream t first tip lo hi found w y)
  show ?case
  proof
    assume a: "env = (stored_js gap :: unit js_env) \<and> stream = ''S'' \<and> t = 10 \<and> first = 1 \<and> tip = 10 \<and> lo = 1 \<and> hi = 9 \<and> found = 10"
    then have "loop env stream t first tip lo hi found w = Some y"
      using 1(2) near_gap by (simp add: raw_at_def)
    with 1(1) a show False by blast
  qed
qed

lemma find_last_gap:
  assumes "find_last_loop env stream t first tip lo hi found w = Some y"
  shows "\<not> (env = (stored_js gap :: unit js_env) \<and> stream = ''S'' \<and> t = 10 \<and> first = 1 \<and> tip = 10 \<and> lo = 1 \<and> hi = 9 \<and> found = 0)"
  using assms
proof (rule find_last_loop.raw_induct [rotated], goal_cases)
  case (1 loop env stream t first tip lo hi found w y)
  show ?case
  proof
    assume a: "env = (stored_js gap :: unit js_env) \<and> stream = ''S'' \<and> t = 10 \<and> first = 1 \<and> tip = 10 \<and> lo = 1 \<and> hi = 9 \<and> found = 0"
    then have "loop env stream t first tip lo hi found w = Some y"
      using 1(2) near_gap by (simp add: raw_at_def)
    with 1(1) a show False by blast
  qed
qed

text \<open>
  C38. With messages 1 and 10 stored and those between deleted, neither search for a time between the
  two returns: the middle of the interval is in the gap, the message found is the one above the
  interval, and the interval stays as it is.
\<close>

theorem time_search_loops_on_gap:
  "FindFirstSeqAtOrAfter (stored_js gap) ''S'' 10 () = None \<and> FindLastSeqAtOrBefore (stored_js gap) ''S'' 10 () = None"
proof -
  have "find_first_loop (stored_js gap) ''S'' 10 1 10 1 10 0 () = find_first_loop (stored_js gap) ''S'' 10 1 10 1 9 10 ()"
    by (subst find_first_loop.simps) (use near_gap in \<open>simp add: raw_at_def\<close>)
  moreover have "find_first_loop (stored_js gap) ''S'' 10 1 10 1 9 10 () = None"
    using find_first_gap by (metis not_Some_eq)
  moreover have "find_last_loop (stored_js gap) ''S'' 10 1 10 1 10 0 () = find_last_loop (stored_js gap) ''S'' 10 1 10 1 9 0 ()"
    by (subst find_last_loop.simps) (use near_gap in \<open>simp add: raw_at_def\<close>)
  moreover have "find_last_loop (stored_js gap) ''S'' 10 1 10 1 9 0 () = None"
    using find_last_gap by (metis not_Some_eq)
  ultimately show ?thesis
    by (simp add: FindFirstSeqAtOrAfter_def FindLastSeqAtOrBefore_def search_stream_def gap_valid gap_info)
qed

section \<open>Seeking\<close>

lemma toNats_fromNats: "toNatsConsumerConfig (durableConfigFromNATS cc) = cc"
  by (cases cc) (simp add: toNatsConsumerConfig_def durableConfigFromNATS_def)

text \<open>The configuration a consumer gets when it is recreated from \<open>cc\<close> with resolved options.\<close>

definition seek_config :: "NatsConsumerConfig \<Rightarrow> string \<Rightarrow> ReplayConfig \<Rightarrow> NatsConsumerConfig" where
  "seek_config cc durable cfg =
     toNatsConsumerConfig (applyReplayBoundMetadata (applyReplayConfig (durableConfigFromNATS cc) durable cfg) cfg)"

text \<open>
  A server that keeps the consumers of \<open>stream\<close>: \<open>K w durable\<close> is the configuration of one. Only adding,
  updating and deleting change it, and only the consumer named; a consumer that does not exist can be
  added. No call fails for another reason or is cancelled.
\<close>

definition keeps :: "('w \<Rightarrow> 'k) \<Rightarrow> ('w \<Rightarrow> 'r \<times> 'w) \<Rightarrow> bool" where
  "keeps K f \<longleftrightarrow> (\<forall>w. K (snd (f w)) = K w)"

definition reads_keep :: "'w js_env \<Rightarrow> string \<Rightarrow> ('w \<Rightarrow> 'k) \<Rightarrow> bool" where
  "reads_keep env stream K \<longleftrightarrow> keeps K (js_StreamInfo env stream) \<and> (\<forall>seq. keeps K (js_GetMsg env stream seq))"

definition consumers_ok :: "'w js_env \<Rightarrow> string \<Rightarrow> ('w \<Rightarrow> string \<Rightarrow> NatsConsumerConfig option) \<Rightarrow> bool" where
  "consumers_ok env stream K \<longleftrightarrow>
     (\<forall>w. js_ctxErr env w = None \<and> js_lost env w = None)
   \<and> reads_keep env stream K
   \<and> (\<forall>d. keeps K (js_ConsumerInfo env stream d))
   \<and> (\<forall>d w. case K w d of Some cc \<Rightarrow> fst (js_ConsumerInfo env stream d w) = Inr cc
        | None \<Rightarrow> \<exists>e. fst (js_ConsumerInfo env stream d w) = Inl e \<and> errors_Is e NatsErrConsumerNotFound)
   \<and> (\<forall>d w. K w d \<noteq> None \<longrightarrow> fst (js_DeleteConsumer env stream d w) = None)
   \<and> (\<forall>d w. K (snd (js_DeleteConsumer env stream d w)) = (K w)(d := None))
   \<and> (\<forall>cc w. K w (cc_Durable cc) = None \<longrightarrow> (\<exists>info. fst (js_AddConsumer env stream cc w) = Inr info)
        \<and> K (snd (js_AddConsumer env stream cc w)) = (K w)(cc_Durable cc \<mapsto> cc))"

lemma consumers_okD:
  assumes "consumers_ok env stream K"
  shows "js_ctxErr env w = None" "js_lost env w = None"
    "js_StreamInfo env stream w = (r, w') \<Longrightarrow> K w' = K w"
    "js_GetMsg env stream seq w = (m, w') \<Longrightarrow> K w' = K w"
    "js_ConsumerInfo env stream d w = (c, w') \<Longrightarrow> K w' = K w"
    "K w d = Some cc \<Longrightarrow> fst (js_ConsumerInfo env stream d w) = Inr cc"
    "K w d = None \<Longrightarrow> \<exists>e. fst (js_ConsumerInfo env stream d w) = Inl e \<and> errors_Is e NatsErrConsumerNotFound"
    "K w d \<noteq> None \<Longrightarrow> fst (js_DeleteConsumer env stream d w) = None"
    "K (snd (js_DeleteConsumer env stream d w)) = (K w)(d := None)"
    "K w (cc_Durable cc) = None \<Longrightarrow> \<exists>info. fst (js_AddConsumer env stream cc w) = Inr info"
    "K w (cc_Durable cc) = None \<Longrightarrow> K (snd (js_AddConsumer env stream cc w)) = (K w)(cc_Durable cc \<mapsto> cc)"
proof -
  note ok = assms [unfolded consumers_ok_def]
  show "js_ctxErr env w = None" "js_lost env w = None" using ok by blast+
  show "js_StreamInfo env stream w = (r, w') \<Longrightarrow> K w' = K w" using ok unfolding reads_keep_def keeps_def by (metis snd_conv)
  show "js_GetMsg env stream seq w = (m, w') \<Longrightarrow> K w' = K w" using ok unfolding reads_keep_def keeps_def by (metis snd_conv)
  show "js_ConsumerInfo env stream d w = (c, w') \<Longrightarrow> K w' = K w" using ok unfolding reads_keep_def keeps_def by (metis snd_conv)
  have "case K w d of Some cc \<Rightarrow> fst (js_ConsumerInfo env stream d w) = Inr cc
      | None \<Rightarrow> \<exists>e. fst (js_ConsumerInfo env stream d w) = Inl e \<and> errors_Is e NatsErrConsumerNotFound"
    using ok by blast
  then show "K w d = Some cc \<Longrightarrow> fst (js_ConsumerInfo env stream d w) = Inr cc"
    "K w d = None \<Longrightarrow> \<exists>e. fst (js_ConsumerInfo env stream d w) = Inl e \<and> errors_Is e NatsErrConsumerNotFound"
    by simp_all
  show "K w d \<noteq> None \<Longrightarrow> fst (js_DeleteConsumer env stream d w) = None" using ok by blast
  show "K (snd (js_DeleteConsumer env stream d w)) = (K w)(d := None)" using ok by blast
  show "K w (cc_Durable cc) = None \<Longrightarrow> \<exists>info. fst (js_AddConsumer env stream cc w) = Inr info" using ok by blast
  show "K w (cc_Durable cc) = None \<Longrightarrow> K (snd (js_AddConsumer env stream cc w)) = (K w)(cc_Durable cc \<mapsto> cc)"
    using ok by blast
qed

lemma ConsumerInfo_ok:
  assumes "consumers_ok env stream K" "ValidateStreamName stream = None" "ValidateDurableName d = None"
  shows "\<exists>r w'. ConsumerInfo env stream d w = (r, w') \<and> K w' = K w
    \<and> (case K w d of Some cc \<Rightarrow> r = Inr cc | None \<Rightarrow> \<exists>e. r = Inl e \<and> errors_Is e NatsErrConsumerNotFound)"
proof -
  obtain r w' where i: "js_ConsumerInfo env stream d w = (r, w')" by (cases "js_ConsumerInfo env stream d w")
  note k = consumers_okD [OF assms(1)]
  show ?thesis
  proof (cases "K w d")
    case None
    then obtain e where "r = Inl e" "errors_Is e NatsErrConsumerNotFound" using k(7) [of w d] i by auto
    with None i k(1,2) k(5) [OF i] assms(2,3) show ?thesis by (simp add: ConsumerInfo_def manager_ops)
  next
    case (Some cc)
    with k(6) [OF Some] i k(1,2) k(5) [OF i] assms(2,3) show ?thesis by (simp add: ConsumerInfo_def manager_ops)
  qed
qed

lemma recreateDurable_ok:
  assumes "consumers_ok env stream K" "ValidateStreamName stream = None" "ValidateDurableName d = None"
    and "cc_Durable cfg = d" "validate_filters (cc_FilterSubject cfg) (cc_FilterSubjects cfg) = None"
  shows "\<exists>w'. recreateDurable env stream d cfg w = (None, w') \<and> K w' = (K w)(d \<mapsto> toNatsConsumerConfig cfg)"
proof -
  note k = consumers_okD [OF assms(1)]
  have d: "cc_Durable (toNatsConsumerConfig cfg) = d" using assms(4) by (simp add: toNatsConsumerConfig_def)
  have create: "\<exists>info w2. CreateOrUpdateConsumer env stream cfg w1 = (Inr info, w2)
      \<and> K w2 = (K w1)(d \<mapsto> toNatsConsumerConfig cfg)" if "K w1 d = None" for w1
  proof -
    obtain r w2 where a: "js_AddConsumer env stream (toNatsConsumerConfig cfg) w1 = (r, w2)"
      by (cases "js_AddConsumer env stream (toNatsConsumerConfig cfg) w1")
    then show ?thesis
      using k(10,11) [of w1 "toNatsConsumerConfig cfg"] k(1,2) d that assms(2-5)
      by (auto simp: CreateOrUpdateConsumer_def manager_ops)
  qed
  obtain r w1 where i: "ConsumerInfo env stream d w = (r, w1)" "K w1 = K w"
      "case K w d of Some cc \<Rightarrow> r = Inr cc | None \<Rightarrow> \<exists>e. r = Inl e \<and> errors_Is e NatsErrConsumerNotFound"
    using ConsumerInfo_ok [OF assms(1-3)] by blast
  show ?thesis
  proof (cases "K w d")
    case None
    with create [of w1] i show ?thesis by (auto simp: recreateDurable_def)
  next
    case (Some cc)
    obtain e w2 where del: "js_DeleteConsumer env stream d w1 = (e, w2)" by (cases "js_DeleteConsumer env stream d w1")
    have e: "e = None" "K w2 = (K w)(d := None)" using k(8,9) [where w = w1 and d = d] del Some i(2) by simp_all
    then have "DeleteConsumer env stream d w1 = (None, w2)"
      using del k(1,2) assms(2,3) by (simp add: DeleteConsumer_def manager_ops)
    with create [of w2] e i Some show ?thesis by (auto simp: recreateDurable_def)
  qed
qed

text \<open>
  What seeking does to a configuration: the name, the filters, the policies, the start and the bounds
  recorded in the metadata follow the options; everything else is kept.
\<close>

definition sought :: "NatsConsumerConfig \<Rightarrow> string \<Rightarrow> ReplayConfig \<Rightarrow> NatsConsumerConfig" where
  "sought cc d r = cc\<lparr> cc_Durable := d,
     cc_FilterSubject := (if rp_FilterSubjects r \<noteq> [] then [] else if rp_FilterSubject r \<noteq> [] then rp_FilterSubject r
                          else cc_FilterSubject cc),
     cc_FilterSubjects := (if rp_FilterSubjects r \<noteq> [] then rp_FilterSubjects r
                           else if rp_FilterSubject r \<noteq> [] then [] else cc_FilterSubjects cc),
     cc_DeliverPolicy := (if rp_deliverSet r then rp_DeliverPolicy r else cc_DeliverPolicy cc),
     cc_ReplayPolicy := (if rp_replaySet r then rp_ReplayPolicy r else cc_ReplayPolicy cc),
     cc_OptStartSeq := (if rp_optStartSeqSet r then rp_OptStartSeq r else cc_OptStartSeq cc),
     cc_OptStartTime := (if rp_optStartTimeSet r then rp_OptStartTime r else cc_OptStartTime cc),
     cc_Metadata := (let meta = (if rp_untilSeqSet r \<and> 0 < rp_UntilSeq r
                         then AList.update MetaReplayUntilSeq (FormatUint (rp_UntilSeq r)) (cc_Metadata cc)
                         else cc_Metadata cc) in
       if rp_limitSet r \<and> 0 < rp_Limit r then AList.update MetaReplayLimit (FormatUint (nat (rp_Limit r))) meta
       else meta) \<rparr>"

text \<open>The stages of \<open>applyReplayConfig\<close> as plain updates.\<close>

lemma replay_filters_upd: "replay_filters r out = out\<lparr>
    cc_FilterSubject := (if rp_FilterSubjects r \<noteq> [] then [] else if rp_FilterSubject r \<noteq> [] then rp_FilterSubject r
                         else cc_FilterSubject out),
    cc_FilterSubjects := (if rp_FilterSubjects r \<noteq> [] then rp_FilterSubjects r
                          else if rp_FilterSubject r \<noteq> [] then [] else cc_FilterSubjects out) \<rparr>"
  by (simp add: replay_filters_def IsEmpty_def Let_def)

lemma replay_policies_upd: "replay_policies r out = out\<lparr>
    cc_DeliverPolicy := (if rp_deliverSet r then rp_DeliverPolicy r else cc_DeliverPolicy out),
    dc_HasDeliverPolicy := (rp_deliverSet r \<or> dc_HasDeliverPolicy out),
    cc_ReplayPolicy := (if rp_replaySet r then rp_ReplayPolicy r else cc_ReplayPolicy out),
    dc_HasReplayPolicy := (rp_replaySet r \<or> dc_HasReplayPolicy out) \<rparr>"
  by (simp add: replay_policies_def Let_def)

lemma replay_start_upd: "replay_start r out = out\<lparr>
    cc_OptStartSeq := (if rp_optStartSeqSet r then rp_OptStartSeq r else cc_OptStartSeq out),
    cc_OptStartTime := (if rp_optStartTimeSet r then rp_OptStartTime r else cc_OptStartTime out) \<rparr>"
  by (simp add: replay_start_def Let_def)

lemma bound_metadata_upd: "applyReplayBoundMetadata out r = out\<lparr>
    cc_Metadata := (let meta = (if rp_untilSeqSet r \<and> 0 < rp_UntilSeq r
                        then AList.update MetaReplayUntilSeq (FormatUint (rp_UntilSeq r)) (cc_Metadata out)
                        else cc_Metadata out) in
      if rp_limitSet r \<and> 0 < rp_Limit r then AList.update MetaReplayLimit (FormatUint (nat (rp_Limit r))) meta
      else meta) \<rparr>"
  by (simp add: applyReplayBoundMetadata_def Let_def)

lemma applyReplayConfig_upd:
  assumes "dc_HasAckPolicy base"
  shows "applyReplayConfig base d r = replay_start r (replay_policies r (replay_filters r (base\<lparr> cc_Durable := d \<rparr>)))"
  using assms by (simp add: applyReplayConfig_def replay_ack_def replay_start_upd replay_policies_upd replay_filters_upd)

lemma seek_config_sought: "seek_config cc d r = sought cc d r"
proof -
  have "applyReplayBoundMetadata (applyReplayConfig (durableConfigFromNATS cc) d r) r
      = applyReplayBoundMetadata (replay_start r (replay_policies r (replay_filters r ((durableConfigFromNATS cc)\<lparr> cc_Durable := d \<rparr>)))) r"
    by (simp add: applyReplayConfig_upd durableConfigFromNATS_def)
  then show ?thesis
    by (simp add: seek_config_def sought_def toNatsConsumerConfig_def bound_metadata_upd replay_start_upd
        replay_policies_upd replay_filters_upd durableConfigFromNATS_def cong: if_cong)
qed

lemma merged_filters:
  fixes d :: string
  assumes "validate_filters (cc_FilterSubject cc) (cc_FilterSubjects cc) = None" "validateReplayFilters r = None"
  defines "out \<equiv> applyReplayBoundMetadata (applyReplayConfig (durableConfigFromNATS cc) d r) r"
  shows "validate_filters (cc_FilterSubject out) (cc_FilterSubjects out) = None" "cc_Durable out = d"
proof -
  have "cc_FilterSubject out = (if rp_FilterSubjects r \<noteq> [] then [] else if rp_FilterSubject r \<noteq> [] then rp_FilterSubject r
        else cc_FilterSubject cc)"
      "cc_FilterSubjects out = (if rp_FilterSubjects r \<noteq> [] then rp_FilterSubjects r
        else if rp_FilterSubject r \<noteq> [] then [] else cc_FilterSubjects cc)"
      "cc_Durable out = d"
    by (simp_all add: out_def bound_metadata_upd applyReplayConfig_upd replay_start_upd replay_policies_upd
        replay_filters_upd durableConfigFromNATS_def)
  with assms(1,2) show "validate_filters (cc_FilterSubject out) (cc_FilterSubjects out) = None" "cc_Durable out = d"
    by (auto simp: validateReplayFilters_def validate_filters_def IsEmpty_def split: if_splits)
qed

lemma resolve_without_time:
  assumes "\<not> rp_untilTimeSet cfg"
  shows "\<exists>res. resolveReplayBounds env stream cfg w = Some (Inr res, w) \<and> validateReplayFilters res = validateReplayFilters cfg"
  using assms by (simp add: resolveReplayBounds_def validateReplayFilters_def)

lemma seek_durable_ok:
  assumes "consumers_ok env stream K" "ValidateStreamName stream = None" "ValidateDurableName d = None"
    and "validate_filters (cc_FilterSubject cc) (cc_FilterSubjects cc) = None" "validateReplayFilters cfg = None"
    and "\<not> rp_untilTimeSet cfg"
  shows "\<exists>res w'. resolveReplayBounds env stream cfg w = Some (Inr res, w)
    \<and> seek_durable env label stream d (durableConfigFromNATS cc) cfg w = Some (Inr (replayResult d res), w')
    \<and> K w' = (K w)(d \<mapsto> sought cc d res)"
proof -
  obtain res where res: "resolveReplayBounds env stream cfg w = Some (Inr res, w)" "validateReplayFilters res = None"
    using resolve_without_time [OF assms(6)] assms(5) by metis
  note m = merged_filters [OF assms(4) res(2), of d]
  obtain w' where "recreateDurable env stream d (applyReplayBoundMetadata (applyReplayConfig (durableConfigFromNATS cc) d res) res) w
      = (None, w')" "K w' = (K w)(d \<mapsto> seek_config cc d res)"
    using recreateDurable_ok [OF assms(1-3) m(2,1)] unfolding seek_config_def by blast
  with res(1) show ?thesis by (auto simp: seek_durable_def seek_config_sought)
qed

lemma baseDurableConfig_ok:
  assumes "consumers_ok env stream K" "ValidateStreamName stream = None" "ValidateDurableName d = None" "K w d = Some cc"
  shows "\<exists>w'. baseDurableConfig env stream d w = (Inr (durableConfigFromNATS cc), w') \<and> K w' = K w"
  using ConsumerInfo_ok [OF assms(1-3), of w] assms(4) by (auto simp: baseDurableConfig_def)


text \<open>Reading changes nothing, whether or not the read ends.\<close>

lemma reads_keepD:
  assumes "reads_keep env stream K"
  shows "js_StreamInfo env stream w = (r, w') \<Longrightarrow> K w' = K w" "js_GetMsg env stream seq w = (m, w') \<Longrightarrow> K w' = K w"
  using assms unfolding reads_keep_def keeps_def by (metis snd_conv)+

lemma GetMsg_reads_keep: "reads_keep env stream K \<Longrightarrow> GetMsg env stream seq w = (r, w') \<Longrightarrow> K w' = K w"
  using reads_keepD(2) [of env stream K seq w]
  by (cases "js_GetMsg env stream seq w", cases "ValidateStreamName stream")
    (auto simp: GetMsg_def manager_ops split: option.splits if_splits)

lemma StreamInfo_reads_keep: "reads_keep env stream K \<Longrightarrow> StreamInfo env stream w = (r, w') \<Longrightarrow> K w' = K w"
  using reads_keepD(1) [of env stream K w]
  by (cases "js_StreamInfo env stream w", cases "ValidateStreamName stream")
    (auto simp: StreamInfo_def manager_ops split: option.splits if_splits)

lemma walk_next_reads_keep:
  assumes "walk_next env stream n tip w = Some y" "reads_keep env stream K"
  shows "K (snd y) = K w"
proof -
  have "reads_keep env stream K \<longrightarrow> K (snd y) = K w"
    using assms(1)
  proof (rule walk_next.raw_induct [rotated], goal_cases)
    case (1 loop env stream n tip w y)
    obtain r w1 where g: "js_GetMsg env stream n w = (r, w1)" by (cases "js_GetMsg env stream n w")
    show ?case
    proof
      assume ok: "reads_keep env stream K"
      note k = reads_keepD(2) [OF ok g] 1(1) [rule_format, OF _ ok]
      show "K (snd y) = K w"
      proof (cases r)
        case (Inl e)
        with 1(2) g k(1) k(2) [of "u64 (n + 1)" tip w1 y] show ?thesis by (auto split: if_splits)
      next
        case (Inr m)
        then have "snd y = w1 \<or> snd y = w" using 1(2) g by (cases "n \<le> tip") (simp_all, (metis snd_conv)+)
        with k(1) show ?thesis by auto
      qed
    qed
  qed
  with assms(2) show ?thesis by blast
qed

lemma GetNextMsgAfter_reads_keep:
  assumes "GetNextMsgAfter env stream seq w = Some y" "reads_keep env stream K"
  shows "K (snd y) = K w"
proof -
  obtain r w1 where i: "StreamInfo env stream w = (r, w1)" by (cases "StreamInfo env stream w")
  show ?thesis
    using assms(1) i StreamInfo_reads_keep [OF assms(2) i] walk_next_reads_keep [OF _ assms(2)]
    by (auto simp: GetNextMsgAfter_def getNextMsgAfterKnownLast_def split: option.splits sum.splits)
qed

lemma consumers_reads_keep: "consumers_ok env stream K \<Longrightarrow> reads_keep env stream K"
  by (simp add: consumers_ok_def)

lemmas GetMsg_keeps = GetMsg_reads_keep [OF consumers_reads_keep]
  and StreamInfo_keeps = StreamInfo_reads_keep [OF consumers_reads_keep]
  and GetNextMsgAfter_keeps = GetNextMsgAfter_reads_keep [OF _ consumers_reads_keep]

lemma prev_walk_keeps: "consumers_ok env stream K \<Longrightarrow> K (snd (prev_walk env stream first prev n w)) = K w"
proof (induction n arbitrary: prev w)
  case (Suc n)
  obtain r w1 where g: "GetMsg env stream prev w = (r, w1)" by (cases "GetMsg env stream prev w")
  with Suc GetMsg_keeps [OF Suc.prems g] show ?case by (cases r) simp_all
qed simp

lemma getExistingAtOrNear_keeps:
  assumes "getExistingAtOrNear env stream seq first tip w = Some y" "consumers_ok env stream K"
  shows "K (snd y) = K w"
proof -
  define s where "s = (let s1 = (if seq < first then first else seq) in if s1 > tip then tip else s1)"
  obtain r w1 where g: "GetMsg env stream s w = (r, w1)" by (cases "GetMsg env stream s w")
  have near: "getExistingAtOrNear env stream seq first tip w = (case r of Inr m \<Rightarrow> Some (Inr m, w1)
      | Inl e \<Rightarrow> if \<not> errors_Is e NatsErrMsgNotFound then Some (Inl e, w1)
          else (case GetNextMsgAfter env stream s w1 of
               None \<Rightarrow> None
             | Some (Inr m, w2) \<Rightarrow> Some (Inr m, w2)
             | Some (Inl e', w2) \<Rightarrow>
                 if \<not> errors_Is e' NatsErrMsgNotFound then Some (Inl e', w2)
                 else Some (prev_walk env stream first s maxPrevWalk w2)))"
    using g unfolding getExistingAtOrNear_def s_def Let_def by (simp only: prod.case)
  note k = GetMsg_keeps [OF assms(2) g] GetNextMsgAfter_keeps [OF _ assms(2), of s w1] prev_walk_keeps [OF assms(2)]
  show ?thesis
  proof (cases r)
    case (Inr m)
    with assms(1) near k(1) show ?thesis by auto
  next
    case (Inl e)
    show ?thesis
    proof (cases "GetNextMsgAfter env stream s w1")
      case None
      with Inl assms(1) near k(1) show ?thesis by (auto split: if_splits)
    next
      case (Some z)
      then have "K (snd z) = K w" using k(1,2) by simp
      with Inl Some assms(1) near k(1,3) show ?thesis by (cases z; cases "fst z") (auto split: if_splits)
    qed
  qed
qed

lemma find_last_loop_keeps:
  assumes "find_last_loop env stream t first tip lo hi found w = Some y" "consumers_ok env stream K"
  shows "K (snd y) = K w"
proof -
  have "consumers_ok env stream K \<longrightarrow> K (snd y) = K w"
    using assms(1)
  proof (rule find_last_loop.raw_induct [rotated], goal_cases)
    case (1 loop env stream t first tip lo hi found w y)
    show ?case
    proof
      assume ok: "consumers_ok env stream K"
      note IH = 1(1) [rule_format, OF _ ok]
      show "K (snd y) = K w"
      proof (cases "getExistingAtOrNear env stream (lo + (hi - lo) div 2) first tip w")
        case None
        with 1(2) show ?thesis by (auto split: if_splits)
      next
        case (Some z)
        note k = getExistingAtOrNear_keeps [OF Some ok]
        obtain r w1 where z: "z = (r, w1)" by (cases z)
        show ?thesis
        proof (cases r)
          case (Inr m)
          with 1(2) Some z k IH [of t first tip "u64 (rm_Sequence m + 1)" hi "rm_Sequence m" w1 y]
            IH [of t first tip lo "rm_Sequence m - 1" found w1 y]
          show ?thesis by (auto split: if_splits)
        qed (use 1(2) Some z k in \<open>auto split: if_splits\<close>)
      qed
    qed
  qed
  with assms(2) show ?thesis by blast
qed

lemma resolve_keeps:
  assumes "resolveReplayBounds env stream cfg w = Some y" "consumers_ok env stream K"
  shows "K (snd y) = K w"
proof -
  have "K (snd z) = K w" if "FindLastSeqAtOrBefore env stream t w = Some z" for t z
  proof -
    obtain r w1 where i: "StreamInfo env stream w = (r, w1)" by (cases "StreamInfo env stream w")
    show ?thesis
      using that i StreamInfo_keeps [OF assms(2) i] find_last_loop_keeps [OF _ assms(2), of t _ _ _ _ _ w1]
      by (cases r) (force simp: FindLastSeqAtOrBefore_def search_stream_def
          split: option.splits if_splits prod.splits sum.splits)+
  qed
  with assms(1) show ?thesis
    by (force simp: resolveReplayBounds_def Let_def split: option.splits bool.splits prod.splits sum.splits)
qed

lemma merged_durable: "cc_Durable (applyReplayBoundMetadata (applyReplayConfig base d r) r) = d"
  by (simp add: bound_metadata_upd applyReplayConfig_def replay_ack_def replay_start_upd replay_policies_upd replay_filters_upd)

lemma recreateDurable_only:
  assumes "consumers_ok env stream K" "ValidateStreamName stream = None" "ValidateDurableName d = None"
    and "cc_Durable cfg = d"
  shows "\<exists>x. K (snd (recreateDurable env stream d cfg w)) = (K w)(d := x)"
proof (cases "validate_filters (cc_FilterSubject cfg) (cc_FilterSubjects cfg)")
  case None
  show ?thesis using recreateDurable_ok [OF assms(1-4) None, of w] by auto
next
  case (Some e)
  note k = consumers_okD [OF assms(1)]
  have stop: "CreateOrUpdateConsumer env stream cfg w1 = (Inl e, w1)" for w1
    using Some assms(2-4) k(1) by (simp add: CreateOrUpdateConsumer_def manager_ops)
  obtain r w1 where i: "ConsumerInfo env stream d w = (r, w1)" "K w1 = K w"
    using ConsumerInfo_ok [OF assms(1-3)] by blast
  have "\<exists>x. K w1 = (K w)(d := x)" using i(2) by (metis fun_upd_triv)
  moreover obtain e' w2 where del: "js_DeleteConsumer env stream d w1 = (e', w2)" by (cases "js_DeleteConsumer env stream d w1")
  moreover have "DeleteConsumer env stream d w1 = (map_option (wrap1 ''delete consumer stream=%q durable=%q: %w'') e', w2)"
    using del k(1,2) assms(2,3) by (simp add: DeleteConsumer_def manager_ops)
  moreover have "K w2 = (K w)(d := None)" using k(9) [where w = w1 and d = d] del i(2) by simp
  ultimately show ?thesis using i(1) stop by (cases r; cases e') (auto simp: recreateDurable_def)
qed

lemma seek_durable_only:
  assumes "consumers_ok env stream K" "ValidateStreamName stream = None" "ValidateDurableName d = None"
    and "seek_durable env label stream d base cfg w = Some (r, w')"
  shows "\<exists>x. K w' = (K w)(d := x)"
proof -
  obtain res w1 where res: "resolveReplayBounds env stream cfg w = Some (res, w1)"
    using assms(4) by (cases "resolveReplayBounds env stream cfg w") (auto simp: seek_durable_def)
  have w1: "K w1 = K w" using resolve_keeps [OF res assms(1)] by simp
  show ?thesis
  proof (cases res)
    case (Inl e)
    with assms(4) res w1 show ?thesis by (auto simp: seek_durable_def intro!: exI [of _ "K w d"])
  next
    case (Inr resolved)
    let ?out = "applyReplayBoundMetadata (applyReplayConfig base d resolved) resolved"
    obtain e w2 where rc: "recreateDurable env stream d ?out w1 = (e, w2)" by (cases "recreateDurable env stream d ?out w1")
    then have "\<exists>x. K w2 = (K w)(d := x)"
      using recreateDurable_only [OF assms(1-3) merged_durable, of base resolved w1] w1 by simp
    moreover have "w' = w2" using assms(4) res Inr rc by (cases e) (simp_all add: seek_durable_def)
    ultimately show ?thesis by simp
  qed
qed

text \<open>
  \<open>CreateReplayConsumer\<close> leaves the live consumer untouched: whatever options it is given, and
  whether it succeeds or fails, the configuration of the source durable on the server is the same
  afterwards. No other consumer but the side-car changes either.
\<close>

theorem CreateReplayConsumer_keeps_source:
  assumes "consumers_ok env stream K" "keeps K nuid"
    and "CreateReplayConsumer nuid env stream sourceDurable opts w = Some (r, w')"
  shows "\<exists>target x. target \<noteq> sourceDurable \<and> K w' = (K w)(target := x)"
proof -
  have same: ?thesis if "K w' = K w"
    using that by (intro exI [of _ "sourceDurable @ ''x''"] exI [of _ "K w (sourceDurable @ ''x'')"]) simp
  show ?thesis
  proof (cases "then_err (ValidateStreamName stream) (then_err (ValidateDurableName sourceDurable)
    (then_err (validateReplayFilters (applyReplayOpts opts)) (validateReplayBounds (applyReplayOpts opts))))")
  case (Some e)
  with assms(3) have "w' = w" by (simp add: CreateReplayConsumer_def)
  then show ?thesis using same by metis
next
  case None
  then have v: "ValidateStreamName stream = None" "ValidateDurableName sourceDurable = None" by simp_all
  obtain b w1 where b: "baseDurableConfig env stream sourceDurable w = (b, w1)"
    by (cases "baseDurableConfig env stream sourceDurable w")
  have w1: "K w1 = K w"
    using ConsumerInfo_ok [OF assms(1) v, of w] b
    by (auto simp: baseDurableConfig_def split: sum.splits if_splits)
  show ?thesis
  proof (cases b)
    case (Inl e)
    with None b assms(3) have "w' = w1" by (simp add: CreateReplayConsumer_def Let_def)
    with w1 show ?thesis using same by metis
  next
    case (Inr base)
    obtain target w2 where t: "(if IsEmpty (rp_Durable (applyReplayOpts opts))
        then (case nuid w1 of (n, w2) \<Rightarrow> (sourceDurable @ ''-replay-'' @ n, w2))
        else (rp_Durable (applyReplayOpts opts), w1)) = (target, w2)"
      by (metis surj_pair)
    have w2: "K w2 = K w"
      using t assms(2) w1 unfolding keeps_def by (auto split: if_splits prod.splits) (metis snd_conv)+
    show ?thesis
    proof (cases "ValidateDurableName target = None \<and> target \<noteq> sourceDurable")
      case True
      then have "seek_durable env ''create replay consumer stream=%q source=%q target=%q: %w'' stream target base
          (applyReplayOpts opts) w2 = Some (r, w')"
        using None b Inr t assms(3) by (simp add: CreateReplayConsumer_def Let_def)
      then obtain x where "K w' = (K w)(target := x)"
        using seek_durable_only [OF assms(1) v(1)] True w2 by metis
      with True show ?thesis by auto
    next
      case False
      then have "w' = w2" using None b Inr t assms(3)
        by (auto simp: CreateReplayConsumer_def Let_def split: option.splits)
      with w2 show ?thesis using same by metis
    qed
  qed
qed
qed

text \<open>A server that keeps consumers in an association list.\<close>

definition consumer_js :: "(string \<times> NatsConsumerConfig) list js_env" where
  "consumer_js = \<lparr> js_ctxErr = (\<lambda>_. None), js_lost = (\<lambda>_. None),
     js_AddStream = (\<lambda>_ w. (Inl (EMsg ''no streams''), w)), js_UpdateStream = (\<lambda>_ w. (Inl (EMsg ''no streams''), w)),
     js_DeleteStream = (\<lambda>_ w. (Some (EMsg ''no streams''), w)), js_StreamInfo = (\<lambda>_ w. (Inl (EMsg ''no streams''), w)),
     js_StreamNames = (\<lambda>w. ([], w)), js_PurgeStream = (\<lambda>_ _ w. (Some (EMsg ''no streams''), w)),
     js_GetMsg = (\<lambda>_ _ w. (Inl (ESent NatsErrMsgNotFound), w)),
     js_GetLastMsg = (\<lambda>_ _ w. (Inl (ESent NatsErrMsgNotFound), w)),
     js_AddConsumer = (\<lambda>_ cc w. (Inr cc, AList.update (cc_Durable cc) cc w)),
     js_UpdateConsumer = (\<lambda>_ cc w. (Inr cc, AList.update (cc_Durable cc) cc w)),
     js_DeleteConsumer = (\<lambda>_ d w. (None, AList.delete d w)),
     js_ConsumerInfo = (\<lambda>_ d w. (case map_of w d of
        Some cc \<Rightarrow> Inr cc | None \<Rightarrow> Inl (ESent NatsErrConsumerNotFound), w)),
     js_ConsumerNames = (\<lambda>_ w. (map fst w, w)) \<rparr>"

lemma consumer_js_ok: "consumers_ok consumer_js stream map_of"
  by (simp add: consumers_ok_def keeps_def reads_keep_def consumer_js_def update_conv' delete_conv' split: option.splits)

definition live :: NatsConsumerConfig where
  "live = toNatsConsumerConfig (no_durable\<lparr> cc_Durable := ''L'', cc_MaxDeliver := 7 \<rparr>)"

lemma live_valid: "ValidateStreamName ''S'' = None" "ValidateDurableName ''L'' = None"
    "ValidateDurableName ''C'' = None"
  by code_simp+

lemma live_filters: "validate_filters (cc_FilterSubject live) (cc_FilterSubjects live) = None"
  by (simp add: validate_filters_def live_def toNatsConsumerConfig_def no_durable_def IsEmpty_def)


theorem CreateReplayConsumer_keeps_source_witness:
  "\<exists>r w. CreateReplayConsumer (\<lambda>w. (''X'', w)) consumer_js ''S'' ''L''
       [Some FromBeginning, Some (WithReplayDurable ''C'')] [(''L'', live)] = Some (Inr r, w)
     \<and> map_of w ''L'' = Some live"
proof -
  let ?o = "[Some FromBeginning, Some (WithReplayDurable ''C'')]" and ?w = "[(''L'', live)]"
  have o: "validateReplayFilters (applyReplayOpts ?o) = None" "validateReplayBounds (applyReplayOpts ?o) = None"
      "\<not> rp_untilTimeSet (applyReplayOpts ?o)" "rp_Durable (applyReplayOpts ?o) = ''C''"
    by (simp_all add: applyReplayOpts_def apply_opts_def FromBeginning_def WithReplayDurable_def no_replay_def
        validateReplayFilters_def validate_filters_def IsEmpty_def validateReplayBounds_def)
  obtain w1 where w1: "baseDurableConfig consumer_js ''S'' ''L'' ?w = (Inr (durableConfigFromNATS live), w1)"
    using baseDurableConfig_ok [OF consumer_js_ok live_valid(1,2), of ?w live] by auto
  obtain r w where "seek_durable consumer_js ''create replay consumer stream=%q source=%q target=%q: %w'' ''S'' ''C''
      (durableConfigFromNATS live) (applyReplayOpts ?o) w1 = Some (Inr r, w)"
    using seek_durable_ok [OF consumer_js_ok live_valid(1,3) live_filters o(1,3)] by blast
  then have run: "CreateReplayConsumer (\<lambda>w. (''X'', w)) consumer_js ''S'' ''L'' ?o ?w = Some (Inr r, w)"
    using w1 o live_valid by (simp add: CreateReplayConsumer_def IsEmpty_def Let_def)
  have "keeps map_of (\<lambda>w. (''X'', w))" by (simp add: keeps_def)
  from CreateReplayConsumer_keeps_source [OF consumer_js_ok this run]
  obtain target x where "target \<noteq> ''L''" "map_of w = (map_of ?w)(target := x)" by blast
  with run show ?thesis by auto
qed

end
