(* ===== verification/Dlq.thy ===== *)
theory Dlq
  imports Replay Publisher Consumer
begin

text \<open>
  The dead-letter queue (\<open>dlq/dlq.go\<close>, \<open>dlq/replay.go\<close>, \<open>dlq_reexport.go\<close>): the handler wrapper that
  publishes poison messages and terminates them, and the redrive of stored messages. Parameters: the
  text of an error, the stack trace and SHA-256 (\<open>dlq_env\<close>), the publisher, the recorder, and the
  context of a redrive (\<open>cx_Err\<close> is \<open>ctx.Err()\<close>; in \<open>cx_wait\<close> both cases of the \<open>select\<close> may be
  ready, its result tells whether the cancelled one is taken). A map is visited in the order of the
  association list that represents it, which may be any.
\<close>

section \<open>Configuration\<close>

definition HeaderOriginalSubject :: string where "HeaderOriginalSubject = ''X-NATS-Original-Subject''"
definition HeaderStream :: string where "HeaderStream = ''X-NATS-Stream''"
definition HeaderSequence :: string where "HeaderSequence = ''X-NATS-Stream-Sequence''"
definition HeaderNumDelivered :: string where "HeaderNumDelivered = ''X-NATS-Num-Delivered''"
definition HeaderReason :: string where "HeaderReason = ''X-NATS-DLQ-Reason''"
definition HeaderConsumer :: string where "HeaderConsumer = ''X-NATS-Consumer''"
definition HeaderAutopsyError :: string where "HeaderAutopsyError = ''X-NATS-Autopsy-Error''"
definition HeaderAutopsyHash :: string where "HeaderAutopsyHash = ''X-NATS-Autopsy-Hash''"
definition HeaderAutopsyStack :: string where "HeaderAutopsyStack = ''X-NATS-Autopsy-Stack''"
definition headerTraceID :: string where "headerTraceID = ''Trace-Id''"
definition headerMsgID :: string where "headerMsgID = ''Nats-Msg-Id''"
definition headerContentType :: string where "headerContentType = ''Nats-Content-Type''"

abbreviation defaultAutopsyMaxErrorBytes :: int where "defaultAutopsyMaxErrorBytes \<equiv> 512"
abbreviation defaultAutopsyMaxStackBytes :: int where "defaultAutopsyMaxStackBytes \<equiv> 2048"

record RawPublish =
  rp_Header :: header
  rp_Data :: bytes

text \<open>Subject, stream, consumer, reason, the error text of an autopsy, and the sequence.\<close>

datatype dlq_note = NoteDLQ string string string string nat
  | NoteDLQAutopsy string string string string string nat

type_synonym 'w raw_publisher = "string \<Rightarrow> RawPublish \<Rightarrow> 'w \<Rightarrow> err option \<times> 'w"

record AutopsyConfig =
  au_Enabled :: bool
  au_IncludeStack :: bool
  au_MaxErrorBytes :: int
  au_MaxStackBytes :: int

definition withDefaults :: "AutopsyConfig \<Rightarrow> AutopsyConfig" where
  "withDefaults c =
     (let out = (if au_MaxErrorBytes c \<le> 0 then c\<lparr> au_MaxErrorBytes := defaultAutopsyMaxErrorBytes \<rparr> else c) in
      if au_MaxStackBytes out \<le> 0 then out\<lparr> au_MaxStackBytes := defaultAutopsyMaxStackBytes \<rparr> else out)"

record 'w dlq_Config =
  dl_Publisher :: "'w raw_publisher option"
  dl_Recorder :: "(dlq_note \<Rightarrow> 'w \<Rightarrow> 'w) option"
  dl_Subject :: string
  dl_Reason :: string
  dl_Autopsy :: AutopsyConfig
  dl_MaxDeliver :: nat

record autopsyInfo =
  ai_Err :: string
  ai_Stack :: string

record 'w dlq_env =
  dq_con :: "'w con_env"
  dq_Error :: "err \<Rightarrow> string"
  dq_Stack :: "'w \<Rightarrow> string"
  dq_sha256 :: "bytes \<Rightarrow> bytes"

section \<open>Routing\<close>

text \<open>\<open>fmt.Sprintf("%d", n)\<close> and \<open>hex.EncodeToString\<close>.\<close>

definition fmt_d :: "nat \<Rightarrow> string" where
  "fmt_d n = (if n = 0 then ''0'' else digits_of n)"

definition hex_EncodeToString :: "bytes \<Rightarrow> string" where
  "hex_EncodeToString data =
     concat (map (\<lambda>c. [''0123456789abcdef'' ! (of_char c div 16), ''0123456789abcdef'' ! (of_char c mod 16)]) data)"

definition truncateString :: "string \<Rightarrow> int \<Rightarrow> string" where
  "truncateString s maxBytes = (if maxBytes \<le> 0 \<or> int (length s) \<le> maxBytes then s else take (nat maxBytes) s)"

text \<open>\<open>runtime.Stack\<close> writes as much of the trace as fits into the buffer.\<close>

definition fillAutopsyStack :: "'w dlq_env \<Rightarrow> autopsyInfo \<Rightarrow> AutopsyConfig \<Rightarrow> 'w \<Rightarrow> autopsyInfo" where
  "fillAutopsyStack env info cfg w =
     (if \<not> au_IncludeStack cfg then info
      else
        let maxBytes = (if au_MaxStackBytes cfg \<le> 0 then defaultAutopsyMaxStackBytes else au_MaxStackBytes cfg) in
        info\<lparr> ai_Stack := take (nat maxBytes) (dq_Stack env w) \<rparr>)"

definition applyAutopsyHeaders ::
  "'w dlq_env \<Rightarrow> header \<Rightarrow> AutopsyConfig \<Rightarrow> bytes \<Rightarrow> autopsyInfo option \<Rightarrow> header" where
  "applyAutopsyHeaders env headers cfg data info =
     (let h = header_Set headers HeaderAutopsyHash [hex_EncodeToString (dq_sha256 env data)] in
      case info of
        None \<Rightarrow> h
      | Some info \<Rightarrow>
          let h1 = (if \<not> IsEmpty (ai_Err info)
                    then header_Set h HeaderAutopsyError [truncateString (ai_Err info) (au_MaxErrorBytes cfg)] else h) in
          if au_IncludeStack cfg \<and> \<not> IsEmpty (ai_Stack info)
          then header_Set h1 HeaderAutopsyStack [truncateString (ai_Stack info) (au_MaxStackBytes cfg)] else h1)"

definition copy_header :: "header \<Rightarrow> string \<Rightarrow> header \<Rightarrow> header" where
  "copy_header from k h = (if from \<noteq> None \<and> \<not> IsEmpty (header_Get from k) then header_Set h k [header_Get from k] else h)"

definition metadata_headers :: "msg_meta \<Rightarrow> header \<Rightarrow> header" where
  "metadata_headers meta h =
     header_Set (header_Set (header_Set (header_Set h HeaderStream [md_Stream meta])
       HeaderSequence [fmt_d (md_StreamSeq meta)]) HeaderNumDelivered [fmt_d (md_NumDelivered meta)])
       HeaderConsumer [md_Consumer meta]"

definition route_headers ::
  "'w dlq_env \<Rightarrow> 'w dlq_Config \<Rightarrow> msg \<Rightarrow> string \<Rightarrow> autopsyInfo option \<Rightarrow> header" where
  "route_headers env cfg m reason autopsy =
     (let h0 = Some [(HeaderOriginalSubject, [msg_Subject m]), (HeaderReason, [reason])];
          h1 = copy_header (msg_Header m) headerContentType
                 (copy_header (msg_Header m) headerMsgID (copy_header (msg_Header m) headerTraceID h0));
          h2 = (case msg_Metadata m of None \<Rightarrow> h1 | Some meta \<Rightarrow> metadata_headers meta h1);
          h3 = (if au_Enabled (dl_Autopsy cfg)
                then applyAutopsyHeaders env h2 (dl_Autopsy cfg) (msg_Data m) autopsy else h2);
          mid = header_Get h3 headerMsgID in
      if IsEmpty mid then
        (case msg_Metadata m of
           None \<Rightarrow> h3
         | Some meta \<Rightarrow> header_Set h3 headerMsgID [''dlq-'' @ md_Stream meta @ ''-'' @ fmt_d (md_StreamSeq meta)])
      else h3)"

fun term_loop :: "'w con_env \<Rightarrow> nat \<Rightarrow> msg \<Rightarrow> err option \<Rightarrow> 'w \<Rightarrow> err option \<times> 'w" where
  "term_loop env 0 m termErr w = (termErr, w)"
| "term_loop env (Suc n) m termErr w =
     (case ce_Term env m w of (None, w1) \<Rightarrow> (None, w1) | (Some e, w1) \<Rightarrow> term_loop env n m (Some e) w1)"

definition route_record :: "'w dlq_Config \<Rightarrow> msg \<Rightarrow> string \<Rightarrow> autopsyInfo option \<Rightarrow> 'w \<Rightarrow> 'w" where
  "route_record cfg m reason autopsy w =
     (case dl_Recorder cfg of
        None \<Rightarrow> w
      | Some record_dlq \<Rightarrow>
          let (stream, consumer, seq) =
                (case msg_Metadata m of None \<Rightarrow> ([], [], 0) | Some meta \<Rightarrow> (md_Stream meta, md_Consumer meta, md_StreamSeq meta)) in
          if au_Enabled (dl_Autopsy cfg)
          then record_dlq (NoteDLQAutopsy (msg_Subject m) stream consumer reason
                 (case autopsy of None \<Rightarrow> [] | Some info \<Rightarrow> ai_Err info) seq) w
          else record_dlq (NoteDLQ (msg_Subject m) stream consumer reason seq) w)"

definition route ::
  "'w dlq_env \<Rightarrow> 'w dlq_Config \<Rightarrow> 'w raw_publisher \<Rightarrow> msg \<Rightarrow> string \<Rightarrow> autopsyInfo option \<Rightarrow> 'w \<Rightarrow> err option \<times> 'w" where
  "route env cfg pub m reason autopsy w =
     (case pub (dl_Subject cfg)
             \<lparr> rp_Header = route_headers env cfg m reason autopsy, rp_Data = msg_Data m \<rparr> w of
        (Some pubErr, w1) \<Rightarrow> (Some (wrap1 ''publish to dlq subject=%q: %w'' pubErr), w1)
      | (None, w1) \<Rightarrow>
          (case term_loop (dq_con env) 3 m None w1 of
             (Some termErr, w2) \<Rightarrow> (Some (EWrap ''%w: term after dlq subject=%q: %w'' [ESent ErrDLQRouted, termErr]), w2)
           | (None, w2) \<Rightarrow> (None, route_record cfg m reason autopsy w2)))"

definition over_delivered :: "'w dlq_Config \<Rightarrow> msg \<Rightarrow> bool" where
  "over_delivered cfg m \<longleftrightarrow> dl_MaxDeliver cfg > 0
     \<and> (case msg_Metadata m of None \<Rightarrow> False | Some meta \<Rightarrow> md_NumDelivered meta > dl_MaxDeliver cfg)"

text \<open>The handler \<open>With\<close> returns, for the completed configuration.\<close>

definition with_handler ::
  "'w dlq_env \<Rightarrow> 'w dlq_Config \<Rightarrow> 'w raw_publisher \<Rightarrow> 'w MsgHandler \<Rightarrow> 'w MsgHandler" where
  "with_handler env cfg pub handler m w =
     (if over_delivered cfg m then
        (case route env cfg pub m (dl_Reason cfg)
                (Some (fillAutopsyStack env \<lparr> ai_Err = dl_Reason cfg, ai_Stack = [] \<rparr> (dl_Autopsy cfg) w)) w of
           (Some routeErr, w1) \<Rightarrow> (HReturn (Some routeErr), w1)
         | (None, w1) \<Rightarrow> (HReturn (Some (ESent ErrDLQRouted)), w1))
      else
        (case handler m w of
           (HReturn (Some e), w1) \<Rightarrow>
             if \<not> errors_Is e ErrSendToDLQ then (HReturn (Some e), w1)
             else
               (case route env cfg pub m ''handler_requested''
                       (Some (fillAutopsyStack env \<lparr> ai_Err = dq_Error env e, ai_Stack = [] \<rparr> (dl_Autopsy cfg) w1)) w1 of
                  (Some routeErr, w2) \<Rightarrow> (HReturn (Some (wrap1 ''dlq after handler request: %w'' routeErr)), w2)
                | (None, w2) \<Rightarrow> (HReturn (Some (ESent ErrDLQRouted)), w2))
         | r \<Rightarrow> r))"

definition With :: "'w dlq_env \<Rightarrow> 'w dlq_Config \<Rightarrow> 'w MsgHandler \<Rightarrow> 'w MsgHandler" where
  "With env cfg handler =
     (case dl_Publisher cfg of
        None \<Rightarrow> handler
      | Some pub \<Rightarrow>
          if IsEmpty (dl_Subject cfg) then handler
          else
            with_handler env
              (cfg\<lparr> dl_Reason := (if IsEmpty (dl_Reason cfg) then ''max_deliver'' else dl_Reason cfg),
                    dl_Autopsy := withDefaults (dl_Autopsy cfg) \<rparr>) pub handler)"

text \<open>The publisher of the library as the publisher of the queue.\<close>

definition dlqPublisherAdapter ::
  "'w net_env \<Rightarrow> 'v encoders \<Rightarrow> compressors \<Rightarrow> publisher \<Rightarrow> 'w raw_publisher" where
  "dlqPublisherAdapter net c z p subject msg w =
     PublishMessage net c z p True subject
       \<lparr> m_Data = AnyBytes (rp_Data msg), m_Header = rp_Header msg, m_Expect = None, m_MessageType = Raw \<rparr> w"

record DLQConfig =
  dc_Publisher :: "publisher option"
  dc_Subject :: string
  dc_Reason :: string
  dc_Autopsy :: AutopsyConfig
  dc_MaxDeliver :: nat

definition WithDLQ ::
  "'w dlq_env \<Rightarrow> 'w net_env \<Rightarrow> 'v encoders \<Rightarrow> compressors \<Rightarrow> (dlq_note \<Rightarrow> 'w \<Rightarrow> 'w) option \<Rightarrow> DLQConfig
     \<Rightarrow> 'w MsgHandler \<Rightarrow> 'w MsgHandler" where
  "WithDLQ env net c z recorder cfg handler =
     With env \<lparr> dl_Publisher = map_option (dlqPublisherAdapter net c z) (dc_Publisher cfg), dl_Recorder = recorder,
        dl_Subject = dc_Subject cfg, dl_Reason = dc_Reason cfg, dl_Autopsy = dc_Autopsy cfg,
        dl_MaxDeliver = dc_MaxDeliver cfg \<rparr> handler"

section \<open>Redrive\<close>

text \<open>A source may return a nil message with a nil error; \<^const>\<open>None\<close>: the call does not return.\<close>

record 'w MessageSource =
  ms_GetMsg :: "string \<Rightarrow> nat \<Rightarrow> 'w \<Rightarrow> RawStreamMsg option result \<times> 'w"
  ms_GetNextMsgAfter :: "string \<Rightarrow> nat \<Rightarrow> 'w \<Rightarrow> (RawStreamMsg option result \<times> 'w) option"

record 'w ctx_env =
  cx_Err :: "'w \<Rightarrow> err option"
  cx_wait :: "duration \<Rightarrow> 'w \<Rightarrow> bool \<times> 'w"

record dlq_ReplayConfig =
  rd_SourceStream :: string
  rd_DestSubject :: string
  rd_ReasonFilter :: string
  rd_SubjectFilter :: string
  rd_StartSeq :: nat
  rd_Limit :: int
  rd_RateLimit :: duration
  rd_DryRun :: bool
  rd_StripDLQHeaders :: bool

record ReplayResult =
  rr_Considered :: int
  rr_Matched :: int
  rr_Published :: int
  rr_Skipped :: int
  rr_LastSeq :: nat

definition headerGet :: "header \<Rightarrow> string \<Rightarrow> string" where
  "headerGet headers key =
     (case headers of
        None \<Rightarrow> []
      | Some m \<Rightarrow>
          (case map_of m key of
             Some (v # _) \<Rightarrow> v
           | _ \<Rightarrow>
               (case List.find (\<lambda>(k, vals). equal_fold k key \<and> vals \<noteq> []) m of
                  Some (k, vals) \<Rightarrow> hd vals
                | None \<Rightarrow> [])))"

definition cloneHeaderMap :: "header \<Rightarrow> header" where
  "cloneHeaderMap h = map_option (map (\<lambda>(k, vals). (k, vals))) h"

definition matchReplayFilters :: "header \<Rightarrow> dlq_ReplayConfig \<Rightarrow> bool" where
  "matchReplayFilters headers cfg =
     (if \<not> IsEmpty (rd_ReasonFilter cfg) \<and> \<not> equal_fold (headerGet headers HeaderReason) (rd_ReasonFilter cfg) then False
      else if \<not> IsEmpty (rd_SubjectFilter cfg) \<and> headerGet headers HeaderOriginalSubject \<noteq> rd_SubjectFilter cfg then False
      else True)"

definition stripDLQHeaders :: "header \<Rightarrow> header" where
  "stripDLQHeaders headers =
     fold (\<lambda>k h. header_Del h k)
       [HeaderOriginalSubject, HeaderStream, HeaderSequence, HeaderNumDelivered, HeaderReason, HeaderConsumer,
        HeaderAutopsyError, HeaderAutopsyHash, HeaderAutopsyStack] headers"

text \<open>The next message: the first from the start sequence, then after the last one seen.\<close>

definition replay_fetch ::
  "'w MessageSource \<Rightarrow> dlq_ReplayConfig \<Rightarrow> nat \<Rightarrow> ReplayResult \<Rightarrow> 'w \<Rightarrow> (RawStreamMsg option \<times> 'w) option" where
  "replay_fetch src cfg seq out w =
     (case (if rr_Considered out = 0 then
              (case ms_GetMsg src (rd_SourceStream cfg) seq w of
                 (Inl _, w1) \<Rightarrow> ms_GetNextMsgAfter src (rd_SourceStream cfg) (u64 (seq + 2 ^ 64 - 1)) w1
               | (Inr raw, w1) \<Rightarrow> Some (Inr raw, w1))
            else ms_GetNextMsgAfter src (rd_SourceStream cfg) seq w) of
        None \<Rightarrow> None
      | Some (Inl _, w1) \<Rightarrow> Some (None, w1)
      | Some (Inr raw, w1) \<Rightarrow> Some (raw, w1))"

definition redrive_message :: "dlq_ReplayConfig \<Rightarrow> RawStreamMsg \<Rightarrow> string \<times> RawPublish" where
  "redrive_message cfg raw =
     (let headers = cloneHeaderMap (rm_Header raw);
          orig = headerGet headers HeaderOriginalSubject;
          dest = (if \<not> IsEmpty orig \<and> rd_DestSubject cfg = [] then orig else rd_DestSubject cfg);
          headers' = (if rd_StripDLQHeaders cfg then stripDLQHeaders headers else headers) in
      (dest, \<lparr> rp_Header = headers', rp_Data = rm_Data raw \<rparr>))"

text \<open>One message of the redrive: the loop returns (\<^const>\<open>Inl\<close>) or goes on (\<^const>\<open>Inr\<close>).\<close>

definition redrive ::
  "'w ctx_env \<Rightarrow> 'w raw_publisher \<Rightarrow> dlq_ReplayConfig \<Rightarrow> RawStreamMsg \<Rightarrow> ReplayResult \<Rightarrow> 'w
     \<Rightarrow> ((ReplayResult \<times> err) + ReplayResult) \<times> 'w" where
  "redrive env pub cfg raw out w =
     (if \<not> matchReplayFilters (cloneHeaderMap (rm_Header raw)) cfg
      then (Inr (out\<lparr> rr_Skipped := rr_Skipped out + 1 \<rparr>), w)
      else
        let out1 = out\<lparr> rr_Matched := rr_Matched out + 1 \<rparr>; (dest, message) = redrive_message cfg raw in
        if rd_DryRun cfg then (Inr out1, w)
        else
          (case pub dest message w of
             (Some e, w1) \<Rightarrow> (Inl (out1, wrap1 ''dlq replay publish seq=%d: %w'' e), w1)
           | (None, w1) \<Rightarrow>
               let out2 = out1\<lparr> rr_Published := rr_Published out1 + 1 \<rparr> in
               if rd_RateLimit cfg > 0 then
                 (case cx_wait env (rd_RateLimit cfg) w1 of (cancelled, w2) \<Rightarrow>
                    (case cx_Err env w2 of
                       Some e \<Rightarrow> if cancelled then (Inl (out2, e), w2) else (Inr out2, w2)
                     | None \<Rightarrow> (Inr out2, w2)))
               else (Inr out2, w1)))"

text \<open>The loop; its first argument is the number of messages still to be considered.\<close>

fun replay_loop ::
  "nat \<Rightarrow> 'w ctx_env \<Rightarrow> 'w MessageSource \<Rightarrow> 'w raw_publisher \<Rightarrow> dlq_ReplayConfig \<Rightarrow> nat \<Rightarrow> ReplayResult \<Rightarrow> 'w
     \<Rightarrow> ((ReplayResult \<times> err option) \<times> 'w) option" where
  "replay_loop 0 env src pub cfg seq out w = Some ((out, None), w)"
| "replay_loop (Suc n) env src pub cfg seq out w =
     (case cx_Err env w of
        Some e \<Rightarrow> Some ((out, Some e), w)
      | None \<Rightarrow>
          (case replay_fetch src cfg seq out w of
             None \<Rightarrow> None
           | Some (None, w1) \<Rightarrow> Some ((out, None), w1)
           | Some (Some raw, w1) \<Rightarrow>
               (case redrive env pub cfg raw
                       (out\<lparr> rr_LastSeq := rm_Sequence raw, rr_Considered := rr_Considered out + 1 \<rparr>) w1 of
                  (Inl (out1, e), w2) \<Rightarrow> Some ((out1, Some e), w2)
                | (Inr out1, w2) \<Rightarrow> replay_loop n env src pub cfg (rm_Sequence raw) out1 w2)))"

definition no_result :: ReplayResult where
  "no_result = \<lparr> rr_Considered = 0, rr_Matched = 0, rr_Published = 0, rr_Skipped = 0, rr_LastSeq = 0 \<rparr>"

definition ReplayToStream ::
  "'w ctx_env \<Rightarrow> 'w MessageSource option \<Rightarrow> 'w raw_publisher option \<Rightarrow> dlq_ReplayConfig \<Rightarrow> 'w
     \<Rightarrow> ((ReplayResult option \<times> err option) \<times> 'w) option" where
  "ReplayToStream env src pub cfg w =
     (case (src, pub) of
        (Some src, Some pub) \<Rightarrow>
          if IsEmpty (rd_SourceStream cfg)
          then Some ((None, Some (EMsg ''dlq replay: SourceStream is required'')), w)
          else if IsEmpty (rd_DestSubject cfg)
          then Some ((None, Some (EMsg ''dlq replay: DestSubject is required'')), w)
          else
            let limit = (if rd_Limit cfg \<le> 0 then 100 else rd_Limit cfg);
                start = (if rd_StartSeq cfg = 0 then 1 else rd_StartSeq cfg) in
            map_option (map_prod (map_prod Some (\<lambda>e. e)) (\<lambda>w. w))
              (replay_loop (nat limit) env src pub cfg start no_result w)
      | _ \<Rightarrow> Some ((None, Some (EMsg ''dlq replay: source and publisher are required'')), w))"

section \<open>No message is terminated without a copy\<close>

text \<open>
  \<open>D w\<close> are the publishes the server has accepted so far. An accepted publish is among them, nothing
  takes one back, and neither publishing nor recording settles a delivery.
\<close>

definition con_keeps :: "'w con_env \<Rightarrow> ('w \<Rightarrow> 'd) \<Rightarrow> bool" where
  "con_keeps env D \<longleftrightarrow>
     (\<forall>m w. D (snd (ce_Ack env m w)) = D w \<and> D (snd (ce_Nak env m w)) = D w \<and> D (snd (ce_Term env m w)) = D w)
   \<and> (\<forall>x w. D (ce_metric env x w) = D w) \<and> (\<forall>w. D (snd (ce_now env w)) = D w)
   \<and> (\<forall>f\<in>set (ce_activityListeners env). \<forall>w. D (f w) = D w)
   \<and> (\<forall>f\<in>set (ce_handledListeners env). \<forall>d w. D (f d w) = D w)"

definition dlq_laws ::
  "'w dlq_env \<Rightarrow> 'w dlq_Config \<Rightarrow> 'w raw_publisher \<Rightarrow> 'w verdicts \<Rightarrow> ('w \<Rightarrow> (string \<times> RawPublish) list) \<Rightarrow> bool" where
  "dlq_laws env cfg pub V D \<longleftrightarrow>
     ack_laws (dq_con env) V \<and> con_keeps (dq_con env) D
   \<and> (\<forall>s p w e w'. pub s p w = (e, w') \<longrightarrow> V w' = V w \<and> set (D w) \<subseteq> set (D w')
        \<and> (e = None \<longrightarrow> (s, p) \<in> set (D w')) \<and> \<not> err_is e ErrDLQRouted)
   \<and> (\<forall>f note w. dl_Recorder cfg = Some f \<longrightarrow> V (f note w) = V w \<and> D (f note w) = D w)"

text \<open>A copy of the message in the queue.\<close>

definition dead_letter :: "'w dlq_Config \<Rightarrow> msg \<Rightarrow> string \<times> RawPublish \<Rightarrow> bool" where
  "dead_letter cfg m p \<longleftrightarrow> fst p = dl_Subject cfg \<and> rp_Data (snd p) = msg_Data m
     \<and> header_lookup (rp_Header (snd p)) HeaderOriginalSubject = Some [msg_Subject m]"

lemmas dlq_header_names = HeaderOriginalSubject_def HeaderStream_def HeaderSequence_def HeaderNumDelivered_def
  HeaderReason_def HeaderConsumer_def HeaderAutopsyError_def HeaderAutopsyHash_def HeaderAutopsyStack_def
  headerTraceID_def headerMsgID_def headerContentType_def

lemma dlq_headers_distinct [simp]:
  "distinct [HeaderOriginalSubject, HeaderStream, HeaderSequence, HeaderNumDelivered, HeaderReason, HeaderConsumer,
     HeaderAutopsyError, HeaderAutopsyHash, HeaderAutopsyStack, headerTraceID, headerMsgID, headerContentType]"
  by (simp add: dlq_header_names)

lemma copy_header_other [simp]: "k \<noteq> k' \<Longrightarrow> header_lookup (copy_header from k' h) k = header_lookup h k"
  by (simp add: copy_header_def)

lemma route_headers_original:
  "header_lookup (route_headers env cfg m reason a) HeaderOriginalSubject = Some [msg_Subject m]"
  using dlq_headers_distinct
  by (auto simp: route_headers_def metadata_headers_def applyAutopsyHeaders_def Let_def split: option.splits)

lemma term_loop_keeps: "con_keeps env D \<Longrightarrow> D (snd (term_loop env n m e w)) = D w"
proof (induction n arbitrary: e w)
  case (Suc n)
  obtain te w1 where t: "ce_Term env m w = (te, w1)" by (cases "ce_Term env m w")
  have "D (snd (ce_Term env m w)) = D w" using Suc.prems by (simp add: con_keeps_def)
  with t Suc show ?case by (cases te) simp_all
qed simp

lemma route_outcome:
  assumes laws: "dlq_laws env cfg pub V D" and run: "route env cfg pub m reason a w = (e, w')"
  shows "set (D w) \<subseteq> set (D w')"
    "e = None \<or> err_is e ErrDLQRouted \<Longrightarrow> \<exists>p\<in>set (D w'). dead_letter cfg m p"
    "e \<noteq> None \<Longrightarrow> \<not> err_is e ErrDLQRouted \<Longrightarrow> V w' = V w"
proof -
  let ?p = "\<lparr> rp_Header = route_headers env cfg m reason a, rp_Data = msg_Data m \<rparr>"
  obtain pe w1 where p: "pub (dl_Subject cfg) ?p w = (pe, w1)" by (cases "pub (dl_Subject cfg) ?p w")
  have d: "V w1 = V w" "set (D w) \<subseteq> set (D w1)" "pe = None \<longrightarrow> (dl_Subject cfg, ?p) \<in> set (D w1)"
      "\<not> err_is pe ErrDLQRouted"
    using laws p unfolding dlq_laws_def by blast+
  obtain te w2 where t: "term_loop (dq_con env) 3 m None w1 = (te, w2)" by (cases "term_loop (dq_con env) 3 m None w1")
  have "con_keeps (dq_con env) D" using laws by (simp add: dlq_laws_def)
  from term_loop_keeps [OF this, of 3 m None w1] t have D2: "D w2 = D w1" by simp
  have "V (route_record cfg m reason a w2) = V w2 \<and> D (route_record cfg m reason a w2) = D w2"
    using laws by (simp add: route_record_def dlq_laws_def Let_def split: option.splits prod.splits)
  with run p t d D2 have e: "set (D w) \<subseteq> set (D w')" "pe = None \<Longrightarrow> (dl_Subject cfg, ?p) \<in> set (D w')"
      "pe \<noteq> None \<Longrightarrow> e \<noteq> None \<and> \<not> err_is e ErrDLQRouted \<and> V w' = V w"
      "pe = None \<Longrightarrow> e = None \<or> err_is e ErrDLQRouted"
    by (auto simp: route_def split: option.splits)
  show "set (D w) \<subseteq> set (D w')" by (rule e(1))
  have "dead_letter cfg m (dl_Subject cfg, ?p)" by (simp add: dead_letter_def route_headers_original)
  with e show "e = None \<or> err_is e ErrDLQRouted \<Longrightarrow> \<exists>p\<in>set (D w'). dead_letter cfg m p" by blast
  show "e \<noteq> None \<Longrightarrow> \<not> err_is e ErrDLQRouted \<Longrightarrow> V w' = V w" using e by blast
qed

text \<open>A handler that leaves settling to the library and does not claim to have used the queue.\<close>

definition plain_handler :: "'w verdicts \<Rightarrow> ('w \<Rightarrow> (string \<times> RawPublish) list) \<Rightarrow> 'w MsgHandler \<Rightarrow> bool" where
  "plain_handler V D handler \<longleftrightarrow> (\<forall>m w. V (snd (handler m w)) = V w \<and> set (D w) \<subseteq> set (D (snd (handler m w)))
     \<and> \<not> err_is (fst (invokeMsgHandler handler m w)) ErrDLQRouted)"

lemma with_handler_outcome:
  assumes laws: "dlq_laws env cfg pub V D" and plain: "plain_handler V D handler"
    and run: "invokeMsgHandler (with_handler env cfg pub handler) m w = (herr, w')"
  shows "herr = None \<Longrightarrow> \<not> over_delivered cfg m \<and> fst (handler m w) = HReturn None \<and> V w' = V w"
    "err_is herr ErrDLQRouted \<Longrightarrow> \<exists>p\<in>set (D w'). dead_letter cfg m p"
    "herr \<noteq> None \<Longrightarrow> \<not> err_is herr ErrDLQRouted \<Longrightarrow> V w' = V w"
proof -
  note r = route_outcome [OF laws]
  have "(herr = None \<longrightarrow> \<not> over_delivered cfg m \<and> fst (handler m w) = HReturn None \<and> V w' = V w)
    \<and> (err_is herr ErrDLQRouted \<longrightarrow> (\<exists>p\<in>set (D w'). dead_letter cfg m p))
    \<and> (herr \<noteq> None \<longrightarrow> \<not> err_is herr ErrDLQRouted \<longrightarrow> V w' = V w)"
  proof (cases "over_delivered cfg m")
    case True
    define a where "a = Some (fillAutopsyStack env \<lparr> ai_Err = dl_Reason cfg, ai_Stack = [] \<rparr> (dl_Autopsy cfg) w)"
    obtain e w1 where e: "route env cfg pub m (dl_Reason cfg) a w = (e, w1)"
      by (cases "route env cfg pub m (dl_Reason cfg) a w")
    with True run r [OF e] show ?thesis
      by (cases e) (auto simp: invokeMsgHandler_def with_handler_def a_def [symmetric])
  next
    case False
    obtain hr w1 where h: "handler m w = (hr, w1)" by (cases "handler m w")
    have V1: "V w1 = V w" and no: "\<not> err_is (fst (invokeMsgHandler handler m w)) ErrDLQRouted"
      using plain h unfolding plain_handler_def by (metis snd_conv)+
    show ?thesis
    proof (cases "\<exists>x. hr = HReturn (Some x) \<and> errors_Is x ErrSendToDLQ")
      case True
      then obtain x where x: "hr = HReturn (Some x)" "errors_Is x ErrSendToDLQ" by blast
      define a where "a = Some (fillAutopsyStack env \<lparr> ai_Err = dq_Error env x, ai_Stack = [] \<rparr> (dl_Autopsy cfg) w1)"
      obtain e w2 where e: "route env cfg pub m ''handler_requested'' a w1 = (e, w2)"
        by (cases "route env cfg pub m ''handler_requested'' a w1")
      with False x h run V1 r [OF e] show ?thesis
        by (cases e) (auto simp: invokeMsgHandler_def with_handler_def a_def [symmetric])
    next
      case sent: False
      then have "with_handler env cfg pub handler m w = handler m w"
        using False h by (auto simp: with_handler_def split: handler_result.splits option.splits)
      then have "invokeMsgHandler handler m w = (herr, w')" using run by (simp add: invokeMsgHandler_def)
      with h no V1 False show ?thesis
        by (auto simp: invokeMsgHandler_def split: handler_result.splits)
    qed
  qed
  then show "herr = None \<Longrightarrow> \<not> over_delivered cfg m \<and> fst (handler m w) = HReturn None \<and> V w' = V w"
    "err_is herr ErrDLQRouted \<Longrightarrow> \<exists>p\<in>set (D w'). dead_letter cfg m p"
    "herr \<noteq> None \<Longrightarrow> \<not> err_is herr ErrDLQRouted \<Longrightarrow> V w' = V w" by blast+
qed

lemma con_keeps_ops:
  assumes "con_keeps env D"
  shows "D (ce_metric env x w) = D w" "ce_now env w = (t, w') \<Longrightarrow> D w' = D w"
    "D (notifyProcessSuccess env w) = D w" "D (notifyMessageHandled env d w) = D w"
    "D (recordProcessError env c m w) = D w" "D (snd (process_end env c m e w)) = D w"
proof -
  show metric: "D (ce_metric env x w) = D w" for x w using assms by (simp add: con_keeps_def)
  show "ce_now env w = (t, w') \<Longrightarrow> D w' = D w" using assms by (metis con_keeps_def snd_conv)
  show success: "D (notifyProcessSuccess env w) = D w" "D (notifyMessageHandled env d w) = D w" for w
    unfolding notifyProcessSuccess_def notifyMessageHandled_def
    using assms by (auto intro!: fold_quiet simp: con_keeps_def)
  have nak: "D (snd (ce_Nak env m w)) = D w" "D (snd (ce_Ack env m w)) = D w" for w
    using assms by (simp_all add: con_keeps_def)
  show process: "D (recordProcessError env c m w) = D w" for w
    by (simp add: recordProcessError_def nak metric)
  obtain ae w1 where "ce_Ack env m w = (ae, w1)" by (cases "ce_Ack env m w")
  with nak(2) [of w] show "D (snd (process_end env c m e w)) = D w"
    by (cases ae) (auto simp: process_end_def metric success process split: option.splits)
qed

lemma with_completed:
  "dl_Publisher cfg = Some pub \<Longrightarrow> \<not> IsEmpty (dl_Subject cfg) \<Longrightarrow>
     \<exists>cfg'. With env cfg handler = with_handler env cfg' pub handler \<and> dead_letter cfg' = dead_letter cfg
       \<and> over_delivered cfg' = over_delivered cfg \<and> dlq_laws env cfg' pub V D = dlq_laws env cfg pub V D"
  by (intro exI [of _ "cfg\<lparr> dl_Reason := (if IsEmpty (dl_Reason cfg) then ''max_deliver'' else dl_Reason cfg),
      dl_Autopsy := withDefaults (dl_Autopsy cfg) \<rparr>"])
    (simp add: With_def dead_letter_def [abs_def] over_delivered_def [abs_def] dlq_laws_def cong: option.case_cong)

text \<open>
  C6. With a dead-letter queue no message is lost: when the processing of an unsettled message
  reports success, or leaves it acked or terminated, then either its handler returned nil and it was
  acked, or the queue has accepted a copy with its payload and its subject. In particular it is
  terminated only after its copy was accepted, also when terminating it failed at first, and a
  message that was delivered too often is never acked.
\<close>

theorem dead_letter_no_loss:
  assumes laws: "dlq_laws env cfg pub V D" and plain: "plain_handler V D handler"
    and queue: "dl_Publisher cfg = Some pub" "\<not> IsEmpty (dl_Subject cfg)"
    and start: "process_begin (dq_con env) c m w = (start, w1)"
    and data: "(if rc_PayloadDecompression (c_cfg c) then maybeDecompressMsg z m else Inr m) = Inr m'"
    and new: "V w (msg_Reply m) = None"
    and run: "processMessage (dq_con env) z c m (With env cfg handler) w = (e, w')"
    and settled: "e = None \<or> V w' (msg_Reply m) \<in> {Some Acked, Some Termed}"
  shows "V w' (msg_Reply m) = Some Acked \<and> \<not> over_delivered cfg m' \<and> fst (handler m' w1) = HReturn None
    \<or> (\<exists>p\<in>set (D w'). dead_letter cfg m' p)"
proof -
  let ?r = "msg_Reply m"
  have ack: "ack_laws (dq_con env) V" and keeps: "con_keeps (dq_con env) D" using laws by (simp_all add: dlq_laws_def)
  obtain cfg' where cfg': "With env cfg handler = with_handler env cfg' pub handler" "dead_letter cfg' = dead_letter cfg"
      "over_delivered cfg' = over_delivered cfg" "dlq_laws env cfg' pub V D"
    using with_completed [OF queue, of env handler V D] laws by auto
  have reply: "msg_Reply m' = ?r" using data maybeDecompressMsg_Reply by (auto split: if_splits)
  obtain herr w2 where call: "invokeMsgHandler (With env cfg handler) m' w1 = (herr, w2)"
    by (cases "invokeMsgHandler (With env cfg handler) m' w1")
  obtain stop w3 where now: "ce_now (dq_con env) w2 = (stop, w3)" by (cases "ce_now (dq_con env) w2")
  define w5 where "w5 = notifyMessageHandled (dq_con env) (stop - start)
    (if c_hasMetrics c \<and> c_hasHandlingTime c then ce_metric (dq_con env) (HandlingTime (stop - start)) w3 else w3)"
  have w5: "V w5 = V w2" "D w5 = D w2"
    using quiet_ops [OF ack] quiet_ops(2) [OF ack now] con_keeps_ops [OF keeps] con_keeps_ops(2) [OF keeps now]
    by (simp_all add: w5_def)
  have last: "process_end (dq_con env) c m' herr w5 = (e, w')"
    using run start data call now by (simp add: processMessage_def w5_def Let_def)
  have D: "D w' = D w2" using con_keeps_ops(6) [OF keeps, of c m' herr w5] last w5 by simp
  have out: "outcome_ok herr (V w2 ?r) e (V w' ?r)"
    using process_end_outcome(1) [OF ack last] w5 reply by simp
  have "V w1 ?r = None"
    using new quiet_ops [OF ack] start
    by (auto simp: process_begin_def recordMessageMetrics_def Let_def split: prod.splits if_splits option.splits)
  note h = with_handler_outcome [OF cfg'(4) plain call [unfolded cfg'(1)]]
  show ?thesis
  proof (cases "err_is herr ErrDLQRouted")
    case True
    with h(2) D cfg'(2) show ?thesis by auto
  next
    case False
    then have "V w2 ?r = None" using h(1,3) \<open>V w1 ?r = None\<close> by (cases herr) auto
    with False out settled have "herr = None" "V w' ?r = Some Acked"
      by (auto simp: outcome_ok_def split: option.splits if_splits)
    with h(1) cfg'(3) show ?thesis by simp
  qed
qed

text \<open>A world of verdicts and of accepted publishes in which every call succeeds.\<close>

type_synonym letter_world = "(string \<times> verdict) list \<times> (string \<times> RawPublish) list"

definition letter_op :: "verdict \<Rightarrow> msg \<Rightarrow> letter_world \<Rightarrow> err option \<times> letter_world" where
  "letter_op v m w = (fst (ledger_op v m (fst w)), snd (ledger_op v m (fst w)), snd w)"

definition letter_env :: "letter_world dlq_env" where
  "letter_env = \<lparr> dq_con = \<lparr> ce_Ack = letter_op Acked, ce_Nak = letter_op Naked, ce_NakWithDelay = (\<lambda>_. letter_op Naked),
       ce_Term = letter_op Termed, ce_InProgress = (\<lambda>_ w. (None, w)), ce_Respond = (\<lambda>_ _ w. (None, w)),
       ce_metric = (\<lambda>_ w. w), ce_now = (\<lambda>w. (1, w)), ce_activityListeners = [], ce_handledListeners = [] \<rparr>,
     dq_Error = (\<lambda>_. ''failed''), dq_Stack = (\<lambda>_. ''main''), dq_sha256 = (\<lambda>_. []) \<rparr>"

definition letter_pub :: "letter_world raw_publisher" where
  "letter_pub subject p w = (None, fst w, snd w @ [(subject, p)])"

definition letter_cfg :: "letter_world dlq_Config" where
  "letter_cfg = \<lparr> dl_Publisher = Some letter_pub, dl_Recorder = None, dl_Subject = ''orders.dlq'', dl_Reason = [],
     dl_Autopsy = \<lparr> au_Enabled = True, au_IncludeStack = True, au_MaxErrorBytes = 0, au_MaxStackBytes = 0 \<rparr>,
     dl_MaxDeliver = 3 \<rparr>"

definition poison_msg :: msg where
  "poison_msg = \<lparr> msg_Subject = ''orders'', msg_Reply = ''r'', msg_Data = ''x'', msg_Header = None,
     msg_Metadata = Some \<lparr> md_StreamSeq = 7, md_ConsumerSeq = 7, md_NumDelivered = 4, md_Stream = ''S'',
       md_Consumer = ''C'' \<rparr> \<rparr>"

lemma letter_settles: "settles (\<lambda>w. map_of (fst w)) v (letter_op v)"
  by (auto simp: settles_def letter_op_def ledger_op_def go_err split: if_splits)

lemma letter_laws: "dlq_laws letter_env letter_cfg letter_pub (\<lambda>w. map_of (fst w)) snd"
  by (auto simp: dlq_laws_def ack_laws_def con_keeps_def letter_env_def letter_cfg_def letter_settles letter_pub_def
      letter_op_def)

theorem dead_letter_no_loss_witness:
  "\<exists>w'. processMessage (dq_con letter_env) one_compressor (demo_consumer 1) poison_msg
       (With letter_env letter_cfg (\<lambda>_ w. (HReturn None, w))) ([], []) = (None, w')
     \<and> map_of (fst w') ''r'' = Some Termed \<and> (\<exists>p\<in>set (snd w'). dead_letter letter_cfg poison_msg p)"
proof -
  let ?run = "processMessage (dq_con letter_env) one_compressor (demo_consumer 1) poison_msg
       (With letter_env letter_cfg (\<lambda>_ w. (HReturn None, w))) ([], [])"
  have plain: "plain_handler (\<lambda>w. map_of (fst w)) snd (\<lambda>_ w. (HReturn None, w))"
    by (simp add: plain_handler_def invokeMsgHandler_def)
  have r: "fst ?run = None" "map_of (fst (snd ?run)) ''r'' = Some Termed"
    by (simp_all add: processMessage_def process_begin_def recordMessageMetrics_def letter_env_def demo_consumer_defs
        maybeDecompressMsg_def poison_msg_def invokeMsgHandler_def With_def letter_cfg_def letter_pub_def
        with_handler_def over_delivered_def route_def letter_op_def ledger_op_def route_record_def process_end_def
        notifyMessageHandled_def notifyProcessSuccess_def IsEmpty_def numeral_eq_Suc Let_def)
  have queue: "dl_Publisher letter_cfg = Some letter_pub" "\<not> IsEmpty (dl_Subject letter_cfg)"
    and start: "process_begin (dq_con letter_env) (demo_consumer 1) poison_msg ([], []) = (1, ([], []))"
    and data: "(if rc_PayloadDecompression (c_cfg (demo_consumer 1)) then maybeDecompressMsg one_compressor poison_msg
        else Inr poison_msg) = Inr poison_msg"
    and reply: "msg_Reply poison_msg = ''r''"
    by (simp_all add: letter_cfg_def process_begin_def recordMessageMetrics_def letter_env_def demo_consumer_defs
        maybeDecompressMsg_def poison_msg_def IsEmpty_def)
  have run: "?run = (fst ?run, snd ?run)" by simp
  have "\<exists>p\<in>set (snd (snd ?run)). dead_letter letter_cfg poison_msg p"
    using dead_letter_no_loss [OF letter_laws plain queue start data _ run] r unfolding reply by simp
  with r show ?thesis by (intro exI [of _ "snd ?run"]) (auto simp: prod_eq_iff)
qed

section \<open>A redrive visits what is stored\<close>

text \<open>The messages stored from one sequence number to another.\<close>

definition raw_range :: "(nat \<Rightarrow> RawStreamMsg option) \<Rightarrow> nat \<Rightarrow> nat \<Rightarrow> RawStreamMsg list" where
  "raw_range C lo hi = map (\<lambda>s. the (C s)) (filter (\<lambda>s. C s \<noteq> None) [lo..<Suc hi])"

lemma raw_range_none: "(\<forall>j. lo \<le> j \<longrightarrow> C j = None) \<Longrightarrow> raw_range C lo hi = []"
  by (simp add: raw_range_def)

lemma raw_range_next:
  assumes "lo \<le> s" "s \<le> hi" "C s = Some m" "\<forall>j. lo \<le> j \<and> j < s \<longrightarrow> C j = None"
  shows "raw_range C lo hi = m # raw_range C (Suc s) hi"
proof -
  have "[lo..<Suc hi] = [lo..<s] @ s # [Suc s..<Suc hi]"
    using upt_add_eq_append [of lo s "Suc hi - s"] assms(1,2) by (simp add: upt_conv_Cons del: upt_Suc)
  then show ?thesis using assms(3,4) by (simp add: raw_range_def)
qed

text \<open>
  The destination is not in the source stream, an accepted publish is logged and a refused one is
  not, and waiting changes nothing.
\<close>

definition redrive_ok ::
  "'w ctx_env \<Rightarrow> 'w raw_publisher \<Rightarrow> ('w \<Rightarrow> nat \<Rightarrow> RawStreamMsg option) \<Rightarrow> ('w \<Rightarrow> (string \<times> RawPublish) list) \<Rightarrow> bool" where
  "redrive_ok env pub S D \<longleftrightarrow>
     (\<forall>s p w e w'. pub s p w = (e, w') \<longrightarrow> S w' = S w \<and> D w' = (if e = None then D w @ [(s, p)] else D w))
   \<and> (\<forall>d w c w'. cx_wait env d w = (c, w') \<longrightarrow> S w' = S w \<and> D w' = D w)"

abbreviation matching :: "dlq_ReplayConfig \<Rightarrow> RawStreamMsg list \<Rightarrow> RawStreamMsg list" where
  "matching cfg ms \<equiv> filter (\<lambda>m. matchReplayFilters (rm_Header m) cfg) ms"

text \<open>
  What a redrive of the messages \<open>ms\<close> adds to the result and to the publishes: the first \<open>k\<close> of those that match
  the filters are published, all of them if there is no error and the redrive is not a dry run.
\<close>

definition redriven ::
  "dlq_ReplayConfig \<Rightarrow> RawStreamMsg list \<Rightarrow> ReplayResult \<Rightarrow> ReplayResult \<Rightarrow> err option \<Rightarrow> nat \<Rightarrow> bool" where
  "redriven cfg ms out out' e k \<longleftrightarrow>
     k \<le> length (matching cfg ms) \<and> rr_Published out' = rr_Published out + int k \<and> (rd_DryRun cfg \<longrightarrow> k = 0)
   \<and> (e = None \<longrightarrow> rr_Considered out' = rr_Considered out + int (length ms)
        \<and> rr_Matched out' = rr_Matched out + int (length (matching cfg ms))
        \<and> rr_Skipped out' = rr_Skipped out + int (length ms) - int (length (matching cfg ms))
        \<and> k = (if rd_DryRun cfg then 0 else length (matching cfg ms)))"

lemma redriven_append:
  assumes "redriven cfg ms out out1 None k" "redriven cfg ms' out1 out' e k'"
  shows "redriven cfg (ms @ ms') out out' e (k + k')"
    "take (k + k') (matching cfg (ms @ ms')) = take k (matching cfg ms) @ take k' (matching cfg ms')"
  using assms by (cases "rd_DryRun cfg"; simp add: redriven_def)+

lemma redriven_stopped:
  assumes "redriven cfg ms out out' (Some e) k"
  shows "redriven cfg (ms @ ms') out out' (Some e) k" "take k (matching cfg (ms @ ms')) = take k (matching cfg ms)"
  using assms by (simp_all add: redriven_def)

lemma cloneHeaderMap_id [simp]: "cloneHeaderMap h = h"
  by (simp add: cloneHeaderMap_def case_prod_eta id_def [symmetric] option.map_id0)

lemma redrive_one:
  assumes ok: "redrive_ok env pub S D" and run: "redrive env pub cfg m out w = (r, w')"
  shows "S w' = S w \<and> (\<exists>k. D w' = D w @ map (redrive_message cfg) (take k (matching cfg [m]))
    \<and> redriven cfg [m] (out\<lparr> rr_Considered := rr_Considered out - 1 \<rparr>)
        (case r of Inl (out', e) \<Rightarrow> out' | Inr out' \<Rightarrow> out') (case r of Inl (out', e) \<Rightarrow> Some e | Inr out' \<Rightarrow> None) k
    \<and> (\<forall>out'. r = Inr out' \<longrightarrow> rr_Considered out' = rr_Considered out \<and> rr_LastSeq out' = rr_LastSeq out))"
proof (cases "matchReplayFilters (rm_Header m) cfg \<and> \<not> rd_DryRun cfg")
  case False
  with run show ?thesis
    by (intro conjI exI [of _ 0]) (auto simp: redrive_def redriven_def Let_def split: if_splits prod.splits)
next
  case True
  obtain dest message where dm: "redrive_message cfg m = (dest, message)" by (cases "redrive_message cfg m")
  obtain e w1 where p: "pub dest message w = (e, w1)" by (cases "pub dest message w")
  obtain c w2 where c: "cx_wait env (rd_RateLimit cfg) w1 = (c, w2)" by (cases "cx_wait env (rd_RateLimit cfg) w1")
  have "S w1 = S w" "D w1 = (if e = None then D w @ [(dest, message)] else D w)" "S w2 = S w1" "D w2 = D w1"
    using ok p c unfolding redrive_ok_def by blast+
  with True run dm p c show ?thesis
    by (intro conjI exI [of _ "if e = None then 1 else 0"])
      (auto simp: redrive_def redriven_def Let_def split: if_splits option.splits)
qed

text \<open>
  What a redrive relies on of its source: \<open>S w\<close> is what the stream holds, reading changes neither it
  nor the publishes \<open>D w\<close>, a stored message is returned for its sequence number, and the message
  after a sequence number is the next one stored.
\<close>

locale message_source =
  fixes src :: "'w MessageSource" and stream :: string
    and S :: "'w \<Rightarrow> nat \<Rightarrow> RawStreamMsg option" and D :: "'w \<Rightarrow> (string \<times> RawPublish) list"
  assumes get_keeps: "ms_GetMsg src stream seq w = (r, w') \<Longrightarrow> S w' = S w \<and> D w' = D w"
    and get_law: "case S w seq of
        Some m \<Rightarrow> fst (ms_GetMsg src stream seq w) = Inr (Some m) \<and> rm_Sequence m = seq
      | None \<Rightarrow> \<exists>e. fst (ms_GetMsg src stream seq w) = Inl e"
    and next_law: "seq + 1 < 2 ^ 64 \<Longrightarrow>
      \<exists>r w'. ms_GetNextMsgAfter src stream seq w = Some (r, w') \<and> S w' = S w \<and> D w' = D w
        \<and> (case r of
             Inr (Some m) \<Rightarrow> seq < rm_Sequence m \<and> S w (rm_Sequence m) = Some m
               \<and> (\<forall>j. seq < j \<and> j < rm_Sequence m \<longrightarrow> S w j = None)
           | Inr None \<Rightarrow> False
           | Inl e \<Rightarrow> \<forall>j. seq < j \<longrightarrow> S w j = None)"
begin

lemma next_in_range:
  assumes "seq + 1 < 2 ^ 64" "\<forall>j. S w j \<noteq> None \<longrightarrow> j \<le> tip"
  shows "\<exists>r w'. ms_GetNextMsgAfter src stream seq w = Some (r, w') \<and> S w' = S w \<and> D w' = D w
    \<and> (case raw_range (S w) (Suc seq) tip of
         [] \<Rightarrow> \<exists>e. r = Inl e
       | m # ms \<Rightarrow> r = Inr (Some m) \<and> Suc seq \<le> rm_Sequence m \<and> rm_Sequence m \<le> tip
           \<and> ms = raw_range (S w) (Suc (rm_Sequence m)) tip)"
proof -
  obtain r w' where n: "ms_GetNextMsgAfter src stream seq w = Some (r, w')" "S w' = S w" "D w' = D w"
      "case r of
         Inr (Some m) \<Rightarrow> seq < rm_Sequence m \<and> S w (rm_Sequence m) = Some m
           \<and> (\<forall>j. seq < j \<and> j < rm_Sequence m \<longrightarrow> S w j = None)
       | Inr None \<Rightarrow> False
       | Inl e \<Rightarrow> \<forall>j. seq < j \<longrightarrow> S w j = None"
    using next_law [OF assms(1), of w] by blast
  show ?thesis
  proof (cases r)
    case (Inl e)
    with n have "raw_range (S w) (Suc seq) tip = []" by (intro raw_range_none) (simp add: Suc_le_eq)
    with n Inl show ?thesis by simp
  next
    case (Inr x)
    then obtain m where m: "r = Inr (Some m)" "seq < rm_Sequence m" "S w (rm_Sequence m) = Some m"
        "\<forall>j. seq < j \<and> j < rm_Sequence m \<longrightarrow> S w j = None"
      using n(4) by (cases x) auto
    with assms(2) have "rm_Sequence m \<le> tip" by blast
    with m have "raw_range (S w) (Suc seq) tip = m # raw_range (S w) (Suc (rm_Sequence m)) tip"
      by (intro raw_range_next) (simp_all add: Suc_le_eq)
    with n m \<open>rm_Sequence m \<le> tip\<close> show ?thesis by auto
  qed
qed

lemma fetch_in_range:
  assumes cfg: "rd_SourceStream cfg = stream" and seq: "0 < seq" "seq + 1 < 2 ^ 64"
    and tip: "\<forall>j. S w j \<noteq> None \<longrightarrow> j \<le> tip"
    and lo: "lo = (if rr_Considered out = 0 then seq else Suc seq)"
  shows "\<exists>w'. S w' = S w \<and> D w' = D w \<and>
    (case raw_range (S w) lo tip of
       [] \<Rightarrow> replay_fetch src cfg seq out w = Some (None, w')
     | m # ms \<Rightarrow> replay_fetch src cfg seq out w = Some (Some m, w') \<and> lo \<le> rm_Sequence m \<and> rm_Sequence m \<le> tip
         \<and> ms = raw_range (S w) (Suc (rm_Sequence m)) tip)"
proof (cases "rr_Considered out = 0")
  case True
  obtain g w1 where g: "ms_GetMsg src stream seq w = (g, w1)" by (cases "ms_GetMsg src stream seq w")
  have keep: "S w1 = S w" "D w1 = D w" using get_keeps [OF g] by simp_all
  show ?thesis
  proof (cases "S w seq")
    case (Some m)
    then have m: "g = Inr (Some m)" "rm_Sequence m = seq" using get_law [where w = w and seq = seq] g by simp_all
    moreover have "raw_range (S w) seq tip = m # raw_range (S w) (Suc seq) tip"
      using Some tip by (intro raw_range_next) auto
    ultimately show ?thesis using True lo g cfg keep tip Some
      by (intro exI [of _ w1]) (auto simp: replay_fetch_def)
  next
    case None
    then obtain e where e: "g = Inl e" using get_law [where w = w and seq = seq] g by auto
    have prev: "u64 (seq + 2 ^ 64 - 1) = seq - 1" using seq by (simp add: u64_def mod_if)
    obtain r w' where n: "ms_GetNextMsgAfter src stream (seq - 1) w1 = Some (r, w')" "S w' = S w1" "D w' = D w1"
      "case raw_range (S w1) (Suc (seq - 1)) tip of
         [] \<Rightarrow> \<exists>e. r = Inl e
       | m # ms \<Rightarrow> r = Inr (Some m) \<and> Suc (seq - 1) \<le> rm_Sequence m \<and> rm_Sequence m \<le> tip
           \<and> ms = raw_range (S w1) (Suc (rm_Sequence m)) tip"
      using next_in_range [where seq = "seq - 1" and w = w1 and tip = tip] seq tip keep by auto
    with True lo g cfg keep e prev seq show ?thesis
      by (intro exI [of _ w']) (auto simp: replay_fetch_def split: list.splits)
  qed
next
  case False
  obtain r w' where n: "ms_GetNextMsgAfter src stream seq w = Some (r, w')" "S w' = S w" "D w' = D w"
      "case raw_range (S w) (Suc seq) tip of
         [] \<Rightarrow> \<exists>e. r = Inl e
       | m # ms \<Rightarrow> r = Inr (Some m) \<and> Suc seq \<le> rm_Sequence m \<and> rm_Sequence m \<le> tip
           \<and> ms = raw_range (S w) (Suc (rm_Sequence m)) tip"
    using next_in_range [OF seq(2) tip] by blast
  with False lo cfg show ?thesis
    by (intro exI [of _ w']) (auto simp: replay_fetch_def split: list.splits)
qed

lemma replay_loop_visits:
  assumes ok: "redrive_ok env pub S D" and cfg: "rd_SourceStream cfg = stream" and tip: "tip + 1 < 2 ^ 64"
    and "0 < seq" "seq + 1 < 2 ^ 64" "\<forall>j. S w j \<noteq> None \<longrightarrow> j \<le> tip" "0 \<le> rr_Considered out"
    and "lo = (if rr_Considered out = 0 then seq else Suc seq)"
  shows "\<exists>out' e w' k. replay_loop n env src pub cfg seq out w = Some ((out', e), w') \<and> S w' = S w
    \<and> (let ms = take n (raw_range (S w) lo tip) in
       D w' = D w @ map (redrive_message cfg) (take k (matching cfg ms)) \<and> redriven cfg ms out out' e k)"
  using assms(4-)
proof (induction n arbitrary: seq out w lo)
  case 0
  then show ?case by (simp add: redriven_def)
next
  case (Suc n)
  let ?ms = "raw_range (S w) lo tip"
  obtain w1 where f: "S w1 = S w" "D w1 = D w"
      "case ?ms of [] \<Rightarrow> replay_fetch src cfg seq out w = Some (None, w1)
       | m # ms \<Rightarrow> replay_fetch src cfg seq out w = Some (Some m, w1) \<and> lo \<le> rm_Sequence m \<and> rm_Sequence m \<le> tip
           \<and> ms = raw_range (S w) (Suc (rm_Sequence m)) tip"
    using fetch_in_range [OF cfg Suc.prems(1-3,5)] by blast
  show ?case
  proof (cases "cx_Err env w")
    case (Some e)
    then show ?thesis by (simp add: redriven_def exI [of _ 0])
  next
    case None
    show ?thesis
    proof (cases ?ms)
      case Nil
      with f None show ?thesis by (simp add: redriven_def)
    next
      case (Cons m ms)
      let ?out = "out\<lparr> rr_LastSeq := rm_Sequence m, rr_Considered := rr_Considered out + 1 \<rparr>"
      have m: "replay_fetch src cfg seq out w = Some (Some m, w1)" "lo \<le> rm_Sequence m" "rm_Sequence m \<le> tip"
          "ms = raw_range (S w) (Suc (rm_Sequence m)) tip"
        using f(3) Cons by simp_all
      obtain r w2 where r: "redrive env pub cfg m ?out w1 = (r, w2)" by (cases "redrive env pub cfg m ?out w1")
      obtain k where k: "S w2 = S w1" "D w2 = D w1 @ map (redrive_message cfg) (take k (matching cfg [m]))"
          "redriven cfg [m] (?out\<lparr> rr_Considered := rr_Considered ?out - 1 \<rparr>)
            (case r of Inl (out', e) \<Rightarrow> out' | Inr out' \<Rightarrow> out') (case r of Inl (out', e) \<Rightarrow> Some e | Inr out' \<Rightarrow> None) k"
          "\<forall>out'. r = Inr out' \<longrightarrow> rr_Considered out' = rr_Considered ?out"
        using redrive_one [OF ok r] by blast
      show ?thesis
      proof (cases r)
        case (Inl x)
        then obtain out' e where x: "r = Inl (out', e)" by (cases x) auto
        have one: "redriven cfg [m] out out' (Some e) k" using k(3) x by (simp add: redriven_def)
        have "D w2 = D w @ map (redrive_message cfg) (take k (matching cfg (m # take n ms)))"
            "redriven cfg (m # take n ms) out out' (Some e) k"
          using redriven_stopped [OF one, of "take n ms"] k(2) f(2) by (simp_all del: filter.simps)
        moreover have "S w2 = S w" using k(1) f(1) by simp
        moreover have "replay_loop (Suc n) env src pub cfg seq out w = Some ((out', Some e), w2)"
          using None m(1) r x by simp
        ultimately show ?thesis unfolding Cons take_Suc_Cons Let_def by blast
      next
        case (Inr out1)
        have "\<exists>out' e w' k. replay_loop n env src pub cfg (rm_Sequence m) out1 w2 = Some ((out', e), w') \<and> S w' = S w2
          \<and> (let ms = take n (raw_range (S w2) (Suc (rm_Sequence m)) tip) in
             D w' = D w2 @ map (redrive_message cfg) (take k (matching cfg ms)) \<and> redriven cfg ms out1 out' e k)"
        proof (rule Suc.IH)
          show "0 < rm_Sequence m" "rm_Sequence m + 1 < 2 ^ 64" using Suc.prems(1,5) m(2,3) tip by (auto split: if_splits)
          show "\<forall>j. S w2 j \<noteq> None \<longrightarrow> j \<le> tip" using Suc.prems(3) k(1) f(1) by simp
          show "0 \<le> rr_Considered out1" "Suc (rm_Sequence m) = (if rr_Considered out1 = 0 then rm_Sequence m else Suc (rm_Sequence m))"
            using k(4) Inr Suc.prems(4) by simp_all
        qed
        then obtain out' e w' k' where rest: "replay_loop n env src pub cfg (rm_Sequence m) out1 w2 = Some ((out', e), w')"
            "S w' = S w2" "D w' = D w2 @ map (redrive_message cfg) (take k' (matching cfg (take n ms)))"
            "redriven cfg (take n ms) out1 out' e k'"
          using k(1) f(1) m(4) by (auto simp: Let_def)
        have one: "redriven cfg [m] out out1 None k" using k(3) Inr by (simp add: redriven_def)
        have "D w' = D w @ map (redrive_message cfg) (take (k + k') (matching cfg (m # take n ms)))"
            "redriven cfg (m # take n ms) out out' e (k + k')"
          using redriven_append [OF one rest(4)] k(2) f(2) rest(3) by (simp_all del: filter.simps)
        moreover have "replay_loop (Suc n) env src pub cfg seq out w = Some ((out', e), w')"
          using None m(1) r Inr rest(1) by simp
        moreover have "S w' = S w" using k(1) f(1) rest(2) by simp
        ultimately show ?thesis unfolding Cons take_Suc_Cons Let_def by blast
      qed
    qed
  qed
qed

lemma ReplayToStream_visits:
  assumes ok: "redrive_ok env pub S D" and cfg: "rd_SourceStream cfg = stream"
    and names: "\<not> IsEmpty stream" "\<not> IsEmpty (rd_DestSubject cfg)"
    and tip: "tip + 1 < 2 ^ 64" "\<forall>j. S w j \<noteq> None \<longrightarrow> j \<le> tip" and start: "rd_StartSeq cfg + 1 < 2 ^ 64"
  shows "\<exists>out e w' k. ReplayToStream env (Some src) (Some pub) cfg w = Some ((Some out, e), w') \<and> S w' = S w
    \<and> (let ms = take (nat (if rd_Limit cfg \<le> 0 then 100 else rd_Limit cfg))
                  (raw_range (S w) (if rd_StartSeq cfg = 0 then 1 else rd_StartSeq cfg) tip) in
       D w' = D w @ map (redrive_message cfg) (take k (matching cfg ms)) \<and> redriven cfg ms no_result out e k)"
proof -
  let ?n = "nat (if rd_Limit cfg \<le> 0 then 100 else rd_Limit cfg)"
    and ?seq = "if rd_StartSeq cfg = 0 then 1 else rd_StartSeq cfg"
  have "\<exists>out' e w' k. replay_loop ?n env src pub cfg ?seq no_result w = Some ((out', e), w') \<and> S w' = S w
    \<and> (let ms = take ?n (raw_range (S w) ?seq tip) in
       D w' = D w @ map (redrive_message cfg) (take k (matching cfg ms)) \<and> redriven cfg ms no_result out' e k)"
    by (rule replay_loop_visits [OF ok cfg tip(1)]) (use start tip(2) in \<open>simp_all add: no_result_def\<close>)
  then show ?thesis using cfg names by (auto simp: ReplayToStream_def Let_def)
qed

end

text \<open>The stream manager is such a source.\<close>

definition stream_source :: "'w js_env \<Rightarrow> 'w MessageSource" where
  "stream_source env = \<lparr>
     ms_GetMsg = (\<lambda>stream seq w. map_prod (map_sum (\<lambda>e. e) Some) (\<lambda>w. w) (GetMsg env stream seq w)),
     ms_GetNextMsgAfter = (\<lambda>stream seq w.
       map_option (map_prod (map_sum (\<lambda>e. e) Some) (\<lambda>w. w)) (GetNextMsgAfter env stream seq w)) \<rparr>"

lemma stream_manager_source:
  assumes "reads_ok env stream S" "ValidateStreamName stream = None" "reads_keep env stream D"
  shows "message_source (stream_source env) stream S D"
proof
  fix seq w r w'
  assume "ms_GetMsg (stream_source env) stream seq w = (r, w')"
  then obtain g where g: "GetMsg env stream seq w = (g, w')"
    by (cases "GetMsg env stream seq w") (simp add: stream_source_def)
  moreover have "S w' = S w" using GetMsg_reads [OF assms(1,2), of w seq] g by (cases "S w seq") auto
  ultimately show "S w' = S w \<and> D w' = D w" using GetMsg_reads_keep [OF assms(3)] by blast
next
  fix seq w
  show "case S w seq of
      None \<Rightarrow> \<exists>e. fst (ms_GetMsg (stream_source env) stream seq w) = Inl e
    | Some m \<Rightarrow> fst (ms_GetMsg (stream_source env) stream seq w) = Inr (Some m) \<and> rm_Sequence m = seq"
    using GetMsg_reads [OF assms(1,2), of w seq] by (cases "S w seq") (auto simp: stream_source_def)
next
  fix seq :: nat and w
  assume "seq + 1 < 2 ^ 64"
  from GetNextMsgAfter_answer [OF assms(1,2) this, of w]
  obtain r w' where r: "GetNextMsgAfter env stream seq w = Some (r, w')" "S w' = S w"
      "case r of
         Inr m \<Rightarrow> seq < rm_Sequence m \<and> S w (rm_Sequence m) = Some m
           \<and> (\<forall>j. seq < j \<and> j < rm_Sequence m \<longrightarrow> S w j = None)
       | Inl e \<Rightarrow> errors_Is e NatsErrMsgNotFound \<and> (\<forall>j. seq < j \<longrightarrow> S w j = None)" by blast
  moreover have "D w' = D w" using GetNextMsgAfter_reads_keep [OF r(1) assms(3)] by simp
  ultimately show "\<exists>r w'. ms_GetNextMsgAfter (stream_source env) stream seq w = Some (r, w') \<and> S w' = S w \<and> D w' = D w
      \<and> (case r of
           Inl e \<Rightarrow> \<forall>j. seq < j \<longrightarrow> S w j = None
         | Inr None \<Rightarrow> False
         | Inr (Some m) \<Rightarrow> seq < rm_Sequence m \<and> S w (rm_Sequence m) = Some m
             \<and> (\<forall>j. seq < j \<and> j < rm_Sequence m \<longrightarrow> S w j = None))"
    by (cases r) (auto simp: stream_source_def)
qed


text \<open>A stream with a gap, read in a world that is the list of publishes.\<close>

definition letter_at :: "nat \<Rightarrow> string \<Rightarrow> RawStreamMsg" where
  "letter_at seq reason = (raw_at seq 0)\<lparr> rm_Header := Some [(HeaderReason, [reason])] \<rparr>"

definition letters :: "RawStreamMsg list" where
  "letters = [letter_at 2 ''a'', letter_at 5 ''b'', letter_at 9 ''a'']"

definition log_ctx :: "(string \<times> RawPublish) list ctx_env" where
  "log_ctx = \<lparr> cx_Err = (\<lambda>_. None), cx_wait = (\<lambda>_ w. (False, w)) \<rparr>"

definition log_pub :: "(string \<times> RawPublish) list raw_publisher" where
  "log_pub subject p w = (None, w @ [(subject, p)])"

definition letter_redrive :: dlq_ReplayConfig where
  "letter_redrive = \<lparr> rd_SourceStream = ''S'', rd_DestSubject = ''d'', rd_ReasonFilter = ''A'', rd_SubjectFilter = [],
     rd_StartSeq = 0, rd_Limit = 0, rd_RateLimit = 1, rd_DryRun = False, rd_StripDLQHeaders = True \<rparr>"

lemma letters_reads: "reads_ok (stored_js letters) ''S'' (stored letters)"
  by (rule stored_reads) (simp_all add: letters_def letter_at_def raw_at_def)

lemma stored_keep: "reads_keep (stored_js ms) stream D"
  by (simp add: reads_keep_def keeps_def stored_js_def)

interpretation letter_source: message_source "stream_source (stored_js letters)" "''S''" "stored letters" "\<lambda>log. log"
  by (rule stream_manager_source [OF letters_reads _ stored_keep]) code_simp

lemma letters_range: "raw_range (stored letters w) 1 9 = letters"
proof -
  have "[1..<Suc 9] = [1, 2, 3, 4, 5, 6, 7, 8, 9 :: nat]" by (simp add: upt_conv_Cons)
  then show ?thesis by (simp add: raw_range_def stored_def letters_def letter_at_def raw_at_def)
qed


section \<open>Routing and redriving\<close>

definition kept :: "msg \<Rightarrow> string \<Rightarrow> string list option" where
  "kept m k = (if IsEmpty (header_Get (msg_Header m) k) then None else Some [header_Get (msg_Header m) k])"

lemma copy_header_lookup:
  "header_lookup (copy_header (msg_Header m) k h) k' = (if k' = k \<and> kept m k \<noteq> None then kept m k else header_lookup h k')"
  by (cases "msg_Header m"; cases "k' = k") (simp_all add: copy_header_def kept_def IsEmpty_def)

definition dlq_headers :: "string list" where
  "dlq_headers = [HeaderOriginalSubject, HeaderStream, HeaderSequence, HeaderNumDelivered, HeaderReason, HeaderConsumer,
     HeaderAutopsyError, HeaderAutopsyHash, HeaderAutopsyStack]"

lemma fold_header_Del:
  "header_lookup (fold (\<lambda>k h. header_Del h k) ks h) k = (if k \<in> set ks then None else header_lookup h k)"
proof (induction ks arbitrary: h)
  case (Cons k' ks)
  then show ?case by (cases "k = k'") simp_all
qed simp

lemma stripDLQHeaders_lookup:
  "header_lookup (stripDLQHeaders h) k = (if k \<in> set dlq_headers then None else header_lookup h k)"
  unfolding stripDLQHeaders_def dlq_headers_def [symmetric] by (rule fold_header_Del)

lemma autopsy_headers_lookup:
  "k \<notin> set dlq_headers \<Longrightarrow> header_lookup (applyAutopsyHeaders env h cfg data info) k = header_lookup h k"
  "k \<notin> set dlq_headers \<Longrightarrow> header_lookup (metadata_headers meta h) k = header_lookup h k"
  by (auto simp: dlq_headers_def applyAutopsyHeaders_def metadata_headers_def Let_def split: option.splits)

definition dlq_msg_id :: "msg_meta \<Rightarrow> string" where
  "dlq_msg_id meta = ''dlq-'' @ md_Stream meta @ ''-'' @ fmt_d (md_StreamSeq meta)"

lemma route_headers_lookup:
  assumes "k \<notin> set dlq_headers"
  shows "header_lookup (route_headers env cfg m reason a) k =
    (if k \<in> {headerTraceID, headerContentType} then kept m k
     else if k = headerMsgID then
       (case kept m headerMsgID of Some v \<Rightarrow> Some v | None \<Rightarrow> map_option (\<lambda>meta. [dlq_msg_id meta]) (msg_Metadata m))
     else None)"
proof -
  let ?h0 = "Some [(HeaderOriginalSubject, [msg_Subject m]), (HeaderReason, [reason])]"
  define h1 where "h1 = copy_header (msg_Header m) headerContentType
    (copy_header (msg_Header m) headerMsgID (copy_header (msg_Header m) headerTraceID ?h0))"
  define h3 where "h3 = (let h2 = (case msg_Metadata m of None \<Rightarrow> h1 | Some meta \<Rightarrow> metadata_headers meta h1) in
    if au_Enabled (dl_Autopsy cfg) then applyAutopsyHeaders env h2 (dl_Autopsy cfg) (msg_Data m) a else h2)"
  have h1: "header_lookup h1 k = (if k \<in> {headerTraceID, headerContentType, headerMsgID} then kept m k else None)"
    if "k \<notin> set dlq_headers" for k
    using that dlq_headers_distinct by (auto simp: h1_def copy_header_lookup dlq_headers_def)
  have h3: "header_lookup h3 k = header_lookup h1 k" if "k \<notin> set dlq_headers" for k
    using that by (simp add: h3_def autopsy_headers_lookup Let_def split: option.splits)
  have mid: "headerMsgID \<notin> set dlq_headers" by (simp add: dlq_headers_def dlq_header_names)
  have empty: "IsEmpty (header_Get h3 headerMsgID) \<longleftrightarrow> kept m headerMsgID = None"
    using h1 [OF mid] h3 [OF mid] by (auto simp: header_Get_def kept_def IsEmpty_def split: if_splits)
  have "route_headers env cfg m reason a =
      (if IsEmpty (header_Get h3 headerMsgID) then
         (case msg_Metadata m of None \<Rightarrow> h3 | Some meta \<Rightarrow> header_Set h3 headerMsgID [dlq_msg_id meta])
       else h3)"
    unfolding route_headers_def h3_def h1_def dlq_msg_id_def Let_def by (rule refl)
  with empty h1 [OF assms] h3 [OF assms] dlq_headers_distinct show ?thesis
    by (cases "k = headerMsgID") (auto split: option.splits)
qed

text \<open>
  C22. What a redrive that strips the headers of the queue makes of a routed message: the payload is
  the original one and the only headers are the trace id and the content type the original had, and a
  message id, the original one or one made of the stream and the sequence number.
\<close>

theorem route_redrive_roundtrip:
  assumes "rm_Header raw = route_headers env dlq m reason a" "rm_Data raw = msg_Data m" "rd_StripDLQHeaders cfg"
    and "redrive_message cfg raw = (dest, p)"
  shows "rp_Data p = msg_Data m \<and>
    (\<forall>k. header_lookup (rp_Header p) k =
      (if k \<in> {headerTraceID, headerContentType} then kept m k
       else if k = headerMsgID then
         (case kept m headerMsgID of Some v \<Rightarrow> Some v | None \<Rightarrow> map_option (\<lambda>meta. [dlq_msg_id meta]) (msg_Metadata m))
       else None))"
proof -
  have p: "rp_Data p = msg_Data m" "rp_Header p = stripDLQHeaders (route_headers env dlq m reason a)"
    using assms by (auto simp: redrive_message_def Let_def)
  have "k \<notin> {headerTraceID, headerContentType, headerMsgID}" if "k \<in> set dlq_headers" for k
    using that by (auto simp: dlq_headers_def dlq_header_names)
  with p show ?thesis by (auto simp: stripDLQHeaders_lookup route_headers_lookup)
qed

definition routed_letter :: RawStreamMsg where
  "routed_letter = (raw_at 1 0)\<lparr> rm_Header := route_headers letter_env letter_cfg poison_msg ''max_deliver'' None,
     rm_Data := msg_Data poison_msg \<rparr>"

theorem route_redrive_roundtrip_witness:
  "rp_Data (snd (redrive_message letter_redrive routed_letter)) = ''x''
   \<and> header_lookup (rp_Header (snd (redrive_message letter_redrive routed_letter))) HeaderReason = None"
proof -
  have r: "rm_Header routed_letter = route_headers letter_env letter_cfg poison_msg ''max_deliver'' None"
      "rm_Data routed_letter = msg_Data poison_msg" "rd_StripDLQHeaders letter_redrive" "msg_Data poison_msg = ''x''"
    by (simp_all add: routed_letter_def letter_redrive_def poison_msg_def)
  show ?thesis
    using route_redrive_roundtrip [OF r(1-3) prod.collapse [symmetric]] dlq_headers_distinct r(4) by auto
qed

end
