(* ===== verification/Pull.thy ===== *)
theory Pull
  imports Consumer
begin

text \<open>
  The pull consumer (\<open>consumer_pull.go\<close>): binding, fetching, the processing loop with adaptive batch
  size and circuit breaker, and the three ways a batch is processed. A batch that is shared by
  goroutines is a state with one step per action; \<open>pu_sched\<close> is the scheduler, which picks the next
  goroutine. \<open>pu_ctxErr\<close> is what \<open>ctx.Err()\<close> returns in a state of the world, \<open>pu_Fetch\<close> the fetch of
  nats.go, which may return messages along with an error, \<open>pu_sub\<close> the subscription, which \<open>Close\<close>
  may take away at any time. The batch is a list of messages, none of them nil.
\<close>

section \<open>Fetching\<close>

abbreviation defaultFetchMaxWait :: duration where "defaultFetchMaxWait \<equiv> 5 * Second"
abbreviation defaultFetchBatch :: int where "defaultFetchBatch \<equiv> 10"

record fetchConfig =
  f_maxWait :: duration
  f_heartbeat :: duration

record processConfig =
  pr_batch :: int
  pr_maxWait :: duration
  pr_heartbeat :: duration
  pr_concurrency :: int

type_synonym FetchOpt = "fetchConfig \<Rightarrow> fetchConfig"
type_synonym ProcessOpt = "processConfig \<Rightarrow> processConfig"

definition WithFetchMaxWait :: "duration \<Rightarrow> FetchOpt" where
  "WithFetchMaxWait d c = c\<lparr> f_maxWait := d \<rparr>"

definition WithFetchHeartbeat :: "duration \<Rightarrow> FetchOpt" where
  "WithFetchHeartbeat d c = c\<lparr> f_heartbeat := d \<rparr>"

definition WithFetchBatch :: "int \<Rightarrow> ProcessOpt" where
  "WithFetchBatch batch c = c\<lparr> pr_batch := batch \<rparr>"

definition WithProcessMaxWait :: "duration \<Rightarrow> ProcessOpt" where
  "WithProcessMaxWait d c = c\<lparr> pr_maxWait := d \<rparr>"

definition WithProcessHeartbeat :: "duration \<Rightarrow> ProcessOpt" where
  "WithProcessHeartbeat d c = c\<lparr> pr_heartbeat := d \<rparr>"

definition WithProcessConcurrency :: "int \<Rightarrow> ProcessOpt" where
  "WithProcessConcurrency n c = c\<lparr> pr_concurrency := n \<rparr>"

text \<open>The options of nats.go the sources pass; a context carries the timeout added to it.\<close>

datatype pull_opt = PullContext "duration option" | PullHeartbeat duration | PullMaxWait duration
datatype pull_bind = Bind string string | BindStream string

text \<open>A goroutine of a batch to run next: the caller, or one of the workers.\<close>

datatype batch_action = RunCaller | RunCtxDone | RunWorker bool nat

record ('s, 'v, 'w) pull_env =
  pu_con :: "'w con_env"
  pu_ctxErr :: "'w \<Rightarrow> err option"
  pu_sub :: "'w \<Rightarrow> 's option"
  pu_Fetch :: "'s \<Rightarrow> int \<Rightarrow> pull_opt list \<Rightarrow> 'w \<Rightarrow> (msg list \<times> err option) \<times> 'w"
  pu_Unsubscribe :: "'s \<Rightarrow> 'w \<Rightarrow> err option \<times> 'w"
  pu_PullSubscribe :: "string \<Rightarrow> string \<Rightarrow> pull_bind \<Rightarrow> 'w \<Rightarrow> 's result \<times> 'w"
  pu_newV2 :: "(string \<Rightarrow> string \<Rightarrow> 'w \<Rightarrow> 'v result \<times> 'w) option"
  pu_pause :: "duration \<Rightarrow> 'w \<Rightarrow> bool \<times> 'w"
  pu_sched :: "'w \<Rightarrow> batch_action list \<times> 'w"

section \<open>Binding\<close>

definition pull_legacy :: "('s, 'v, 'w) pull_env \<Rightarrow> string \<Rightarrow> string \<Rightarrow> 'w \<Rightarrow> ('v + 's) result \<times> 'w" where
  "pull_legacy env stream durable w =
     (case (if IsEmpty durable then None else ValidateDurableName durable) of
        Some verr \<Rightarrow> (Inl (wrap1 ''pull stream=%q durable=%q: %w'' verr), w)
      | None \<Rightarrow>
          (case (if IsEmpty durable then pu_PullSubscribe env ''>'' [] (BindStream stream) w
                 else pu_PullSubscribe env [] durable (Bind stream durable) w) of
             (Inl e, w1) \<Rightarrow> (Inl (wrap1 ''pull subscribe stream=%q durable=%q: %w'' e), w1)
           | (Inr sub, w1) \<Rightarrow> (Inr (Inr sub), w1)))"

text \<open>The result is a consumer of the new API, or the subscription of a legacy one.\<close>

definition Pull :: "('s, 'v, 'w) pull_env \<Rightarrow> string \<Rightarrow> string \<Rightarrow> 'w \<Rightarrow> ('v + 's) result \<times> 'w" where
  "Pull env stream durable w =
     (case ValidateStreamName stream of
        Some e \<Rightarrow> (Inl (wrap1 ''pull stream=%q: %w'' e), w)
      | None \<Rightarrow>
          (case (if IsEmpty durable then None else pu_newV2 env) of
             None \<Rightarrow> pull_legacy env stream durable w
           | Some newV2 \<Rightarrow>
               (case ValidateDurableName durable of
                  Some verr \<Rightarrow> (Inl (wrap1 ''pull stream=%q durable=%q: %w'' verr), w)
                | None \<Rightarrow>
                    (case newV2 stream durable w of
                       (Inr pc, w1) \<Rightarrow> (Inr (Inl pc), w1)
                     | (Inl _, w1) \<Rightarrow> pull_legacy env stream durable w1))))"

text \<open>\<open>Close\<close>: the error, the subscription afterwards, the world.\<close>

definition pull_Close :: "('s, 'v, 'w) pull_env \<Rightarrow> 's option \<Rightarrow> 'w \<Rightarrow> err option \<times> 's option \<times> 'w" where
  "pull_Close env sub w =
     (case sub of
        None \<Rightarrow> (None, None, w)
      | Some s \<Rightarrow> (case pu_Unsubscribe env s w of (e, w1) \<Rightarrow> (e, None, w1)))"

definition subscription :: "('s, 'v, 'w) pull_env \<Rightarrow> 'w \<Rightarrow> 's result" where
  "subscription env w =
     (case pu_sub env w of None \<Rightarrow> Inl (EMsg ''pull: subscription closed'') | Some s \<Rightarrow> Inr s)"

section \<open>Fetch\<close>

text \<open>The heartbeat asked of the server.\<close>

definition fetch_heartbeat :: "fetchConfig \<Rightarrow> duration option" where
  "fetch_heartbeat cfg =
     (if f_heartbeat cfg > 0 then
        (let hb = (if f_maxWait cfg > 0 \<and> f_heartbeat cfg \<ge> f_maxWait cfg
                   then f_maxWait cfg div 2 else f_heartbeat cfg) in
         if hb > 0 then Some hb else None)
      else None)"

definition fetch_opts :: "fetchConfig \<Rightarrow> pull_opt list" where
  "fetch_opts cfg =
     PullContext (if f_maxWait cfg > 0 then Some (f_maxWait cfg) else None)
     # (case fetch_heartbeat cfg of None \<Rightarrow> [] | Some hb \<Rightarrow> [PullHeartbeat hb])"

definition Fetch ::
  "('s, 'v, 'w) pull_env \<Rightarrow> consumer \<Rightarrow> int \<Rightarrow> FetchOpt list \<Rightarrow> 'w \<Rightarrow> (msg list \<times> err option) \<times> 'w" where
  "Fetch env c batch opts w =
     (let cfg = fold (\<lambda>opt. opt) opts \<lparr> f_maxWait = defaultFetchMaxWait, f_heartbeat = 0 \<rparr> in
      case subscription env w of
        Inl e \<Rightarrow> (([], Some e), w)
      | Inr sub \<Rightarrow>
          (case ce_now (pu_con env) w of (start, w1) \<Rightarrow>
           case pu_Fetch env sub batch (fetch_opts cfg) w1 of ((messages, e), w2) \<Rightarrow>
             let metric = ce_metric (pu_con env);
                 w3 = (if c_hasMetrics c
                       then metric (FetchBatchSize (length messages))
                              (metric FetchWaitTime (snd (ce_now (pu_con env) w2)))
                       else w2);
                 w4 = (if c_hasMetrics c \<and> err_is e NatsErrNoHeartbeat then metric IdleHeartbeatMisses w3 else w3) in
             ((messages, map_option (wrap1 ''pull fetch batch=%d: %w'') e), w4)))"

definition FetchNoWait ::
  "('s, 'v, 'w) pull_env \<Rightarrow> int \<Rightarrow> 'w \<Rightarrow> (msg list \<times> err option) \<times> 'w" where
  "FetchNoWait env batch w =
     (case subscription env w of
        Inl e \<Rightarrow> (([], Some e), w)
      | Inr sub \<Rightarrow>
          (case pu_Fetch env sub batch [PullMaxWait 0] w of ((messages, e), w1) \<Rightarrow>
             ((messages, map_option (wrap1 ''pull fetch no-wait batch=%d: %w'') e), w1)))"

definition nakRemaining :: "('s, 'v, 'w) pull_env \<Rightarrow> msg list \<Rightarrow> 'w \<Rightarrow> 'w" where
  "nakRemaining env messages w = fold (\<lambda>m w. snd (ce_Nak (pu_con env) m w)) messages w"

section \<open>A batch in sequence\<close>

fun batch_seq ::
  "('s, 'v, 'w) pull_env \<Rightarrow> compressors \<Rightarrow> consumer \<Rightarrow> 'w MsgHandler \<Rightarrow> msg list \<Rightarrow> 'w \<Rightarrow> err option \<times> 'w" where
  "batch_seq env z c handler [] w = (None, w)"
| "batch_seq env z c handler (m # ms) w =
     (case pu_ctxErr env w of
        Some e \<Rightarrow> (Some (wrap1 ''pull process: %w'' e), nakRemaining env (m # ms) w)
      | None \<Rightarrow> batch_seq env z c handler ms (snd (processMessage (pu_con env) z c m handler w)))"

section \<open>A batch shared by goroutines\<close>

text \<open>What became of a message, in the order it happened; a history the code does not keep.\<close>

datatype handled = Processed msg | Nakked msg | Refused msg

fun handled_msg :: "handled \<Rightarrow> msg" where
  "handled_msg (Processed m) = m"
| "handled_msg (Nakked m) = m"
| "handled_msg (Refused m) = m"

definition record_err :: "err option \<Rightarrow> err option \<Rightarrow> err option" where
  "record_err firstErr e = (case e of None \<Rightarrow> firstErr | Some e \<Rightarrow> (case firstErr of None \<Rightarrow> Some e | Some f \<Rightarrow> Some f))"

datatype job_pc = JobRecv | JobGot msg | JobRun msg | JobDone
datatype caller_pc = CallerLoop | CallerWait | CallerReturned "err option"

record 'w conc =
  k_messages :: "msg list"
  k_next :: nat
  k_pc :: caller_pc
  k_jobs :: "msg list"
  k_closed :: bool
  k_workers :: "job_pc list"
  k_firstErr :: "err option"
  k_inflight :: int
  k_world :: 'w
  k_log :: "handled list"

definition conc_start :: "msg list \<Rightarrow> int \<Rightarrow> 'w \<Rightarrow> 'w conc" where
  "conc_start messages concurrency w =
     \<lparr> k_messages = messages, k_next = 0, k_pc = CallerLoop, k_jobs = [], k_closed = False,
       k_workers = replicate (nat (if concurrency > int (length messages) then int (length messages)
                                   else concurrency)) JobRecv,
       k_firstErr = None, k_inflight = 0, k_world = w, k_log = [] \<rparr>"

definition conc_worker ::
  "('s, 'v, 'w) pull_env \<Rightarrow> compressors \<Rightarrow> consumer \<Rightarrow> 'w MsgHandler \<Rightarrow> nat \<Rightarrow> 'w conc \<Rightarrow> 'w conc option" where
  "conc_worker env z c handler i s =
     (case k_workers s ! i of
        JobRecv \<Rightarrow>
          (case k_jobs s of
             m # ms \<Rightarrow> Some (s\<lparr> k_jobs := ms, k_workers := (k_workers s)[i := JobGot m] \<rparr>)
           | [] \<Rightarrow> if k_closed s then Some (s\<lparr> k_workers := (k_workers s)[i := JobDone] \<rparr>) else None)
      | JobGot m \<Rightarrow>
          (case pu_ctxErr env (k_world s) of
             Some e \<Rightarrow>
               Some (s\<lparr> k_firstErr := record_err (k_firstErr s) (Some e),
                        k_world := snd (ce_Nak (pu_con env) m (k_world s)),
                        k_workers := (k_workers s)[i := JobRecv], k_log := k_log s @ [Nakked m] \<rparr>)
           | None \<Rightarrow>
               Some (s\<lparr> k_inflight := k_inflight s + 1,
                        k_world := (if c_hasMetrics c then ce_metric (pu_con env) PullBatchInflight (k_world s)
                                    else k_world s),
                        k_workers := (k_workers s)[i := JobRun m] \<rparr>))
      | JobRun m \<Rightarrow>
          (case processMessage (pu_con env) z c m handler (k_world s) of (e, w1) \<Rightarrow>
             Some (s\<lparr> k_world := w1, k_inflight := k_inflight s - 1,
                      k_firstErr := record_err (k_firstErr s) (map_option (wrap1 ''pull process subject=%q: %w'') e),
                      k_workers := (k_workers s)[i := JobRecv], k_log := k_log s @ [Processed m] \<rparr>))
      | JobDone \<Rightarrow> None)"

definition conc_caller :: "('s, 'v, 'w) pull_env \<Rightarrow> 'w conc \<Rightarrow> 'w conc option" where
  "conc_caller env s =
     (case k_pc s of
        CallerLoop \<Rightarrow>
          if k_next s < length (k_messages s) then
            (if k_firstErr s \<noteq> None \<or> pu_ctxErr env (k_world s) \<noteq> None then
               Some (s\<lparr> k_world := nakRemaining env (drop (k_next s) (k_messages s)) (k_world s),
                        k_log := k_log s @ map Nakked (drop (k_next s) (k_messages s)),
                        k_next := length (k_messages s), k_closed := True, k_pc := CallerWait \<rparr>)
             else Some (s\<lparr> k_jobs := k_jobs s @ [k_messages s ! k_next s], k_next := k_next s + 1 \<rparr>))
          else Some (s\<lparr> k_closed := True, k_pc := CallerWait \<rparr>)
      | CallerWait \<Rightarrow>
          if list_all (\<lambda>pc. pc = JobDone) (k_workers s)
          then Some (s\<lparr> k_pc := CallerReturned (map_option (wrap1 ''pull process: %w'') (pu_ctxErr env (k_world s))) \<rparr>)
          else None
      | CallerReturned _ \<Rightarrow> None)"

definition conc_step ::
  "('s, 'v, 'w) pull_env \<Rightarrow> compressors \<Rightarrow> consumer \<Rightarrow> 'w MsgHandler \<Rightarrow> batch_action \<Rightarrow> 'w conc \<Rightarrow> 'w conc option" where
  "conc_step env z c handler a s =
     (case a of
        RunCaller \<Rightarrow> conc_caller env s
      | RunCtxDone \<Rightarrow> None
      | RunWorker _ i \<Rightarrow> if i < length (k_workers s) then conc_worker env z c handler i s else None)"

text \<open>A scheduler's choice that cannot run now is passed over.\<close>

definition sched_exec :: "('a \<Rightarrow> 'b \<Rightarrow> 'b option) \<Rightarrow> 'a list \<Rightarrow> 'b \<Rightarrow> 'b" where
  "sched_exec step acts s = fold (\<lambda>a s. case step a s of None \<Rightarrow> s | Some s' \<Rightarrow> s') acts s"

fun conc_sequential ::
  "('s, 'v, 'w) pull_env \<Rightarrow> compressors \<Rightarrow> consumer \<Rightarrow> 'w MsgHandler \<Rightarrow> msg list \<Rightarrow> 'w \<Rightarrow> err option \<times> 'w" where
  "conc_sequential env z c handler [] w = (None, w)"
| "conc_sequential env z c handler (m # ms) w =
     (case processMessage (pu_con env) z c m handler w of
        (Some e, w1) \<Rightarrow> (Some (wrap1 ''pull process subject=%q: %w'' e), w1)
      | (None, w1) \<Rightarrow> conc_sequential env z c handler ms w1)"

text \<open>\<^const>\<open>None\<close>: the schedule ends before the call returns.\<close>

definition processBatchConcurrent ::
  "('s, 'v, 'w) pull_env \<Rightarrow> compressors \<Rightarrow> consumer \<Rightarrow> 'w MsgHandler \<Rightarrow> int \<Rightarrow> msg list \<Rightarrow> 'w \<Rightarrow> (err option \<times> 'w) option" where
  "processBatchConcurrent env z c handler concurrency messages w =
     (if concurrency \<le> 1 then Some (conc_sequential env z c handler messages w)
      else
        (case pu_sched env w of (acts, w1) \<Rightarrow>
           let s = sched_exec (conc_step env z c handler) acts (conc_start messages concurrency w1) in
           case k_pc s of CallerReturned e \<Rightarrow> Some (e, k_world s) | _ \<Rightarrow> None))"

section \<open>A batch in the worker pool\<close>

text \<open>
  The batch together with the pool of the parent consumer. A worker of the pool takes its steps; when
  it runs a task of this batch the closure handed to the pool runs. \<open>b_open\<close>: the messages handed
  to the pool whose closure has not run. No other tasks are in the pool.
\<close>

datatype enq_pc = EnqLoop | EnqBlocked msg | EnqWait | EnqReturned "err option"

record 'w pbatch =
  b_c :: consumer
  b_todo :: "msg list"
  b_pc :: enq_pc
  b_wg :: int
  b_open :: "msg list"
  b_firstErr :: "err option"
  b_world :: 'w
  b_log :: "handled list"

definition pbatch_start :: "consumer \<Rightarrow> msg list \<Rightarrow> 'w \<Rightarrow> 'w pbatch" where
  "pbatch_start c messages w =
     \<lparr> b_c = initWorkerPool c, b_todo = messages, b_pc = EnqLoop, b_wg = 0, b_open = [], b_firstErr = None,
       b_world = w, b_log = [] \<rparr>"

definition batch_fn :: "msg msgFn" where
  "batch_fn = (\<lambda>_ _. None)"

text \<open>An error of the current message ends the loop over the batch.\<close>

definition enq_break :: "err \<Rightarrow> 'w pbatch \<Rightarrow> 'w pbatch" where
  "enq_break e s = s\<lparr> b_firstErr := record_err (b_firstErr s) (Some e), b_pc := EnqWait \<rparr>"

definition enqueue :: "('s, 'v, 'w) pull_env \<Rightarrow> msg \<Rightarrow> msg list \<Rightarrow> 'w pbatch \<Rightarrow> 'w pbatch option" where
  "enqueue env m ms s =
     (case pool_publish True batch_fn m (b_c s) of
        None \<Rightarrow> None
      | Some ((ok, Some e), c1) \<Rightarrow> Some (enq_break e (s\<lparr> b_c := c1 \<rparr>))
      | Some ((ok, None), c1) \<Rightarrow>
          if ok then Some (s\<lparr> b_c := c1, b_todo := ms, b_wg := b_wg s + 1, b_open := b_open s @ [m] \<rparr>)
          else
            (case handlePoolBackpressure (pu_con env) c1 m (b_world s) of (bpErr, c2, w1) \<Rightarrow>
               let s1 = s\<lparr> b_c := c2, b_world := w1 \<rparr> in
               if bpErr = None \<or> err_is bpErr ErrPoolFull
               then Some (s1\<lparr> b_todo := ms, b_wg := b_wg s + 1, b_pc := EnqBlocked m \<rparr>)
               else if err_is bpErr ErrBackpressureHandled
               then Some (s1\<lparr> b_todo := ms, b_log := b_log s @ [Refused m] \<rparr>)
               else Some (enq_break (the bpErr) s1)))"

definition pbatch_caller :: "('s, 'v, 'w) pull_env \<Rightarrow> 'w pbatch \<Rightarrow> 'w pbatch option" where
  "pbatch_caller env s =
     (case b_pc s of
        EnqLoop \<Rightarrow>
          (case b_todo s of
             [] \<Rightarrow> Some (s\<lparr> b_pc := EnqWait \<rparr>)
           | m # ms \<Rightarrow>
               (case pu_ctxErr env (b_world s) of
                  Some e \<Rightarrow> Some (enq_break (wrap1 ''pull process: %w'' e) s)
                | None \<Rightarrow> enqueue env m ms s))
      | EnqBlocked m \<Rightarrow>
          (case pool_publish False batch_fn m (b_c s) of
             None \<Rightarrow> None
           | Some ((_, Some e), c1) \<Rightarrow> Some (enq_break e (s\<lparr> b_c := c1, b_wg := b_wg s - 1 \<rparr>))
           | Some ((_, None), c1) \<Rightarrow> Some (s\<lparr> b_c := c1, b_open := b_open s @ [m], b_pc := EnqLoop \<rparr>))
      | EnqWait \<Rightarrow> if b_wg s = 0 then Some (s\<lparr> b_pc := EnqReturned (b_firstErr s) \<rparr>) else None
      | EnqReturned _ \<Rightarrow> None)"

text \<open>The context is done: a publish that waits gives up, and so does the wait for the batch.\<close>

definition pbatch_ctx :: "('s, 'v, 'w) pull_env \<Rightarrow> 'w pbatch \<Rightarrow> 'w pbatch option" where
  "pbatch_ctx env s =
     (case pu_ctxErr env (b_world s) of
        None \<Rightarrow> None
      | Some e \<Rightarrow>
          (case b_pc s of
             EnqBlocked m \<Rightarrow> Some (enq_break e (s\<lparr> b_wg := b_wg s - 1 \<rparr>))
           | EnqWait \<Rightarrow>
               let firstErr = record_err (b_firstErr s) (Some (wrap1 ''pull process: %w'' e)) in
               Some (s\<lparr> b_firstErr := firstErr, b_pc := EnqReturned firstErr \<rparr>)
           | _ \<Rightarrow> None))"

text \<open>The closure: process the message, keep its error, leave the wait group.\<close>

definition batch_closure ::
  "('s, 'v, 'w) pull_env \<Rightarrow> compressors \<Rightarrow> 'w MsgHandler \<Rightarrow> msg \<Rightarrow> 'w pbatch \<Rightarrow> 'w pbatch" where
  "batch_closure env z handler m s =
     (case processMessage (pu_con env) z (b_c s) m handler (b_world s) of (e, w1) \<Rightarrow>
        s\<lparr> b_world := w1, b_firstErr := record_err (b_firstErr s) e, b_wg := b_wg s - 1,
           b_open := remove1 m (b_open s), b_log := b_log s @ [Processed m] \<rparr>)"

definition pbatch_worker ::
  "('s, 'v, 'w) pull_env \<Rightarrow> compressors \<Rightarrow> 'w MsgHandler \<Rightarrow> bool \<Rightarrow> nat \<Rightarrow> 'w pbatch \<Rightarrow> 'w pbatch option" where
  "pbatch_worker env z handler don i s =
     (case c_workerPool (b_c s) of
        None \<Rightarrow> None
      | Some pool \<Rightarrow>
          if i < length (w_workers pool) then
            (case worker_step don i pool of
               None \<Rightarrow> None
             | Some pool' \<Rightarrow>
                 let s1 = s\<lparr> b_c := (b_c s)\<lparr> c_workerPool := Some pool' \<rparr> \<rparr> in
                 if length (w_log pool') > length (w_log pool) \<and> t_msg (fst (last (w_log pool'))) \<in> set (b_open s)
                 then Some (batch_closure env z handler (t_msg (fst (last (w_log pool')))) s1)
                 else Some s1)
          else None)"

definition pbatch_step ::
  "('s, 'v, 'w) pull_env \<Rightarrow> compressors \<Rightarrow> 'w MsgHandler \<Rightarrow> batch_action \<Rightarrow> 'w pbatch \<Rightarrow> 'w pbatch option" where
  "pbatch_step env z handler a s =
     (case a of
        RunCaller \<Rightarrow> pbatch_caller env s
      | RunCtxDone \<Rightarrow> pbatch_ctx env s
      | RunWorker don i \<Rightarrow> pbatch_worker env z handler don i s)"

definition processBatchWithPool ::
  "('s, 'v, 'w) pull_env \<Rightarrow> compressors \<Rightarrow> 'w MsgHandler \<Rightarrow> consumer \<Rightarrow> msg list \<Rightarrow> 'w
     \<Rightarrow> (err option \<times> consumer \<times> 'w) option" where
  "processBatchWithPool env z handler c messages w =
     (case pu_sched env w of (acts, w1) \<Rightarrow>
        let s = sched_exec (pbatch_step env z handler) acts (pbatch_start c messages w1) in
        case b_pc s of EnqReturned e \<Rightarrow> Some (e, b_c s, b_world s) | _ \<Rightarrow> None)"

section \<open>The loop\<close>

definition processBatch ::
  "('s, 'v, 'w) pull_env \<Rightarrow> compressors \<Rightarrow> 'w MsgHandler \<Rightarrow> processConfig \<Rightarrow> consumer \<Rightarrow> msg list \<Rightarrow> 'w
     \<Rightarrow> (err option \<times> consumer \<times> 'w) option" where
  "processBatch env z handler cfg c messages w =
     (if messages = [] then Some (None, c, w)
      else
        let w1 = snd (ce_now (pu_con env) w);
            finish = (\<lambda>w. if c_hasMetrics c
                          then ce_metric (pu_con env) PullBatchProcessTime (snd (ce_now (pu_con env) w)) else w) in
        if rc_WorkerPoolEnabled (c_cfg c) then
          (case processBatchWithPool env z handler c messages w1 of
             None \<Rightarrow> None
           | Some (Some e, c1, w2) \<Rightarrow> Some (Some e, c1, nakRemaining env messages w2)
           | Some (None, c1, w2) \<Rightarrow> Some (None, c1, finish w2))
        else
          (case (if pr_concurrency cfg > 1 then processBatchConcurrent env z c handler (pr_concurrency cfg) messages w1
                 else Some (batch_seq env z c handler messages w1)) of
             None \<Rightarrow> None
           | Some (Some e, w2) \<Rightarrow> Some (Some e, c, w2)
           | Some (None, w2) \<Rightarrow> Some (None, c, finish w2)))"

definition process_config :: "consumer \<Rightarrow> ProcessOpt list \<Rightarrow> processConfig" where
  "process_config c opts =
     (let cfg0 = fold (\<lambda>opt. opt) opts \<lparr> pr_batch = 0, pr_maxWait = 0, pr_heartbeat = 0, pr_concurrency = 0 \<rparr>;
          cfg1 = (if pr_batch cfg0 \<le> 0 then cfg0\<lparr> pr_batch := defaultFetchBatch \<rparr> else cfg0);
          cfg2 = (if pr_maxWait cfg1 \<le> 0 then cfg1\<lparr> pr_maxWait := defaultFetchMaxWait \<rparr> else cfg1) in
      if pr_heartbeat cfg2 \<le> 0 \<and> rc_IdleHeartbeat (c_cfg c) > 0
      then cfg2\<lparr> pr_heartbeat := rc_IdleHeartbeat (c_cfg c) \<rparr> else cfg2)"

text \<open>The decision of the pressure controller: the batch to fetch, whether to pause, the consumer.\<close>

definition adapt_fetch :: "consumer \<Rightarrow> int \<Rightarrow> int \<times> bool \<times> consumer" where
  "adapt_fetch c batch =
     (case c_adaptive c of
        None \<Rightarrow> (batch, False, c)
      | Some a \<Rightarrow>
          let depth = (case c_workerPool c of None \<Rightarrow> 0 | Some pool \<Rightarrow> QueueDepth pool);
              poolCap = (case c_workerPool c of None \<Rightarrow> 0 | Some pool \<Rightarrow> rc_WorkerBufferSize (c_cfg c));
              (decision, a') = Observe \<lparr> in_PoolDepth = depth, in_PoolCapacity = poolCap, in_HandlerLatency = 0,
                in_BaselineLatency = 0, in_Lag = 0, in_Pending = 0, in_CurrentBatch = batch, in_CurrentAckPend = 0,
                in_MaxAckPending = bp_MaxAckPending (c_backpressure c) \<rparr> (Some a);
              (pause, cb) = ShouldPause decision (c_circuit c) in
          (if d_FetchBatch decision > 0 then d_FetchBatch decision else batch, pause,
           c\<lparr> c_adaptive := a', c_circuit := cb \<rparr>))"

text \<open>
  One round of the loop: it returns with an error (\<^const>\<open>Inl\<close>) or goes on (\<^const>\<open>Inr\<close>). In the
  pause both cases of the \<open>select\<close> may be ready; \<open>pu_pause\<close> tells which one is taken.
\<close>

definition process_round ::
  "('s, 'v, 'w) pull_env \<Rightarrow> compressors \<Rightarrow> 'w MsgHandler \<Rightarrow> processConfig \<Rightarrow> consumer \<Rightarrow> 'w
     \<Rightarrow> (err \<times> consumer \<times> 'w + consumer \<times> 'w) option" where
  "process_round env z handler cfg c w =
     (case pu_ctxErr env w of
        Some e \<Rightarrow> Some (Inl (wrap1 ''pull process: %w'' e, c, w))
      | None \<Rightarrow>
          (case adapt_fetch c (pr_batch cfg) of (fetchBatch, pause, c1) \<Rightarrow>
             if pause then
               (case pu_pause env (PauseDuration (c_circuit c1)) w of (cancelled, w1) \<Rightarrow>
                  (case pu_ctxErr env w1 of
                     Some e \<Rightarrow> Some (if cancelled then Inl (wrap1 ''pull process: %w'' e, c1, w1) else Inr (c1, w1))
                   | None \<Rightarrow> Some (Inr (c1, w1))))
             else
               (case Fetch env c1 fetchBatch
                       (WithFetchMaxWait (pr_maxWait cfg)
                        # (if pr_heartbeat cfg > 0 then [WithFetchHeartbeat (pr_heartbeat cfg)] else [])) w of
                  ((messages, Some e), w1) \<Rightarrow>
                    Some (if errors_Is e NatsErrTimeout \<or> errors_Is e NatsErrNoHeartbeat \<or> errors_Is e CtxDeadlineExceeded
                          then Inr (c1, w1) else Inl (wrap1 ''pull process fetch: %w'' e, c1, w1))
                | ((messages, None), w1) \<Rightarrow>
                    (case processBatch env z handler cfg c1 messages w1 of
                       None \<Rightarrow> None
                     | Some (Some e, c2, w2) \<Rightarrow>
                         Some (if errors_Is e CtxCanceled \<or> errors_Is e CtxDeadlineExceeded \<or> errors_Is e ErrPoolStopped
                               then Inl (e, c2, w2) else Inr (c2, w2))
                     | Some (None, c2, w2) \<Rightarrow> Some (Inr (c2, w2))))))"

text \<open>\<^const>\<open>None\<close>: the loop runs forever, or a batch does not return.\<close>

partial_function (option) process_loop ::
  "('s, 'v, 'w) pull_env \<Rightarrow> compressors \<Rightarrow> 'w MsgHandler \<Rightarrow> processConfig \<Rightarrow> consumer \<Rightarrow> 'w
     \<Rightarrow> (err \<times> consumer \<times> 'w) option" where
  "process_loop env z handler cfg c w =
     (case process_round env z handler cfg c w of
        None \<Rightarrow> None
      | Some (Inl r) \<Rightarrow> Some r
      | Some (Inr (c1, w1)) \<Rightarrow> process_loop env z handler cfg c1 w1)"

definition Process ::
  "('s, 'v, 'w) pull_env \<Rightarrow> compressors \<Rightarrow> 'w MsgHandler \<Rightarrow> ProcessOpt list \<Rightarrow> consumer \<Rightarrow> 'w
     \<Rightarrow> (err \<times> consumer \<times> 'w) option" where
  "Process env z handler opts c w = process_loop env z handler (process_config c opts) c w"

section \<open>The heartbeat\<close>

text \<open>nats.go demands a positive heartbeat below the time limit.\<close>

lemma fetch_heartbeat_valid:
  "fetch_heartbeat cfg = Some hb \<Longrightarrow> 0 < hb \<and> (0 < f_maxWait cfg \<longrightarrow> hb < f_maxWait cfg)"
  by (auto simp: fetch_heartbeat_def Let_def split: if_splits)

section \<open>No message of a concurrent batch is lost\<close>

text \<open>The executions of a batch; between two steps the world may change in any way.\<close>

inductive conc_reachable ::
  "('s, 'v, 'w) pull_env \<Rightarrow> compressors \<Rightarrow> consumer \<Rightarrow> 'w MsgHandler \<Rightarrow> msg list \<Rightarrow> int \<Rightarrow> 'w conc \<Rightarrow> bool"
  for env z c handler messages concurrency where
  start: "conc_reachable env z c handler messages concurrency (conc_start messages concurrency w)"
| step: "\<lbrakk>conc_reachable env z c handler messages concurrency s; conc_step env z c handler a s = Some s'\<rbrakk>
    \<Longrightarrow> conc_reachable env z c handler messages concurrency s'"
| outside: "conc_reachable env z c handler messages concurrency s
    \<Longrightarrow> conc_reachable env z c handler messages concurrency (s\<lparr> k_world := w \<rparr>)"

fun job_msg :: "job_pc \<Rightarrow> msg multiset" where
  "job_msg (JobGot m) = {#m#}"
| "job_msg (JobRun m) = {#m#}"
| "job_msg _ = {#}"

definition held :: "job_pc list \<Rightarrow> msg multiset" where
  "held ws = sum_list (map job_msg ws)"

lemma held_update: "i < length ws \<Longrightarrow> held (ws[i := pc]) + job_msg (ws ! i) = held ws + job_msg pc"
proof (induction ws arbitrary: i)
  case (Cons x xs)
  then show ?case by (cases i) (auto simp: held_def ac_simps)
qed simp

lemma held_done: "set ws \<subseteq> {JobDone} \<Longrightarrow> held ws = {#}"
  by (induction ws) (auto simp: held_def)

text \<open>Where the messages of the batch are.\<close>

lemma handled_Nakked [simp]: "image_mset handled_msg (image_mset Nakked M) = M"
  by (induction M) simp_all

definition accounts_for :: "'w conc \<Rightarrow> msg multiset" where
  "accounts_for s = mset (map handled_msg (k_log s)) + mset (k_jobs s) + held (k_workers s)
     + mset (drop (k_next s) (k_messages s))"

lemma accounts_for_frame [simp]: "accounts_for (s\<lparr> k_pc := pc \<rparr>) = accounts_for s" "accounts_for (s\<lparr> k_world := w \<rparr>) = accounts_for s"
  by (simp_all add: accounts_for_def)

definition conc_inv :: "msg list \<Rightarrow> 'w conc \<Rightarrow> bool" where
  "conc_inv messages s \<longleftrightarrow>
     k_messages s = messages \<and> accounts_for s = mset messages \<and> k_workers s \<noteq> []
     \<and> (k_pc s = CallerLoop \<longleftrightarrow> \<not> k_closed s) \<and> (k_closed s \<longrightarrow> length messages \<le> k_next s)
     \<and> (JobDone \<in> set (k_workers s) \<longrightarrow> k_closed s \<and> k_jobs s = [])
     \<and> (\<forall>e. k_pc s = CallerReturned e \<longrightarrow> set (k_workers s) = {JobDone})"

lemma conc_inv_start: "messages \<noteq> [] \<Longrightarrow> 1 < n \<Longrightarrow> conc_inv messages (conc_start messages n w)"
  by (auto simp: conc_inv_def conc_start_def accounts_for_def held_def sum_list_replicate)

lemma conc_inv_world: "conc_inv messages (s\<lparr> k_world := w \<rparr>) = conc_inv messages s"
  by (simp add: conc_inv_def accounts_for_def)

lemma done_update: "i < length ws \<Longrightarrow> pc \<noteq> JobDone \<Longrightarrow> JobDone \<in> set (ws[i := pc]) \<Longrightarrow> JobDone \<in> set ws"
  by (metis in_set_conv_nth length_list_update nth_list_update_eq nth_list_update_neq)

lemma conc_inv_moved:
  assumes inv: "conc_inv messages s" and i: "i < length (k_workers s)" and pc: "pc \<noteq> JobDone"
    and running: "\<forall>e. k_pc s \<noteq> CallerReturned e"
    and s': "k_workers s' = (k_workers s)[i := pc]" "accounts_for s' = accounts_for s"
      "k_messages s' = k_messages s" "k_next s' = k_next s" "k_pc s' = k_pc s" "k_closed s' = k_closed s" "k_jobs s' = k_jobs s"
  shows "conc_inv messages s'"
  using inv running done_update [OF i pc] unfolding conc_inv_def s' by auto

lemma conc_inv_worker:
  assumes inv: "conc_inv messages s" and i: "i < length (k_workers s)" and step: "conc_worker env z c handler i s = Some s'"
  shows "conc_inv messages s'"
proof -
  have "k_workers s ! i \<noteq> JobDone" using step by (auto simp: conc_worker_def)
  moreover have "k_workers s ! i \<in> set (k_workers s)" using i by simp
  ultimately have running: "\<forall>e. k_pc s \<noteq> CallerReturned e"
    using inv unfolding conc_inv_def by (metis singletonD)
  note u = held_update [OF i] and moved = conc_inv_moved [OF inv i _ running]
  show ?thesis
  proof (cases "k_workers s ! i")
    case JobRecv
    show ?thesis
    proof (cases "k_jobs s")
      case Nil
      with JobRecv show ?thesis
        using inv step running u [of JobDone] by (auto simp: conc_inv_def accounts_for_def conc_worker_def split: if_splits)
    next
      case (Cons m ms)
      then have "JobDone \<notin> set ((k_workers s)[i := JobGot m])"
        using done_update [OF i, of "JobGot m"] inv by (auto simp: conc_inv_def)
      with JobRecv Cons show ?thesis
        using inv step running u [of "JobGot m"]
        by (auto simp: conc_inv_def accounts_for_def conc_worker_def ac_simps)
    qed
  next
    case (JobGot m)
    show ?thesis
    proof (cases "pu_ctxErr env (k_world s)")
      case None
      with JobGot show ?thesis
        using step u [of "JobRun m"] by (auto simp: conc_worker_def accounts_for_def intro!: moved [of "JobRun m"])
    next
      case (Some e)
      with JobGot show ?thesis
        using step u [of JobRecv] by (auto simp: conc_worker_def accounts_for_def intro!: moved [of JobRecv])
    qed
  next
    case (JobRun m)
    then show ?thesis
      using step u [of JobRecv]
      by (auto simp: conc_worker_def accounts_for_def intro!: moved [of JobRecv] split: prod.splits)
  next
    case JobDone
    with step show ?thesis by (simp add: conc_worker_def)
  qed
qed

lemma conc_inv_caller:
  assumes inv: "conc_inv messages s" and step: "conc_caller env s = Some s'"
  shows "conc_inv messages s'"
proof (cases "k_pc s")
  case CallerLoop
  note s = step [unfolded conc_caller_def CallerLoop, simplified]
  show ?thesis
  proof (cases "k_next s < length (k_messages s)")
    case True
    then have "drop (k_next s) (k_messages s) = k_messages s ! k_next s # drop (Suc (k_next s)) (k_messages s)"
      by (simp add: Cons_nth_drop_Suc)
    with True s inv CallerLoop show ?thesis
      by (auto simp: conc_inv_def accounts_for_def o_def ac_simps split: if_splits)
  next
    case False
    with s inv CallerLoop show ?thesis by (auto simp: conc_inv_def accounts_for_def)
  qed
next
  case CallerWait
  obtain e where e: "list_all (\<lambda>pc. pc = JobDone) (k_workers s)" "s' = s\<lparr> k_pc := CallerReturned e \<rparr>"
    using step CallerWait by (auto simp: conc_caller_def split: if_splits)
  have "k_workers s \<noteq> []" using inv by (simp add: conc_inv_def)
  with e(1) have "set (k_workers s) = {JobDone}" by (cases "k_workers s") (auto simp: list_all_iff)
  with CallerWait inv show ?thesis unfolding e(2) by (simp add: conc_inv_def)
next
  case (CallerReturned e)
  with step show ?thesis by (simp add: conc_caller_def)
qed

lemma conc_inv_reachable:
  assumes "conc_reachable env z c handler messages n s" "messages \<noteq> []" "1 < n"
  shows "conc_inv messages s"
  using assms(1)
proof induction
  case (start w)
  then show ?case by (rule conc_inv_start [OF assms(2,3)])
next
  case (step s a s')
  then show ?case
    using conc_inv_worker conc_inv_caller by (cases a) (auto simp: conc_step_def split: if_splits)
next
  case (outside s w)
  then show ?case by (simp add: conc_inv_world)
qed

text \<open>
  C16. When a batch processed by several goroutines returns, every message of the batch has been
  dealt with exactly once: its handler ran, or it was nak'd, in every interleaving and whenever the
  context was cancelled or a handler failed.
\<close>

theorem conc_batch_accounts:
  assumes "conc_reachable env z c handler messages concurrency s" "messages \<noteq> []" "1 < concurrency"
    and "k_pc s = CallerReturned e"
  shows "mset (map handled_msg (k_log s)) = mset messages"
proof -
  have inv: "conc_inv messages s" by (rule conc_inv_reachable [OF assms(1-3)])
  with assms(4) have "set (k_workers s) = {JobDone}" "k_jobs s = []" "length messages \<le> k_next s"
      "k_messages s = messages" "accounts_for s = mset messages"
    by (auto simp: conc_inv_def)
  moreover from this(1) have "held (k_workers s) = {#}" by (intro held_done) simp
  ultimately show ?thesis by (simp add: accounts_for_def)
qed

text \<open>An upper bound for the steps left.\<close>

fun job_left :: "job_pc \<Rightarrow> nat" where
  "job_left JobRecv = 1"
| "job_left (JobGot m) = 3"
| "job_left (JobRun m) = 2"
| "job_left JobDone = 0"

fun caller_left :: "caller_pc \<Rightarrow> nat" where
  "caller_left CallerLoop = 2"
| "caller_left CallerWait = 1"
| "caller_left (CallerReturned e) = 0"

definition conc_left :: "'w conc \<Rightarrow> nat" where
  "conc_left s = 4 * (length (k_messages s) - k_next s) + caller_left (k_pc s) + 3 * length (k_jobs s)
     + sum_list (map job_left (k_workers s))"

lemma job_left_update:
  "i < length ws \<Longrightarrow> sum_list (map job_left (ws[i := pc])) + job_left (ws ! i) = sum_list (map job_left ws) + job_left pc"
proof (induction ws arbitrary: i)
  case (Cons x xs)
  then show ?case by (cases i) auto
qed simp

lemma conc_left_less:
  assumes "conc_step env z c handler a s = Some s'"
  shows "conc_left s' < conc_left s"
proof (cases a)
  case RunCaller
  with assms show ?thesis
    by (auto simp: conc_step_def conc_caller_def conc_left_def split: caller_pc.splits if_splits)
next
  case RunCtxDone
  with assms show ?thesis by (simp add: conc_step_def)
next
  case (RunWorker b i)
  then have i: "i < length (k_workers s)" and w: "conc_worker env z c handler i s = Some s'"
    using assms by (auto simp: conc_step_def split: if_splits)
  have "\<exists>pc. k_workers s' = (k_workers s)[i := pc] \<and> k_next s' = k_next s \<and> k_messages s' = k_messages s \<and> k_pc s' = k_pc s
      \<and> 3 * length (k_jobs s') + job_left pc < 3 * length (k_jobs s) + job_left (k_workers s ! i)"
    using w by (cases "k_workers s ! i")
      (auto simp: conc_worker_def split: list.splits option.splits if_splits prod.splits)
  then obtain pc where "k_workers s' = (k_workers s)[i := pc]" "k_next s' = k_next s" "k_messages s' = k_messages s"
      "k_pc s' = k_pc s" "3 * length (k_jobs s') + job_left pc < 3 * length (k_jobs s) + job_left (k_workers s ! i)"
    by blast
  with job_left_update [OF i, of pc] show ?thesis by (simp add: conc_left_def)
qed

lemma conc_not_stuck:
  assumes inv: "conc_inv messages s" and run: "\<forall>e. k_pc s \<noteq> CallerReturned e"
  shows "\<exists>a s'. conc_step env z c handler a s = Some s'"
proof (cases "k_pc s")
  case CallerLoop
  then show ?thesis by (intro exI [of _ RunCaller]) (auto simp: conc_step_def conc_caller_def)
next
  case CallerWait
  show ?thesis
  proof (cases "list_all (\<lambda>pc. pc = JobDone) (k_workers s)")
    case True
    with CallerWait show ?thesis by (intro exI [of _ RunCaller]) (auto simp: conc_step_def conc_caller_def)
  next
    case False
    then obtain i where i: "i < length (k_workers s)" "k_workers s ! i \<noteq> JobDone" by (auto simp: list_all_length)
    have "k_closed s" using inv CallerWait by (auto simp: conc_inv_def)
    with i have "\<exists>s'. conc_worker env z c handler i s = Some s'"
      by (cases "k_workers s ! i") (auto simp: conc_worker_def split: list.splits option.splits prod.splits)
    with i(1) show ?thesis by (intro exI [of _ "RunWorker False i"]) (auto simp: conc_step_def)
  qed
qed (use run in blast)

text \<open>
  C18. A batch processed by several goroutines returns: every step of one of its goroutines brings
  the end nearer, and as long as the call has not returned one of them can take a step.
\<close>

theorem conc_batch_returns:
  assumes "conc_reachable env z c handler messages concurrency s" "messages \<noteq> []" "1 < concurrency"
  shows "(\<forall>a s'. conc_step env z c handler a s = Some s' \<longrightarrow> conc_left s' < conc_left s)
    \<and> ((\<exists>e. k_pc s = CallerReturned e) \<or> (\<exists>a s'. conc_step env z c handler a s = Some s'))"
  using conc_left_less conc_not_stuck [OF conc_inv_reachable [OF assms]] by blast

section \<open>A batch in the pool\<close>

text \<open>Between two steps the world and the shared pool may change in any way.\<close>

inductive pbatch_reachable ::
  "('s, 'v, 'w) pull_env \<Rightarrow> compressors \<Rightarrow> 'w MsgHandler \<Rightarrow> msg list \<Rightarrow> 'w pbatch \<Rightarrow> bool"
  for env z handler messages where
  start: "pbatch_reachable env z handler messages (pbatch_start c messages w)"
| step: "\<lbrakk>pbatch_reachable env z handler messages s; pbatch_step env z handler a s = Some s'\<rbrakk>
    \<Longrightarrow> pbatch_reachable env z handler messages s'"
| outside: "pbatch_reachable env z handler messages s
    \<Longrightarrow> pbatch_reachable env z handler messages (s\<lparr> b_world := w, b_c := c \<rparr>)"

fun blocked_msg :: "enq_pc \<Rightarrow> msg list" where
  "blocked_msg (EnqBlocked m) = [m]"
| "blocked_msg _ = []"

definition pbatch_inv :: "msg list \<Rightarrow> 'w pbatch \<Rightarrow> bool" where
  "pbatch_inv messages s \<longleftrightarrow>
     b_wg s = int (length (b_open s) + length (blocked_msg (b_pc s)))
     \<and> (b_firstErr s = None \<longrightarrow>
          mset (map handled_msg (b_log s)) + mset (b_open s) + mset (b_todo s) + mset (blocked_msg (b_pc s)) = mset messages)
     \<and> (b_pc s \<in> {EnqWait, EnqReturned None} \<longrightarrow> b_firstErr s = None \<longrightarrow> b_todo s = [])
     \<and> (b_pc s = EnqReturned None \<longrightarrow> b_firstErr s = None \<and> b_open s = [])"

lemma record_err_None [simp]: "record_err f e = None \<longleftrightarrow> f = None \<and> e = None"
  by (simp add: record_err_def split: option.splits)

lemma pbatch_inv_frame [simp]:
  "pbatch_inv messages (s\<lparr> b_world := w \<rparr>) = pbatch_inv messages s"
  "pbatch_inv messages (s\<lparr> b_c := c \<rparr>) = pbatch_inv messages s"
  by (simp_all add: pbatch_inv_def)

lemma pbatch_inv_enqueue:
  assumes "pbatch_inv messages s" "b_pc s = EnqLoop" "b_todo s = m # ms" "enqueue env m ms s = Some s'"
  shows "pbatch_inv messages s'"
  using assms
  by (auto simp: enqueue_def pbatch_inv_def enq_break_def Let_def ac_simps
      split: option.splits prod.splits if_splits)

lemma pbatch_inv_caller:
  assumes "pbatch_inv messages s" "pbatch_caller env s = Some s'"
  shows "pbatch_inv messages s'"
proof (cases "b_pc s")
  case EnqLoop
  show ?thesis
  proof (cases "b_todo s")
    case Nil
    with assms EnqLoop show ?thesis by (auto simp: pbatch_caller_def pbatch_inv_def)
  next
    case (Cons m ms)
    with assms EnqLoop pbatch_inv_enqueue [OF assms(1) EnqLoop Cons] show ?thesis
      by (auto simp: pbatch_caller_def pbatch_inv_def enq_break_def split: option.splits)
  qed
next
  case (EnqBlocked m)
  with assms show ?thesis
    by (auto simp: pbatch_caller_def pbatch_inv_def enq_break_def ac_simps split: option.splits prod.splits)
next
  case EnqWait
  with assms show ?thesis by (auto simp: pbatch_caller_def pbatch_inv_def split: if_splits)
next
  case (EnqReturned e)
  with assms show ?thesis by (simp add: pbatch_caller_def)
qed

lemma pbatch_inv_ctx:
  assumes "pbatch_inv messages s" "pbatch_ctx env s = Some s'"
  shows "pbatch_inv messages s'"
  using assms
  by (auto simp: pbatch_ctx_def pbatch_inv_def enq_break_def Let_def split: option.splits enq_pc.splits)

lemma pbatch_inv_closure:
  assumes "pbatch_inv messages s" "m \<in> set (b_open s)"
  shows "pbatch_inv messages (batch_closure env z handler m s)"
proof -
  define rest where "rest = remove1 m (b_open s)"
  have "mset (b_open s) = add_mset m (mset rest)" "length (b_open s) = Suc (length rest)"
    using assms(2) by (simp_all add: rest_def length_remove1) (cases "b_open s"; simp)
  moreover have "b_pc s \<noteq> EnqReturned None" using assms by (auto simp: pbatch_inv_def)
  ultimately show ?thesis using assms(1)
    by (auto simp: pbatch_inv_def batch_closure_def rest_def [symmetric] split: prod.splits)
qed

lemma pbatch_inv_reachable:
  assumes "pbatch_reachable env z handler messages s"
  shows "pbatch_inv messages s"
  using assms
proof induction
  case (start c w)
  then show ?case by (simp add: pbatch_inv_def pbatch_start_def)
next
  case (step s a s')
  show ?case
  proof (cases a)
    case (RunWorker don i)
    with step show ?thesis
      by (auto simp: pbatch_step_def pbatch_worker_def Let_def intro!: pbatch_inv_closure
          split: option.splits if_splits)
  qed (use step pbatch_inv_caller pbatch_inv_ctx in \<open>auto simp: pbatch_step_def\<close>)
next
  case (outside s w c)
  then show ?case by simp
qed

text \<open>
  C17. When the processing of a batch in the worker pool returns nil, no message of the batch is
  left behind: each was processed by a worker of the pool, or settled because the pool was full, and
  none twice, whatever the schedule, the state of the pool and the moment the context is cancelled.
\<close>

theorem pool_batch_complete:
  assumes "pbatch_reachable env z handler messages s" "b_pc s = EnqReturned None"
  shows "mset (map handled_msg (b_log s)) = mset messages"
  using pbatch_inv_reachable [OF assms(1)] assms(2) by (auto simp: pbatch_inv_def)

section \<open>Executions\<close>

text \<open>A server that always delivers the same message; one worker of the pool runs when the caller waits.\<close>

definition lone_env :: "batch_action list \<Rightarrow> (unit, unit, (string \<times> verdict) list) pull_env" where
  "lone_env acts = \<lparr> pu_con = ledger_env, pu_ctxErr = (\<lambda>_. None), pu_sub = (\<lambda>_. Some ()),
     pu_Fetch = (\<lambda>_ _ _ w. (([demo_msg], None), w)), pu_Unsubscribe = (\<lambda>_ w. (None, w)),
     pu_PullSubscribe = (\<lambda>_ _ _ w. (Inr (), w)), pu_newV2 = None, pu_pause = (\<lambda>_ w. (False, w)),
     pu_sched = (\<lambda>w. (acts, w)) \<rparr>"

definition pool_acts :: "batch_action list" where
  "pool_acts = [RunCaller, RunWorker False 0, RunWorker False 0, RunWorker False 0, RunWorker False 0, RunCaller, RunCaller]"

definition timeout_handler :: "'w MsgHandler" where
  "timeout_handler m w = (HReturn (Some (ESent CtxDeadlineExceeded)), w)"

lemma sched_exec_simps:
  "sched_exec step [] s = s"
  "sched_exec step (a # as) s = sched_exec step as (case step a s of None \<Rightarrow> s | Some s' \<Rightarrow> s')"
  by (simp_all add: sched_exec_def)

lemma lone_sel: "pu_con (lone_env a) = ledger_env" "pu_ctxErr (lone_env a) w = None" "pu_sub (lone_env a) w = Some ()"
  "pu_Fetch (lone_env a) u n os w = (([demo_msg], None), w)" "pu_sched (lone_env a) w = (a, w)"
  by (simp_all add: lone_env_def)

lemmas pull_eval = sched_exec_simps lone_sel pbatch_step_def pbatch_caller_def enqueue_def pbatch_worker_def
  batch_closure_def pool_eval publish_run_unfold worker_step_def

lemmas message_eval = processMessage_def process_begin_def recordMessageMetrics_def ledger_env_def maybeDecompressMsg_def
  invokeMsgHandler_def timeout_handler_def process_end_def recordProcessError_def notifyMessageHandled_def

lemma pool_acts_end:
  "b_pc (sched_exec (pbatch_step (lone_env pool_acts) one_compressor timeout_handler) pool_acts
    (pbatch_start (demo_consumer 1) [demo_msg] []))
    = EnqReturned (Some (wrap1 ''message processing failed subject=%q: %w'' (ESent CtxDeadlineExceeded)))"
  by (simp add: pool_acts_def pbatch_start_def demo_consumer_defs pull_eval message_eval demo_msg_def record_err_def
      numeral_eq_Suc Let_def)

definition ok_handler :: "'w MsgHandler" where
  "ok_handler m w = (HReturn None, w)"

definition conc_acts :: "batch_action list" where
  "conc_acts = [RunCaller, RunWorker False 1, RunCaller, RunWorker False 0, RunWorker False 1, RunWorker False 0,
     RunWorker False 1, RunWorker False 0, RunCaller, RunWorker False 0, RunWorker False 1, RunCaller]"

definition conc_run :: "(string \<times> verdict) list conc" where
  "conc_run = sched_exec (conc_step (lone_env []) one_compressor (demo_consumer 1) ok_handler) conc_acts
     (conc_start [demo_msg, demo_msg] 2 [])"

definition pool_run :: "(string \<times> verdict) list pbatch" where
  "pool_run = sched_exec (pbatch_step (lone_env []) one_compressor ok_handler) pool_acts
     (pbatch_start (demo_consumer 1) [demo_msg] [])"

lemma conc_sched_reachable:
  "conc_reachable env z c handler messages n s
     \<Longrightarrow> conc_reachable env z c handler messages n (sched_exec (conc_step env z c handler) acts s)"
  by (induction acts arbitrary: s) (auto simp: sched_exec_simps intro: conc_reachable.step split: option.splits)

lemma pbatch_sched_reachable:
  "pbatch_reachable env z handler messages s
     \<Longrightarrow> pbatch_reachable env z handler messages (sched_exec (pbatch_step env z handler) acts s)"
  by (induction acts arbitrary: s) (auto simp: sched_exec_simps intro: pbatch_reachable.step split: option.splits)

lemma conc_run_reachable:
  "conc_reachable (lone_env []) one_compressor (demo_consumer 1) ok_handler [demo_msg, demo_msg] 2 conc_run"
  unfolding conc_run_def by (intro conc_sched_reachable conc_reachable.start)

lemma pool_run_reachable: "pbatch_reachable (lone_env []) one_compressor ok_handler [demo_msg] pool_run"
  unfolding pool_run_def by (intro pbatch_sched_reachable pbatch_reachable.start)

lemma ok_message:
  "\<not> c_hasMetrics c \<Longrightarrow> \<not> c_allowTracing c \<Longrightarrow>
    processMessage ledger_env one_compressor c demo_msg ok_handler w = (None, if map_of w ''$JS.ACK.1'' = None then (''$JS.ACK.1'', Acked) # w else w)"
  by (simp add: message_eval ok_handler_def demo_msg_def notifyProcessSuccess_def ledger_op_def Let_def)

lemma conc_run_returned: "k_pc conc_run = CallerReturned None"
  by (simp add: conc_run_def conc_acts_def conc_start_def demo_consumer_defs sched_exec_simps lone_sel conc_step_def
      conc_caller_def conc_worker_def ok_message record_err_def numeral_eq_Suc Let_def)

lemma pool_run_returned: "b_pc pool_run = EnqReturned None"
  by (simp add: pool_run_def pool_acts_def pbatch_start_def demo_consumer_defs pull_eval ok_message record_err_def
      numeral_eq_Suc Let_def)

theorem conc_batch_accounts_witness:
  "k_pc conc_run = CallerReturned None \<and> mset (map handled_msg (k_log conc_run)) = {#demo_msg, demo_msg#}"
  using conc_batch_accounts [OF conc_run_reachable _ _ conc_run_returned] conc_run_returned by simp

theorem conc_batch_returns_witness:
  "(\<exists>e. k_pc conc_run = CallerReturned e)
    \<or> (\<exists>a s'. conc_step (lone_env []) one_compressor (demo_consumer 1) ok_handler a conc_run = Some s')"
  using conc_batch_returns [OF conc_run_reachable] by simp

theorem pool_batch_complete_witness:
  "b_pc pool_run = EnqReturned None \<and> mset (map handled_msg (b_log pool_run)) = {#demo_msg#}"
  using pool_batch_complete [OF pool_run_reachable pool_run_returned] pool_run_returned by simp


end
