(* ===== verification/Connection.thy ===== *)
theory Connection
  imports Publisher Consumer
begin

text \<open>
  The connection of the client (\<open>connection.go\<close>), its authentication (\<open>auth.go\<close>) and the construction
  of a client (\<open>client.go\<close>): the options handed to nats.go, the first connect with its retries, the
  connection handlers, health and status, and the shutdown. Parameters (\<open>cn_env\<close>): nats.go's calls on
  a connection \<open>'c\<close>, the key pairs \<open>'k\<close> of nkeys, the certificate and URL parsers of Go, the clock, the
  context (in \<open>cn_wait\<close> both cases of the \<open>select\<close> may be ready, its result tells whether the cancelled
  one is taken) and the stopping of the other components (\<open>cn_stop\<close>). Log output is left out.
\<close>

section \<open>Configuration\<close>

abbreviation defaultDrainTimeout :: duration where "defaultDrainTimeout \<equiv> 30 * Second"
abbreviation defaultReconnectWait :: duration where "defaultReconnectWait \<equiv> Second"
abbreviation defaultMaxReconnectDelay :: duration where "defaultMaxReconnectDelay \<equiv> 30 * Second"
abbreviation defaultReconnectJitter :: duration where "defaultReconnectJitter \<equiv> 100 * Millisecond"
abbreviation defaultReconnectJitterTLS :: duration where "defaultReconnectJitterTLS \<equiv> Second"
abbreviation defaultInitialRetryAttempts :: int where "defaultInitialRetryAttempts \<equiv> 5"
abbreviation defaultInitialRetryWait :: duration where "defaultInitialRetryWait \<equiv> Second"
abbreviation defaultInitialRetryBackoff :: rat where "defaultInitialRetryBackoff \<equiv> 2"
abbreviation reconnectDelayMultiplier :: int where "reconnectDelayMultiplier \<equiv> 2"

text \<open>The fields of a \<open>tls.Config\<close> the sources touch; \<open>tls.VersionTLS12\<close> is 0x0303.\<close>

definition VersionTLS12 :: nat where "VersionTLS12 = 771"

record tls_config =
  tc_MinVersion :: nat
  tc_InsecureSkipVerify :: bool
  tc_ServerName :: string
  tc_RootCAs :: "bytes option"
  tc_Certificates :: "(bytes \<times> bytes) list"

record ConnectionTLS =
  ct_Config :: "tls_config option"
  ct_ServerName :: string
  ct_CA :: bytes
  ct_Cert :: bytes
  ct_Key :: bytes
  ct_InsecureSkipVerify :: bool

record Connection =
  co_CustomReconnectDelay :: "(int \<Rightarrow> duration) option"
  co_Address :: string
  co_User :: string
  co_Password :: string
  co_Seed :: string
  co_Secret :: string
  co_CredentialsFile :: string
  co_Domain :: string
  co_ClientName :: string
  co_TLS :: ConnectionTLS
  co_ReconnectWait :: duration
  co_MaxReconnect :: int
  co_ConnectTimeout :: duration
  co_DrainTimeout :: duration
  co_PingInterval :: duration
  co_MaxPingsOut :: int
  co_FlusherTimeout :: duration
  co_ReconnectJitter :: duration
  co_ReconnectJitterTLS :: duration
  co_ReconnectBufSize :: int
  co_HealthCheckInterval :: duration
  co_InitialRetryAttempts :: int
  co_InitialRetryWait :: duration
  co_InitialRetryBackoff :: rat
  co_RetryOnFailedConnect :: bool
  co_AllowReconnect :: bool
  co_DontRandomize :: bool

text \<open>The options of nats.go.\<close>

datatype nats_option = Timeout duration | DrainTimeout duration | Name string | PingInterval duration
  | MaxPingsOutstanding int | FlusherTimeout duration | DontRandomize
  | UserCredentials string | Nkey string | UserInfo string string | Token string
  | NoReconnect | MaxReconnects int | ReconnectWait duration | ReconnectJitter duration duration
  | CustomReconnectDelay "int \<Rightarrow> duration" | ReconnectBufSize int | RetryOnFailedConnect bool
  | Secure tls_config
  | ConnectHandler | DisconnectErrHandler | ReconnectHandler | ReconnectErrHandler | ClosedHandler
  | ErrorHandler | LameDuckModeHandler

datatype conn_metric = ConnectionState int | ReconnectCount | ConnectionErrors | IdleHeartbeatMiss | LameDuckEvents

datatype stoppable = StopTicker | StopCollector | StopConsumer | StopPublisher | CancelClient | WaitHealthCheck

datatype conn_status = DISCONNECTED | CONNECTED | CLOSED | RECONNECTING | CONNECTING | DRAINING_SUBS | DRAINING_PUBS

text \<open>What the \<open>select\<close> of \<open>WaitConnected\<close> receives next: the context, a status, or the closed channel.\<close>

datatype wait_event = WaitCtx err | WaitStatus conn_status | WaitClosedChannel

record ('c, 'k, 'u, 'w) cn_env =
  cn_url_Parse :: "string \<Rightarrow> 'u result"
  cn_url_Username :: "'u \<Rightarrow> string option"
  cn_url_StringNoUser :: "'u \<Rightarrow> string"
  cn_AppendCertsFromPEM :: "bytes \<Rightarrow> bool"
  cn_X509KeyPair :: "bytes \<Rightarrow> bytes \<Rightarrow> err option"
  cn_FromSeed :: "string \<Rightarrow> 'k result"
  cn_PublicKey :: "'k \<Rightarrow> string result"
  cn_Wipe :: "'k \<Rightarrow> 'w \<Rightarrow> 'w"
  cn_Connect :: "string \<Rightarrow> nats_option list \<Rightarrow> 'w \<Rightarrow> 'c result \<times> 'w"
  cn_JetStream :: "'c \<Rightarrow> string \<Rightarrow> 'w \<Rightarrow> err option \<times> 'w"
  cn_JetStreamV2 :: "'c \<Rightarrow> string \<Rightarrow> 'w \<Rightarrow> err option \<times> 'w"
  cn_AccountInfo :: "'w \<Rightarrow> err option \<times> 'w"
  cn_IsConnected :: "'c \<Rightarrow> 'w \<Rightarrow> bool"
  cn_IsClosed :: "'c \<Rightarrow> 'w \<Rightarrow> bool"
  cn_ConnectedUrl :: "'c \<Rightarrow> 'w \<Rightarrow> string"
  cn_LastError :: "'c \<Rightarrow> 'w \<Rightarrow> err option"
  cn_Drain :: "'c \<Rightarrow> 'w \<Rightarrow> err option \<times> 'w"
  cn_Close :: "'c \<Rightarrow> 'w \<Rightarrow> 'w"
  cn_StatusChanged :: "'c \<Rightarrow> 'w \<Rightarrow> 'w"
  cn_events :: "'c \<Rightarrow> 'w \<Rightarrow> wait_event list \<times> 'w"
  cn_now :: "'w \<Rightarrow> gotime \<times> 'w"
  cn_Sleep :: "duration \<Rightarrow> 'w \<Rightarrow> 'w"
  cn_ctxErr :: "'w \<Rightarrow> err option"
  cn_wait :: "duration \<Rightarrow> 'w \<Rightarrow> bool \<times> 'w"
  cn_metric :: "conn_metric \<Rightarrow> 'w \<Rightarrow> 'w"
  cn_stop :: "stoppable \<Rightarrow> 'w \<Rightarrow> 'w"
  cn_asyncWait :: "duration \<Rightarrow> 'w \<Rightarrow> async_wait \<times> 'w"
  cn_OnDisconnect :: "('c option \<Rightarrow> err option \<Rightarrow> 'w \<Rightarrow> 'w) option"
  cn_OnReconnect :: "('c option \<Rightarrow> 'w \<Rightarrow> 'w) option"
  cn_OnClosed :: "('c option \<Rightarrow> 'w \<Rightarrow> 'w) option"
  cn_float_to_i64 :: "rat \<Rightarrow> int"

section \<open>Authentication\<close>

definition addressHasUserinfo :: "('c, 'k, 'u, 'w) cn_env \<Rightarrow> string \<Rightarrow> bool" where
  "addressHasUserinfo env address =
     (if IsEmpty address then False
      else list_ex (\<lambda>part.
        case cn_url_Parse env (trim_space part) of
          Inl _ \<Rightarrow> False
        | Inr u \<Rightarrow> (case cn_url_Username env u of None \<Rightarrow> False | Some name \<Rightarrow> \<not> IsEmpty name))
        (split_on CHR '','' address))"

definition redact_part :: "('c, 'k, 'u, 'w) cn_env \<Rightarrow> string \<Rightarrow> string" where
  "redact_part env part =
     (case cn_url_Parse env (trim_space part) of
        Inl _ \<Rightarrow> trim_space part
      | Inr u \<Rightarrow> (case cn_url_Username env u of None \<Rightarrow> trim_space part | Some _ \<Rightarrow> cn_url_StringNoUser env u))"

definition redactURLString :: "('c, 'k, 'u, 'w) cn_env \<Rightarrow> string \<Rightarrow> string" where
  "redactURLString env raw =
     (if IsEmpty raw then raw else join_with CHR '','' (map (redact_part env) (split_on CHR '','' raw)))"

definition validateAuthConfig :: "('c, 'k, 'u, 'w) cn_env \<Rightarrow> Connection \<Rightarrow> err option" where
  "validateAuthConfig env conn =
     (let hasSeed = \<not> IsEmpty (co_Seed conn);
          hasUserPass = (\<not> IsEmpty (co_User conn) \<or> \<not> IsEmpty (co_Password conn));
          hasToken = \<not> IsEmpty (co_Secret conn);
          hasCreds = \<not> IsEmpty (co_CredentialsFile conn);
          hasURLAuth = addressHasUserinfo env (co_Address conn);
          n = length (filter (\<lambda>b. b) [hasSeed, hasUserPass, hasToken, hasCreds, hasURLAuth]) in
      if n > 1 then Some (ESent ErrConflictingAuth)
      else if (\<not> IsEmpty (co_User conn)) \<noteq> (\<not> IsEmpty (co_Password conn))
      then Some (EMsg ''auth: User and Password must both be set or both empty'')
      else None)"

section \<open>Options\<close>

definition appendBaseConnOptions :: "nats_option list \<Rightarrow> Connection \<Rightarrow> nats_option list" where
  "appendBaseConnOptions opts conn =
     opts
     @ (if co_ConnectTimeout conn > 0 then [Timeout (co_ConnectTimeout conn)] else [])
     @ (if co_DrainTimeout conn > 0 then [DrainTimeout (co_DrainTimeout conn)] else [])
     @ (if \<not> IsEmpty (co_ClientName conn) then [Name (co_ClientName conn)] else [])
     @ (if co_PingInterval conn > 0 then [PingInterval (co_PingInterval conn)] else [])
     @ (if co_MaxPingsOut conn > 0 then [MaxPingsOutstanding (co_MaxPingsOut conn)] else [])
     @ (if co_FlusherTimeout conn > 0 then [FlusherTimeout (co_FlusherTimeout conn)] else [])
     @ (if co_DontRandomize conn then [DontRandomize] else [])"

text \<open>The key of the seed: its pair and public key.\<close>

definition seed_key ::
  "('c, 'k, 'u, 'w) cn_env \<Rightarrow> string \<Rightarrow> 'w \<Rightarrow> ('k \<times> string) result \<times> 'w" where
  "seed_key env seed w =
     (case cn_FromSeed env seed of
        Inl e \<Rightarrow> (Inl (EWrap ''%w: %w'' [ESent ErrInvalidNKeySeed, e]), w)
      | Inr kp \<Rightarrow>
          (case cn_PublicKey env kp of
             Inl e \<Rightarrow> (Inl (EWrap ''%w: public key: %w'' [ESent ErrInvalidNKeySeed, e]), cn_Wipe env kp w)
           | Inr pubKey \<Rightarrow> (Inr (kp, pubKey), w)))"

definition appendAuthOptions ::
  "('c, 'k, 'u, 'w) cn_env \<Rightarrow> nats_option list \<Rightarrow> Connection \<Rightarrow> 'w \<Rightarrow> (nats_option list \<times> 'k option) result \<times> 'w" where
  "appendAuthOptions env opts conn w =
     (let opts1 = opts @ (if \<not> IsEmpty (co_CredentialsFile conn) then [UserCredentials (co_CredentialsFile conn)] else []);
          rest = (if \<not> IsEmpty (co_User conn) \<and> \<not> IsEmpty (co_Password conn)
                  then [UserInfo (co_User conn) (co_Password conn)] else [])
               @ (if \<not> IsEmpty (co_Secret conn) then [Token (co_Secret conn)] else []) in
      if IsEmpty (co_Seed conn) then (Inr (opts1 @ rest, None), w)
      else
        (case seed_key env (co_Seed conn) w of
           (Inl e, w1) \<Rightarrow> (Inl e, w1)
         | (Inr (kp, pubKey), w1) \<Rightarrow> (Inr (opts1 @ [Nkey pubKey] @ rest, Some kp), w1)))"

text \<open>The delay before the given attempt to reconnect; the loop of its closure.\<close>

fun reconnect_delay_loop :: "nat \<Rightarrow> duration \<Rightarrow> duration" where
  "reconnect_delay_loop 0 delay = (if delay > defaultMaxReconnectDelay then defaultMaxReconnectDelay else delay)"
| "reconnect_delay_loop (Suc n) delay =
     (if delay \<ge> go_div defaultMaxReconnectDelay reconnectDelayMultiplier then defaultMaxReconnectDelay
      else reconnect_delay_loop n (i64 (delay * reconnectDelayMultiplier)))"

definition cappedExponentialReconnectDelay :: "duration \<Rightarrow> int \<Rightarrow> duration" where
  "cappedExponentialReconnectDelay base =
     (let base' = (if base \<le> 0 then defaultReconnectWait else base) in
      (\<lambda>attempts. let attempts' = (if attempts < 1 then 1 else attempts) in
         reconnect_delay_loop (nat (attempts' - 1)) base'))"

definition appendReconnectOptions :: "nats_option list \<Rightarrow> Connection \<Rightarrow> nats_option list" where
  "appendReconnectOptions opts conn =
     (if \<not> co_AllowReconnect conn then opts @ [NoReconnect]
      else
        let reconnectWait = (if co_ReconnectWait conn \<le> 0 then defaultReconnectWait else co_ReconnectWait conn);
            jitter = (if co_ReconnectJitter conn \<le> 0 then defaultReconnectJitter else co_ReconnectJitter conn);
            jitterTLS = (if co_ReconnectJitterTLS conn \<le> 0 then defaultReconnectJitterTLS else co_ReconnectJitterTLS conn);
            delayFn = (case co_CustomReconnectDelay conn of
                         None \<Rightarrow> cappedExponentialReconnectDelay reconnectWait | Some f \<Rightarrow> f) in
        opts @ [MaxReconnects (co_MaxReconnect conn), ReconnectWait reconnectWait, ReconnectJitter jitter jitterTLS,
                CustomReconnectDelay delayFn]
        @ (if co_ReconnectBufSize conn \<noteq> 0 then [ReconnectBufSize (co_ReconnectBufSize conn)] else [])
        @ (if co_RetryOnFailedConnect conn then [RetryOnFailedConnect True] else []))"

definition buildTLSConfig :: "('c, 'k, 'u, 'w) cn_env \<Rightarrow> ConnectionTLS \<Rightarrow> tls_config option result" where
  "buildTLSConfig env cfg =
     (case ct_Config cfg of
        Some tc \<Rightarrow>
          Inr (Some (if tc_MinVersion tc = 0 \<or> tc_MinVersion tc < VersionTLS12
                     then tc\<lparr> tc_MinVersion := VersionTLS12 \<rparr> else tc))
      | None \<Rightarrow>
          let hasMaterial = (ct_CA cfg \<noteq> [] \<or> ct_Cert cfg \<noteq> [] \<or> ct_Key cfg \<noteq> [] \<or> ct_InsecureSkipVerify cfg
                \<or> \<not> IsEmpty (ct_ServerName cfg)) in
          if \<not> hasMaterial then Inr None
          else
            let tc = \<lparr> tc_MinVersion = VersionTLS12, tc_InsecureSkipVerify = ct_InsecureSkipVerify cfg,
                       tc_ServerName = ct_ServerName cfg, tc_RootCAs = None, tc_Certificates = [] \<rparr> in
            if ct_CA cfg \<noteq> [] \<and> \<not> cn_AppendCertsFromPEM env (ct_CA cfg)
            then Inl (EMsg ''tls: append CA cert from PEM'')
            else
              let tc1 = (if ct_CA cfg \<noteq> [] then tc\<lparr> tc_RootCAs := Some (ct_CA cfg) \<rparr> else tc) in
              if ct_Cert cfg \<noteq> [] \<or> ct_Key cfg \<noteq> [] then
                (if ct_Cert cfg = [] \<or> ct_Key cfg = [] then Inl (EMsg ''tls: both cert and key PEM are required'')
                 else
                   (case cn_X509KeyPair env (ct_Cert cfg) (ct_Key cfg) of
                      Some e \<Rightarrow> Inl (wrap1 ''tls: load client cert: %w'' e)
                    | None \<Rightarrow> Inr (Some (tc1\<lparr> tc_Certificates := [(ct_Cert cfg, ct_Key cfg)] \<rparr>))))
              else Inr (Some tc1))"

definition appendTLSOptions ::
  "('c, 'k, 'u, 'w) cn_env \<Rightarrow> nats_option list \<Rightarrow> ConnectionTLS \<Rightarrow> nats_option list result" where
  "appendTLSOptions env opts cfg =
     (case buildTLSConfig env cfg of
        Inl e \<Rightarrow> Inl e
      | Inr None \<Rightarrow> Inr opts
      | Inr (Some tlsCfg) \<Rightarrow> Inr (opts @ [Secure tlsCfg]))"

section \<open>The client\<close>

record ('c, 'k) client =
  cl_conn :: "'c option"
  cl_hasJS :: bool
  cl_lastDisconnect :: gotime
  cl_lastError :: "err option"
  cl_hasMetrics :: bool
  cl_publisher :: "publisher option"
  cl_hasConsumer :: bool
  cl_hasCollector :: bool
  cl_hasCancel :: bool
  cl_healthCheck :: bool
  cl_healthCheckDone :: bool
  cl_nkeyPair :: "'k option"
  cl_reconnectCount :: int
  cl_inLameDuck :: bool
  cl_shutdownOnce :: bool

definition configureOptions ::
  "('c, 'k, 'u, 'w) cn_env \<Rightarrow> Connection \<Rightarrow> ('c, 'k) client \<Rightarrow> 'w \<Rightarrow> nats_option list result \<times> ('c, 'k) client \<times> 'w" where
  "configureOptions env conn c w =
     (case appendAuthOptions env (appendBaseConnOptions [] conn) conn w of
        (Inl e, w1) \<Rightarrow> (Inl e, c, w1)
      | (Inr (opts, kp), w1) \<Rightarrow>
          let w2 = (case cl_nkeyPair c of None \<Rightarrow> w1 | Some old \<Rightarrow> cn_Wipe env old w1);
              c1 = c\<lparr> cl_nkeyPair := kp \<rparr> in
          (case appendTLSOptions env opts (co_TLS conn) of
             Inl e \<Rightarrow> (Inl e, c1, w2)
           | Inr opts1 \<Rightarrow>
               (Inr (appendReconnectOptions opts1 conn
                     @ [ConnectHandler, DisconnectErrHandler, ReconnectHandler, ReconnectErrHandler, ClosedHandler,
                        ErrorHandler, LameDuckModeHandler]), c1, w2)))"

text \<open>
  \<open>time.Duration(x)\<close>; what it gives out of range is \<open>cn_float_to_i64\<close>.
\<close>

definition duration_of_float :: "('c, 'k, 'u, 'w) cn_env \<Rightarrow> rat \<Rightarrow> duration" where
  "duration_of_float env x = float_to_i64 (cn_float_to_i64 env) x"

text \<open>The first argument of the loop is the number of attempts left.\<close>

fun connect_loop ::
  "nat \<Rightarrow> ('c, 'k, 'u, 'w) cn_env \<Rightarrow> Connection \<Rightarrow> duration \<Rightarrow> rat \<Rightarrow> err option \<Rightarrow> ('c, 'k) client \<Rightarrow> 'w
     \<Rightarrow> 'c result \<times> ('c, 'k) client \<times> 'w" where
  "connect_loop 0 env conn waitTime backoff lastErr c w =
     (Inl (EWrap ''connect after %d attempts: %w'' (case lastErr of None \<Rightarrow> [] | Some e \<Rightarrow> [e])), c, w)"
| "connect_loop (Suc n) env conn waitTime backoff lastErr c w =
     (case configureOptions env conn c w of
        (Inl e, c1, w1) \<Rightarrow> (Inl e, c1, w1)
      | (Inr opts, c1, w1) \<Rightarrow>
          (case cn_Connect env (co_Address conn) opts w1 of
             (Inr nc, w2) \<Rightarrow> (Inr nc, c1, w2)
           | (Inl e, w2) \<Rightarrow>
               if n > 0 then
                 (case cn_wait env waitTime w2 of (cancelled, w3) \<Rightarrow>
                    let waitTime' = duration_of_float env (fl_mul (fl_of_int waitTime) backoff) in
                    (case cn_ctxErr env w3 of
                       Some ce \<Rightarrow>
                         if cancelled then (Inl (wrap1 ''context cancelled: %w'' ce), c1, w3)
                         else connect_loop n env conn waitTime' backoff (Some e) c1 w3
                     | None \<Rightarrow> connect_loop n env conn waitTime' backoff (Some e) c1 w3))
               else connect_loop n env conn waitTime backoff (Some e) c1 w2))"

definition connectWithRetry ::
  "('c, 'k, 'u, 'w) cn_env \<Rightarrow> Connection \<Rightarrow> ('c, 'k) client \<Rightarrow> 'w \<Rightarrow> 'c result \<times> ('c, 'k) client \<times> 'w" where
  "connectWithRetry env conn c w =
     (let waitTime = (if co_InitialRetryWait conn = 0 then defaultInitialRetryWait else co_InitialRetryWait conn);
          backoff = (if co_InitialRetryBackoff conn = 0 then defaultInitialRetryBackoff else co_InitialRetryBackoff conn);
          attempts = (if co_InitialRetryAttempts conn \<le> 0 then defaultInitialRetryAttempts
                      else co_InitialRetryAttempts conn) in
      connect_loop (nat attempts) env conn waitTime backoff None c w)"

section \<open>The handlers of the connection\<close>

definition conn_metric_op ::
  "('c, 'k, 'u, 'w) cn_env \<Rightarrow> ('c, 'k) client \<Rightarrow> conn_metric \<Rightarrow> 'w \<Rightarrow> 'w" where
  "conn_metric_op env c x w = (if cl_hasMetrics c then cn_metric env x w else w)"

definition onConnect :: "('c, 'k, 'u, 'w) cn_env \<Rightarrow> ('c, 'k) client \<Rightarrow> 'w \<Rightarrow> ('c, 'k) client \<times> 'w" where
  "onConnect env c w = (c\<lparr> cl_inLameDuck := False \<rparr>, conn_metric_op env c (ConnectionState 1) w)"

definition onDisconnect ::
  "('c, 'k, 'u, 'w) cn_env \<Rightarrow> 'c option \<Rightarrow> err option \<Rightarrow> ('c, 'k) client \<Rightarrow> 'w \<Rightarrow> ('c, 'k) client \<times> 'w" where
  "onDisconnect env nc e c w =
     (case cn_now env w of (t, w1) \<Rightarrow>
        let w2 = conn_metric_op env c (ConnectionState 0) w1 in
        (c\<lparr> cl_lastError := e, cl_lastDisconnect := t \<rparr>,
         case cn_OnDisconnect env of None \<Rightarrow> w2 | Some f \<Rightarrow> f nc e w2))"

definition onReconnect ::
  "('c, 'k, 'u, 'w) cn_env \<Rightarrow> 'c option \<Rightarrow> ('c, 'k) client \<Rightarrow> 'w \<Rightarrow> ('c, 'k) client \<times> 'w" where
  "onReconnect env nc c w =
     (let w1 = conn_metric_op env c ReconnectCount (conn_metric_op env c (ConnectionState 1) w) in
      (c\<lparr> cl_reconnectCount := i64 (cl_reconnectCount c + 1), cl_inLameDuck := False \<rparr>,
       case cn_OnReconnect env of None \<Rightarrow> w1 | Some f \<Rightarrow> f nc w1))"

definition onReconnectErr :: "err option \<Rightarrow> ('c, 'k) client \<Rightarrow> ('c, 'k) client" where
  "onReconnectErr e c = (case e of None \<Rightarrow> c | Some e \<Rightarrow> c\<lparr> cl_lastError := Some e \<rparr>)"

definition onClosed ::
  "('c, 'k, 'u, 'w) cn_env \<Rightarrow> 'c option \<Rightarrow> ('c, 'k) client \<Rightarrow> 'w \<Rightarrow> ('c, 'k) client \<times> 'w" where
  "onClosed env nc c w =
     (let c1 = (case nc of
                  None \<Rightarrow> c
                | Some nc \<Rightarrow> (case cn_LastError env nc w of None \<Rightarrow> c | Some e \<Rightarrow> c\<lparr> cl_lastError := Some e \<rparr>));
          w1 = conn_metric_op env c (ConnectionState 0) w in
      (c1\<lparr> cl_inLameDuck := False \<rparr>, case cn_OnClosed env of None \<Rightarrow> w1 | Some f \<Rightarrow> f nc w1))"

definition onError ::
  "('c, 'k, 'u, 'w) cn_env \<Rightarrow> err option \<Rightarrow> ('c, 'k) client \<Rightarrow> 'w \<Rightarrow> ('c, 'k) client \<times> 'w" where
  "onError env e c w =
     (case e of
        None \<Rightarrow> (c, w)
      | Some e \<Rightarrow>
          let w1 = conn_metric_op env c ConnectionErrors w in
          (c\<lparr> cl_lastError := Some e \<rparr>,
           if errors_Is e NatsErrConsumerNotActive then conn_metric_op env c IdleHeartbeatMiss w1 else w1))"

definition onLameDuck :: "('c, 'k, 'u, 'w) cn_env \<Rightarrow> ('c, 'k) client \<Rightarrow> 'w \<Rightarrow> ('c, 'k) client \<times> 'w" where
  "onLameDuck env c w = (c\<lparr> cl_inLameDuck := True \<rparr>, conn_metric_op env c LameDuckEvents w)"

section \<open>Health and status\<close>

definition IsConnected :: "('c, 'k, 'u, 'w) cn_env \<Rightarrow> ('c, 'k) client \<Rightarrow> 'w \<Rightarrow> bool" where
  "IsConnected env c w = (case cl_conn c of None \<Rightarrow> False | Some nc \<Rightarrow> cn_IsConnected env nc w)"

definition AccountInfo :: "('c, 'k, 'u, 'w) cn_env \<Rightarrow> ('c, 'k) client \<Rightarrow> 'w \<Rightarrow> err option \<times> 'w" where
  "AccountInfo env c w =
     (if \<not> cl_hasJS c then (Some (ESent ErrNatsConnectionNotEstablished), w)
      else map_prod (map_option (wrap1 ''account info: %w'')) (\<lambda>w. w) (cn_AccountInfo env w))"

definition HealthCheck :: "('c, 'k, 'u, 'w) cn_env \<Rightarrow> ('c, 'k) client \<Rightarrow> 'w \<Rightarrow> err option \<times> 'w" where
  "HealthCheck env c w =
     (if \<not> IsConnected env c w then (Some (ESent ErrNatsConnectionNotEstablished), w)
      else if cl_hasJS c then map_prod (map_option (wrap1 ''health check: %w'')) (\<lambda>w. w) (cn_AccountInfo env w)
      else (None, w))"

record ConnectionStatus =
  cs_LastDisconnect :: gotime
  cs_LastError :: "err option"
  cs_ServerURL :: string
  cs_ReconnectCount :: int
  cs_Connected :: bool
  cs_InLameDuck :: bool

definition ConnectionStatus_of :: "('c, 'k, 'u, 'w) cn_env \<Rightarrow> ('c, 'k) client \<Rightarrow> 'w \<Rightarrow> ConnectionStatus" where
  "ConnectionStatus_of env c w =
     \<lparr> cs_LastDisconnect = cl_lastDisconnect c, cs_LastError = cl_lastError c,
       cs_ServerURL = (case cl_conn c of
            Some nc \<Rightarrow> if cn_IsConnected env nc w then redactURLString env (cn_ConnectedUrl env nc w) else []
          | None \<Rightarrow> []),
       cs_ReconnectCount = cl_reconnectCount c, cs_Connected = IsConnected env c w, cs_InLameDuck = cl_inLameDuck c \<rparr>"

text \<open>\<^const>\<open>None\<close>: the call still waits after the events.\<close>

fun wait_loop :: "wait_event list \<Rightarrow> err option option" where
  "wait_loop [] = None"
| "wait_loop (WaitCtx e # evs) = Some (Some (wrap1 ''wait connected: %w'' e))"
| "wait_loop (WaitClosedChannel # evs) = Some (Some (ESent ErrNatsConnectionNotEstablished))"
| "wait_loop (WaitStatus status # evs) =
     (case status of
        CONNECTED \<Rightarrow> Some None
      | CLOSED \<Rightarrow> Some (Some (ESent ErrNatsConnectionNotEstablished))
      | _ \<Rightarrow> wait_loop evs)"

definition WaitConnected ::
  "('c, 'k, 'u, 'w) cn_env \<Rightarrow> ('c, 'k) client \<Rightarrow> 'w \<Rightarrow> (err option \<times> 'w) option" where
  "WaitConnected env c w =
     (case cl_conn c of
        None \<Rightarrow> Some (Some (ESent ErrNatsConnectionNotEstablished), w)
      | Some nc \<Rightarrow>
          if cn_IsConnected env nc w then Some (None, w)
          else
            let w1 = cn_StatusChanged env nc w in
            if cn_IsConnected env nc w1 then Some (None, w1)
            else (case cn_events env nc w1 of (evs, w2) \<Rightarrow> map_option (\<lambda>e. (e, w2)) (wait_loop evs)))"

text \<open>The goroutine that \<open>startHealthCheck\<close> starts, a tick at a time; \<^const>\<open>None\<close>: it ends with the context.\<close>

definition startHealthCheck :: "Connection \<Rightarrow> ('c, 'k) client \<Rightarrow> ('c, 'k) client" where
  "startHealthCheck conn c =
     (if co_HealthCheckInterval conn \<le> 0 then c else c\<lparr> cl_healthCheck := True, cl_healthCheckDone := True \<rparr>)"

definition health_tick :: "('c, 'k, 'u, 'w) cn_env \<Rightarrow> ('c, 'k) client \<Rightarrow> bool \<Rightarrow> 'w \<Rightarrow> 'w option" where
  "health_tick env c ctxDone w = (if ctxDone then None else Some (snd (HealthCheck env c w)))"

section \<open>Shutdown\<close>

text \<open>The wait for the drained connection to close; \<^const>\<open>None\<close>: the clock never reaches the deadline.\<close>

partial_function (option) drain_wait ::
  "('c, 'k, 'u, 'w) cn_env \<Rightarrow> 'c \<Rightarrow> gotime \<Rightarrow> 'w \<Rightarrow> (bool \<times> 'w) option" where
  "drain_wait env nc deadline w =
     (case cn_now env w of (t, w1) \<Rightarrow>
        if t < deadline then
          (if cn_IsClosed env nc w1 then Some (True, w1)
           else drain_wait env nc deadline (cn_Sleep env (10 * Millisecond) w1))
        else Some (False, w1))"

definition drainAndClose ::
  "('c, 'k, 'u, 'w) cn_env \<Rightarrow> Connection \<Rightarrow> ('c, 'k) client \<Rightarrow> 'w \<Rightarrow> (err option \<times> ('c, 'k) client \<times> 'w) option" where
  "drainAndClose env conn c w =
     (let c1 = c\<lparr> cl_conn := None, cl_hasJS := False \<rparr> in
      case cl_conn c of
        None \<Rightarrow> Some (None, c1, w)
      | Some nc \<Rightarrow>
          let timeout = (if co_DrainTimeout conn \<le> 0 then defaultDrainTimeout else co_DrainTimeout conn) in
          (case cn_Drain env nc w of
             (Some e, w1) \<Rightarrow> Some (Some (wrap1 ''drain: %w'' e), c1, cn_Close env nc w1)
           | (None, w1) \<Rightarrow>
               (case cn_now env w1 of (t, w2) \<Rightarrow>
                  (case drain_wait env nc (t + timeout) w2 of
                     None \<Rightarrow> None
                   | Some (True, w3) \<Rightarrow> Some (None, c1, w3)
                   | Some (False, w3) \<Rightarrow>
                       Some (Some (wrap1 ''%w after %s'' (ESent ErrDrainTimeout)), c1, cn_Close env nc w3)))))"

definition stop_if :: "('c, 'k, 'u, 'w) cn_env \<Rightarrow> bool \<Rightarrow> stoppable \<Rightarrow> 'w \<Rightarrow> 'w" where
  "stop_if env b x w = (if b then cn_stop env x w else w)"

text \<open>Waiting for the asynchronous publishes, then stopping the publisher.\<close>

definition drain_publisher ::
  "('c, 'k, 'u, 'w) cn_env \<Rightarrow> Connection \<Rightarrow> ('c, 'k) client \<Rightarrow> 'w \<Rightarrow> err list \<times> ('c, 'k) client \<times> 'w" where
  "drain_publisher env conn c w =
     (case cl_publisher c of
        None \<Rightarrow> ([], c, w)
      | Some p \<Rightarrow>
          let drainTimeout = (if co_DrainTimeout conn \<le> 0 then defaultDrainTimeout else co_DrainTimeout conn) in
          (case cn_asyncWait env drainTimeout w of (ready, w1) \<Rightarrow>
             (case PublishAsyncComplete ready p of (e, p') \<Rightarrow>
                (case e of
                   Some e \<Rightarrow>
                     if \<not> errors_Is e CtxDeadlineExceeded \<and> \<not> errors_Is e CtxCanceled
                     then [wrap1 ''async publish drain: %w'' e] else []
                 | None \<Rightarrow> [],
                 c\<lparr> cl_publisher := Some p' \<rparr>, cn_stop env StopPublisher w1))))"

definition errors_Join :: "err list \<Rightarrow> err option" where
  "errors_Join es = (if es = [] then None else Some (EWrap [] es))"

definition shutdownGraceful ::
  "('c, 'k, 'u, 'w) cn_env \<Rightarrow> Connection \<Rightarrow> ('c, 'k) client \<Rightarrow> 'w \<Rightarrow> (err option \<times> ('c, 'k) client \<times> 'w) option" where
  "shutdownGraceful env conn c w =
     (let w1 = stop_if env (cl_hasConsumer c) StopConsumer
                 (stop_if env (cl_hasCollector c) StopCollector (stop_if env (cl_healthCheck c) StopTicker w)) in
      case drain_publisher env conn (c\<lparr> cl_hasCollector := False \<rparr>) w1 of (errs, c1, w2) \<Rightarrow>
        let w3 = stop_if env (cl_healthCheckDone c1) WaitHealthCheck (stop_if env (cl_hasCancel c1) CancelClient w2);
            c2 = c1\<lparr> cl_hasCancel := False, cl_healthCheckDone := False \<rparr> in
        (case drainAndClose env conn c2 w3 of
           None \<Rightarrow> None
         | Some (e, c3, w4) \<Rightarrow>
             let errs' = errs @ (case e of None \<Rightarrow> [] | Some e \<Rightarrow> [e]);
                 w5 = (case cl_nkeyPair c3 of None \<Rightarrow> w4 | Some kp \<Rightarrow> cn_Wipe env kp w4) in
             Some (errors_Join errs', c3\<lparr> cl_nkeyPair := None, cl_healthCheck := False \<rparr>, w5)))"

definition Shutdown ::
  "('c, 'k, 'u, 'w) cn_env \<Rightarrow> Connection \<Rightarrow> ('c, 'k) client \<Rightarrow> 'w \<Rightarrow> (err option \<times> ('c, 'k) client \<times> 'w) option" where
  "Shutdown env conn c w =
     (if cl_shutdownOnce c then Some (None, c, w)
      else shutdownGraceful env conn (c\<lparr> cl_shutdownOnce := True \<rparr>) w)"

section \<open>A new client\<close>

record MetricsConfig =
  mc_Prefix :: string
  mc_AllowMetrics :: bool
  mc_AllowTracing :: bool

record Config =
  cg_PublisherConfig :: PublisherConfig
  cg_Metrics :: MetricsConfig
  cg_Conn :: Connection
  cg_ConnAllowMetrics :: bool
  cg_ConnMetricPrefix :: string

text \<open>The metrics settings with those of the connection as fallback.\<close>

definition client_metrics_cfg :: "Config \<Rightarrow> MetricsConfig" where
  "client_metrics_cfg cfg =
     (let m = cg_Metrics cfg;
          m1 = (if \<not> mc_AllowMetrics m \<and> cg_ConnAllowMetrics cfg then m\<lparr> mc_AllowMetrics := True \<rparr> else m) in
      if IsEmpty (mc_Prefix m1) \<and> \<not> IsEmpty (cg_ConnMetricPrefix cfg)
      then m1\<lparr> mc_Prefix := cg_ConnMetricPrefix cfg \<rparr> else m1)"

definition blank_client :: "bool \<Rightarrow> ('c, 'k) client" where
  "blank_client hasMetrics =
     \<lparr> cl_conn = None, cl_hasJS = False, cl_lastDisconnect = zero_time, cl_lastError = None, cl_hasMetrics = hasMetrics,
       cl_publisher = None, cl_hasConsumer = False, cl_hasCollector = False, cl_hasCancel = True,
       cl_healthCheck = False, cl_healthCheckDone = False, cl_nkeyPair = None, cl_reconnectCount = 0,
       cl_inLameDuck = False, cl_shutdownOnce = False \<rparr>"

definition client_connect ::
  "('c, 'k, 'u, 'w) cn_env \<Rightarrow> Connection \<Rightarrow> ('c, 'k) client \<Rightarrow> 'w \<Rightarrow> 'c result \<times> ('c, 'k) client \<times> 'w" where
  "client_connect env conn c w =
     (if co_InitialRetryAttempts conn > 0 then connectWithRetry env conn c w
      else
        (case configureOptions env conn c w of
           (Inl e, c1, w1) \<Rightarrow> (Inl e, c1, w1)
         | (Inr opts, c1, w1) \<Rightarrow>
             (case cn_Connect env (co_Address conn) opts w1 of (r, w2) \<Rightarrow> (r, c1, w2))))"

text \<open>
  The result with the client as it was left, also after an error. \<open>newClientMetrics\<close> and
  \<open>newMetricsCollector\<close> return nil unless metrics are allowed.
\<close>

definition NewClient ::
  "('c, 'k, 'u, 'w) cn_env \<Rightarrow> Config option \<Rightarrow> 'w \<Rightarrow> err option \<times> ('c, 'k) client \<times> 'w" where
  "NewClient env cfg w =
     (case cfg of
        None \<Rightarrow> (Some (wrap1 ''new client: %w'' (ESent ErrEmptyConfigNotAllowed)), blank_client False, w)
      | Some cfg \<Rightarrow>
          let conn = cg_Conn cfg in
          if IsEmpty (co_Address conn)
          then (Some (wrap1 ''new client: %w'' (ESent ErrEmptyAddressNotAllowed)), blank_client False, w)
          else
            (case validateAuthConfig env conn of
               Some e \<Rightarrow> (Some (wrap1 ''new client: %w'' e), blank_client False, w)
             | None \<Rightarrow>
                 let metricsCfg = client_metrics_cfg cfg; hasMetrics = mc_AllowMetrics metricsCfg in
                 (case client_connect env conn (blank_client hasMetrics) w of
                    (Inl e, c1, w1) \<Rightarrow> (Some (wrap1 ''connect: %w'' e), c1, w1)
                  | (Inr nc, c1, w1) \<Rightarrow>
                      let c2 = c1\<lparr> cl_conn := Some nc,
                            cl_publisher := Some (newPublisher (cg_PublisherConfig cfg) True (co_ReconnectBufSize conn)
                              hasMetrics (mc_AllowTracing metricsCfg)) \<rparr> in
                      (case cn_JetStream env nc (co_Domain conn) w1 of
                         (Some e, w2) \<Rightarrow> (Some (wrap1 ''jetstream: %w'' e), c2, cn_Close env nc w2)
                       | (None, w2) \<Rightarrow>
                           (case cn_JetStreamV2 env nc (co_Domain conn) w2 of
                              (Some e, w3) \<Rightarrow> (Some (wrap1 ''jetstream v2: %w'' e), c2\<lparr> cl_hasJS := True \<rparr>, cn_Close env nc w3)
                            | (None, w3) \<Rightarrow>
                                let c3 = startHealthCheck conn
                                      (c2\<lparr> cl_hasJS := True, cl_hasConsumer := True, cl_hasCollector := hasMetrics \<rparr>) in
                                (None, c3,
                                 conn_metric_op env c3 (ConnectionState (if cn_IsConnected env nc w3 then 1 else 0)) w3))))))"

section \<open>The delay between reconnects\<close>

lemma reconnect_delay_loop_min:
  assumes "0 < delay"
  shows "reconnect_delay_loop n delay = min defaultMaxReconnectDelay (delay * 2 ^ n)"
  using assms
proof (induction n arbitrary: delay)
  case 0
  then show ?case by simp
next
  case (Suc n)
  have half: "go_div defaultMaxReconnectDelay reconnectDelayMultiplier = 15 * Second"
    by (simp add: go_div_def duration_units)
  show ?case
  proof (cases "delay \<ge> 15 * Second")
    case True
    have "30 * Second \<le> 2 * delay" using True by simp
    also have "\<dots> \<le> (2 * delay) * 2 ^ n" using Suc.prems by (intro mult_le_cancel_left1 [THEN iffD2]) simp
    finally have "30 * Second \<le> delay * 2 ^ Suc n" by (simp add: mult.commute mult.left_commute)
    with True half show ?thesis by simp
  next
    case False
    then have "in_i64 (delay * 2)" using Suc.prems by (simp add: in_i64_def duration_units)
    then have "i64 (delay * reconnectDelayMultiplier) = delay * 2"
      by (simp add: i64_id)
    with False half Suc show ?thesis by (simp add: mult.assoc)
  qed
qed

text \<open>
  The delay before the n-th attempt to reconnect is the base delay doubled n - 1 times, at most
  30 seconds, for every base and every n: the doubling never overflows.
\<close>

theorem reconnect_delay_capped:
  "cappedExponentialReconnectDelay base attempts =
     min defaultMaxReconnectDelay ((if base \<le> 0 then defaultReconnectWait else base) * 2 ^ nat (max 1 attempts - 1))"
proof -
  have "0 < (if base \<le> 0 then defaultReconnectWait else base)" by (simp add: duration_units)
  from reconnect_delay_loop_min [OF this] show ?thesis
    by (simp add: cappedExponentialReconnectDelay_def Let_def max_def)
qed

section \<open>The options are safe\<close>

fun is_auth :: "nats_option \<Rightarrow> bool" where
  "is_auth (UserCredentials f) = True"
| "is_auth (Nkey k) = True"
| "is_auth (UserInfo u p) = True"
| "is_auth (Token t) = True"
| "is_auth _ = False"

lemma base_options_no_auth [simp]:
  "filter is_auth (appendBaseConnOptions opts conn) = filter is_auth opts"
  "filter is_auth (appendReconnectOptions opts conn) = filter is_auth opts"
  "Secure tc \<in> set (appendBaseConnOptions opts conn) \<longleftrightarrow> Secure tc \<in> set opts"
  "Secure tc \<in> set (appendReconnectOptions opts conn) \<longleftrightarrow> Secure tc \<in> set opts"
  by (auto simp: appendBaseConnOptions_def appendReconnectOptions_def Let_def)

lemma buildTLSConfig_version: "buildTLSConfig env cfg = Inr (Some tc) \<Longrightarrow> VersionTLS12 \<le> tc_MinVersion tc"
  by (auto simp: buildTLSConfig_def Let_def split: option.splits if_splits)

lemma appendAuthOptions_auth:
  assumes "appendAuthOptions env opts conn w = (Inr (opts', kp), w')"
  shows "length (filter is_auth opts') = length (filter is_auth opts)
      + length (filter (\<lambda>b. b) [\<not> IsEmpty (co_Seed conn), \<not> IsEmpty (co_User conn) \<and> \<not> IsEmpty (co_Password conn),
          \<not> IsEmpty (co_Secret conn), \<not> IsEmpty (co_CredentialsFile conn)])"
    "Secure tc \<in> set opts' \<longleftrightarrow> Secure tc \<in> set opts"
  using assms by (auto simp: appendAuthOptions_def Let_def split: if_splits sum.splits prod.splits)

text \<open>
  C30. A configuration that passes validation never authenticates in two ways: the options handed to
  nats.go have at most one authentication mechanism, and none when the address carries a user name,
  and TLS is never configured below version 1.2, whatever \<open>tls.Config\<close> the caller supplied.
\<close>

theorem client_options_safe:
  assumes valid: "validateAuthConfig env conn = None" and run: "configureOptions env conn c w = (Inr opts, c', w')"
  shows "length (filter is_auth opts) \<le> 1
    \<and> (addressHasUserinfo env (co_Address conn) \<longrightarrow> filter is_auth opts = [])
    \<and> (\<forall>tc. Secure tc \<in> set opts \<longrightarrow> VersionTLS12 \<le> tc_MinVersion tc)"
proof -
  obtain opts1 kp w1 opts2 where a: "appendAuthOptions env (appendBaseConnOptions [] conn) conn w = (Inr (opts1, kp), w1)"
      and t: "appendTLSOptions env opts1 (co_TLS conn) = Inr opts2"
      and o: "opts = appendReconnectOptions opts2 conn
        @ [ConnectHandler, DisconnectErrHandler, ReconnectHandler, ReconnectErrHandler, ClosedHandler, ErrorHandler,
           LameDuckModeHandler]"
    using run by (auto simp: configureOptions_def Let_def split: sum.splits prod.splits)
  have t2: "filter is_auth opts2 = filter is_auth opts1" "Secure tc \<in> set opts2 \<Longrightarrow> VersionTLS12 \<le> tc_MinVersion tc" for tc
    using t buildTLSConfig_version [of env "co_TLS conn"] appendAuthOptions_auth(2) [OF a]
    by (auto simp: appendTLSOptions_def split: sum.splits option.splits)
  have n: "length (filter is_auth opts) = length (filter (\<lambda>b. b) [\<not> IsEmpty (co_Seed conn),
      \<not> IsEmpty (co_User conn) \<and> \<not> IsEmpty (co_Password conn), \<not> IsEmpty (co_Secret conn), \<not> IsEmpty (co_CredentialsFile conn)])"
    using appendAuthOptions_auth(1) [OF a] t2(1) o by simp
  have "length (filter is_auth opts) \<le> 1 \<and> (addressHasUserinfo env (co_Address conn) \<longrightarrow> length (filter is_auth opts) = 0)"
    unfolding n using valid by (auto simp: validateAuthConfig_def Let_def split: if_splits)
  with t2(2) o show ?thesis by auto
qed

section \<open>Shutdown returns\<close>

text \<open>A clock that does not run backwards and that sleeping advances.\<close>

definition clock_laws :: "('c, 'k, 'u, 'w) cn_env \<Rightarrow> ('w \<Rightarrow> gotime) \<Rightarrow> bool" where
  "clock_laws env time \<longleftrightarrow>
     (\<forall>w t w'. cn_now env w = (t, w') \<longrightarrow> t = time w' \<and> time w \<le> time w')
   \<and> (\<forall>d w. time w + d \<le> time (cn_Sleep env d w))"

lemma drain_wait_returns:
  assumes "clock_laws env time"
  shows "\<exists>r. drain_wait env nc deadline w = Some r"
proof (induction "nat (deadline - time w)" arbitrary: w rule: less_induct)
  case less
  obtain t w1 where t: "cn_now env w = (t, w1)" by (cases "cn_now env w")
  have t1: "t = time w1" "time w \<le> time w1" using assms t unfolding clock_laws_def by blast+
  let ?w2 = "cn_Sleep env (10 * Millisecond) w1"
  have "time w1 + 10 * Millisecond \<le> time ?w2" using assms by (simp add: clock_laws_def)
  then have "t < deadline \<Longrightarrow> nat (deadline - time ?w2) < nat (deadline - time w)"
    using t1 by (simp add: duration_units)
  with less.hyps t show ?case by (subst drain_wait.simps) auto
qed

lemma drainAndClose_returns:
  assumes "clock_laws env time"
  shows "\<exists>e w'. drainAndClose env conn c w = Some (e, c\<lparr> cl_conn := None, cl_hasJS := False \<rparr>, w')"
proof (cases "cl_conn c")
  case (Some nc)
  obtain e w1 where d: "cn_Drain env nc w = (e, w1)" by (cases "cn_Drain env nc w")
  obtain t w2 where t: "cn_now env w1 = (t, w2)" by (cases "cn_now env w1")
  let ?timeout = "if co_DrainTimeout conn \<le> 0 then defaultDrainTimeout else co_DrainTimeout conn"
  obtain b w3 where "drain_wait env nc (t + ?timeout) w2 = Some (b, w3)"
    using drain_wait_returns [OF assms, of nc "t + ?timeout" w2] by auto
  with Some d t show ?thesis by (cases e; cases b) (auto simp: drainAndClose_def Let_def)
qed (simp add: drainAndClose_def)


section \<open>Executions\<close>

text \<open>A server that is reachable or not, in a world of the wiped keys and a clock.\<close>

type_synonym demo_world = "nat list \<times> gotime"

definition demo_net :: "bool \<Rightarrow> (nat, nat, string, demo_world) cn_env" where
  "demo_net up = \<lparr> cn_url_Parse = Inr, cn_url_Username = (\<lambda>_. None), cn_url_StringNoUser = (\<lambda>u. u),
     cn_AppendCertsFromPEM = (\<lambda>_. True), cn_X509KeyPair = (\<lambda>_ _. None), cn_FromSeed = (\<lambda>_. Inr 1),
     cn_PublicKey = (\<lambda>_. Inr ''U''), cn_Wipe = (\<lambda>k (ks, t). (ks @ [k], t)),
     cn_Connect = (\<lambda>_ _ w. (if up then Inr 7 else Inl (EMsg ''no servers''), w)),
     cn_JetStream = (\<lambda>_ _ w. (None, w)), cn_JetStreamV2 = (\<lambda>_ _ w. (None, w)), cn_AccountInfo = (\<lambda>w. (None, w)),
     cn_IsConnected = (\<lambda>_ _. up), cn_IsClosed = (\<lambda>_ _. False), cn_ConnectedUrl = (\<lambda>_ _. []),
     cn_LastError = (\<lambda>_ _. None), cn_Drain = (\<lambda>_ w. (None, w)), cn_Close = (\<lambda>_ w. w), cn_StatusChanged = (\<lambda>_ w. w),
     cn_events = (\<lambda>_ w. ([], w)), cn_now = (\<lambda>w. (snd w, w)), cn_Sleep = (\<lambda>d (ks, t). (ks, t + d)),
     cn_ctxErr = (\<lambda>_. None), cn_wait = (\<lambda>_ w. (False, w)), cn_metric = (\<lambda>_ w. w), cn_stop = (\<lambda>_ w. w),
     cn_asyncWait = (\<lambda>_ w. (AsyncDone, w)), cn_OnDisconnect = None, cn_OnReconnect = None, cn_OnClosed = None,
     cn_float_to_i64 = (\<lambda>_. 0) \<rparr>"

definition demo_conn :: Connection where
  "demo_conn = \<lparr> co_CustomReconnectDelay = None, co_Address = ''n'', co_User = [], co_Password = [], co_Seed = ''S'',
     co_Secret = [], co_CredentialsFile = [], co_Domain = [], co_ClientName = [],
     co_TLS = \<lparr> ct_Config = Some \<lparr> tc_MinVersion = 0, tc_InsecureSkipVerify = False, tc_ServerName = [], tc_RootCAs = None,
         tc_Certificates = [] \<rparr>, ct_ServerName = [], ct_CA = [], ct_Cert = [], ct_Key = [], ct_InsecureSkipVerify = False \<rparr>,
     co_ReconnectWait = 0, co_MaxReconnect = 3, co_ConnectTimeout = 0, co_DrainTimeout = 0, co_PingInterval = 0,
     co_MaxPingsOut = 0, co_FlusherTimeout = 0, co_ReconnectJitter = 0, co_ReconnectJitterTLS = 0,
     co_ReconnectBufSize = 0, co_HealthCheckInterval = 0, co_InitialRetryAttempts = 1, co_InitialRetryWait = 0,
     co_InitialRetryBackoff = 0, co_RetryOnFailedConnect = False, co_AllowReconnect = False, co_DontRandomize = False \<rparr>"

definition demo_config :: Config where
  "demo_config = \<lparr> cg_PublisherConfig = \<lparr> pcf_AllowMetrics = False, pcf_AllowTracing = False,
       pcf_SkipSubjectValidation = False, pcf_MaxAsyncPending = 0, pcf_PayloadCompression = 0 \<rparr>,
     cg_Metrics = \<lparr> mc_Prefix = [], mc_AllowMetrics = False, mc_AllowTracing = False \<rparr>, cg_Conn = demo_conn,
     cg_ConnAllowMetrics = False, cg_ConnMetricPrefix = [] \<rparr>"

lemmas conn_eval = configureOptions_def appendBaseConnOptions_def appendAuthOptions_def seed_key_def appendTLSOptions_def
  buildTLSConfig_def appendReconnectOptions_def demo_net_def demo_conn_def IsEmpty_def Let_def

lemma demo_valid: "validateAuthConfig (demo_net up) demo_conn = None"
  by (simp add: validateAuthConfig_def addressHasUserinfo_def demo_net_def demo_conn_def IsEmpty_def trim_space_def
      ascii_space_def Let_def)

lemma demo_options:
  "\<exists>opts. configureOptions (demo_net up) demo_conn (blank_client False) ([], 0)
     = (Inr opts, (blank_client False)\<lparr> cl_nkeyPair := Some 1 \<rparr>, ([], 0)) \<and> Nkey ''U'' \<in> set opts"
  by (simp add: conn_eval blank_client_def)

theorem client_options_safe_witness:
  "\<exists>opts c w. configureOptions (demo_net True) demo_conn (blank_client False) ([], 0) = (Inr opts, c, w)
     \<and> Nkey ''U'' \<in> set opts \<and> length (filter is_auth opts) \<le> 1"
  using demo_options [of True] client_options_safe [OF demo_valid] by blast

definition demo_client :: "(nat, nat) client" where
  "demo_client = (blank_client False)\<lparr> cl_conn := Some 7, cl_hasJS := True, cl_nkeyPair := Some 1 \<rparr>"


text \<open>
  When the connect fails, \<open>NewClient\<close> returns the error and no client, but the key pair parsed from the
  seed is not wiped and the context it derived is not cancelled; nobody is left who could.
\<close>

theorem NewClient_failure_keeps_key:
  "\<exists>e c. NewClient (demo_net False) (Some demo_config) ([], 0) = (Some e, c, ([], 0))
     \<and> cl_nkeyPair c = Some 1 \<and> cl_hasCancel c"
proof -
  obtain opts where o: "configureOptions (demo_net False) demo_conn (blank_client False) ([], 0)
      = (Inr opts, (blank_client False)\<lparr> cl_nkeyPair := Some 1 \<rparr>, ([], 0))"
    using demo_options by blast
  have "co_Address demo_conn = ''n''" "co_InitialRetryAttempts demo_conn = 1" by (simp_all add: demo_conn_def)
  with o demo_valid [of False] show ?thesis
    by (simp add: NewClient_def demo_config_def client_metrics_cfg_def client_connect_def connectWithRetry_def IsEmpty_def
        demo_net_def blank_client_def Let_def)
qed

end
