(* ===== verification/Outbox.thy ===== *)
theory Outbox
  imports Shard "HOL-Library.Sublist"
begin

text \<open>
  The outbox (\<open>outbox/outbox.go\<close>): records are stored before they are published, and deleted once they
  are. Parameters: the store and the publisher, which are interfaces in the source, the id generator,
  the clock and the JSON coding of a record.
\<close>

section \<open>Storing and flushing\<close>

record outbox_Record =
  or_CreatedAt :: gotime
  or_Headers :: "(string \<times> string) list option"
  or_ID :: string
  or_Subject :: string
  or_Data :: bytes

record 'w outbox_Store =
  os_Put :: "string \<Rightarrow> bytes \<Rightarrow> 'w \<Rightarrow> err option \<times> 'w"
  os_Get :: "string \<Rightarrow> 'w \<Rightarrow> bytes result \<times> 'w"
  os_Delete :: "string \<Rightarrow> 'w \<Rightarrow> err option \<times> 'w"
  os_Keys :: "'w \<Rightarrow> string list result \<times> 'w"

type_synonym outbox_message = "string \<times> bytes \<times> (string \<times> string) list option"
type_synonym 'w outbox_publisher = "outbox_message \<Rightarrow> 'w \<Rightarrow> err option \<times> 'w"

record 'w outbox_env =
  ox_ctxErr :: "'w \<Rightarrow> err option"
  ox_nuid :: "'w \<Rightarrow> string \<times> 'w"
  ox_now :: "'w \<Rightarrow> gotime \<times> 'w"
  ox_Marshal :: "outbox_Record \<Rightarrow> bytes result"
  ox_Unmarshal :: "bytes \<Rightarrow> outbox_Record result"

definition Enqueue ::
  "'w outbox_env \<Rightarrow> 'w outbox_Store option \<Rightarrow> string \<Rightarrow> bytes \<Rightarrow> (string \<times> string) list option \<Rightarrow> 'w
     \<Rightarrow> outbox_Record result \<times> 'w" where
  "Enqueue env store subject data headers w =
     (case store of
        None \<Rightarrow> (Inl (EMsg ''outbox enqueue: store is nil''), w)
      | Some store \<Rightarrow>
          if IsEmpty subject then (Inl (EMsg ''outbox enqueue: subject is required''), w)
          else
            (case ox_nuid env w of (ident, w1) \<Rightarrow>
             case ox_now env w1 of (t, w2) \<Rightarrow>
               let rec = \<lparr> or_CreatedAt = t, or_Headers = headers, or_ID = ident, or_Subject = subject, or_Data = data \<rparr> in
               (case ox_Marshal env rec of
                  Inl e \<Rightarrow> (Inl e, w2)
                | Inr raw \<Rightarrow>
                    (case os_Put store ident raw w2 of
                       (Some e, w3) \<Rightarrow> (Inl (wrap1 ''outbox enqueue put: %w'' e), w3)
                     | (None, w3) \<Rightarrow> (Inr rec, w3)))))"

definition message_of :: "outbox_Record \<Rightarrow> outbox_message" where
  "message_of rec = (or_Subject rec, or_Data rec, or_Headers rec)"

text \<open>The loop over the keys; \<open>limit\<close> and \<open>flushed\<close> count records.\<close>

fun flush_loop ::
  "'w outbox_env \<Rightarrow> 'w outbox_Store \<Rightarrow> 'w outbox_publisher \<Rightarrow> int \<Rightarrow> string list \<Rightarrow> int \<Rightarrow> 'w
     \<Rightarrow> (int \<times> err option) \<times> 'w" where
  "flush_loop env store pub limit [] flushed w = ((flushed, None), w)"
| "flush_loop env store pub limit (key # keys) flushed w =
     (if flushed \<ge> limit then ((flushed, None), w)
      else
        (case ox_ctxErr env w of
           Some e \<Rightarrow> ((flushed, Some e), w)
         | None \<Rightarrow>
             (case os_Get store key w of
                (Inl _, w1) \<Rightarrow> flush_loop env store pub limit keys flushed w1
              | (Inr raw, w1) \<Rightarrow>
                  (case ox_Unmarshal env raw of
                     Inl _ \<Rightarrow> flush_loop env store pub limit keys flushed w1
                   | Inr rec \<Rightarrow>
                       (case pub (message_of rec) w1 of
                          (Some e, w2) \<Rightarrow> ((flushed, Some (wrap1 ''outbox flush publish id=%s: %w'' e)), w2)
                        | (None, w2) \<Rightarrow>
                            flush_loop env store pub limit keys (flushed + 1) (snd (os_Delete store key w2)))))))"

definition Flush ::
  "'w outbox_env \<Rightarrow> 'w outbox_Store option \<Rightarrow> 'w outbox_publisher option \<Rightarrow> int \<Rightarrow> 'w
     \<Rightarrow> (int \<times> err option) \<times> 'w" where
  "Flush env store pub limit w =
     (case (store, pub) of
        (Some store, Some pub) \<Rightarrow>
          (case os_Keys store w of
             (Inl e, w1) \<Rightarrow> ((0, Some e), w1)
           | (Inr keys, w1) \<Rightarrow> flush_loop env store pub (if limit \<le> 0 then 100 else limit) keys 0 w1)
      | _ \<Rightarrow> ((0, Some (EMsg ''outbox flush: store and publisher are required'')), w))"

section \<open>At least once\<close>

text \<open>
  \<open>K w\<close> is what the store holds and \<open>D w\<close> what the publisher has accepted. Reading returns what is
  stored or fails; a delete removes its key or leaves it, and no other; a refused publish leaves no
  trace. The keys are those of the store.
\<close>

definition outbox_laws ::
  "'w outbox_Store \<Rightarrow> 'w outbox_publisher \<Rightarrow> ('w \<Rightarrow> string \<Rightarrow> bytes option) \<Rightarrow> ('w \<Rightarrow> outbox_message list) \<Rightarrow> bool" where
  "outbox_laws store pub K D \<longleftrightarrow>
     (\<forall>k w r w'. os_Get store k w = (r, w') \<longrightarrow> K w' = K w \<and> D w' = D w
        \<and> (case r of Inr v \<Rightarrow> K w k = Some v | Inl _ \<Rightarrow> True))
   \<and> (\<forall>k w e w'. os_Delete store k w = (e, w') \<longrightarrow> D w' = D w \<and> (K w' = K w \<or> K w' = (K w)(k := None)))
   \<and> (\<forall>w r w'. os_Keys store w = (r, w') \<longrightarrow> K w' = K w \<and> D w' = D w
        \<and> (case r of Inr ks \<Rightarrow> distinct ks \<and> set ks = dom (K w) | Inl _ \<Rightarrow> True))
   \<and> (\<forall>m w e w'. pub m w = (e, w') \<longrightarrow> K w' = K w \<and> D w' = (if e = None then D w @ [m] else D w))"

definition decoded :: "'w outbox_env \<Rightarrow> ('w \<Rightarrow> string \<Rightarrow> bytes option) \<Rightarrow> 'w \<Rightarrow> string \<Rightarrow> outbox_Record option" where
  "decoded env K w k =
     (case K w k of None \<Rightarrow> None | Some raw \<Rightarrow> (case ox_Unmarshal env raw of Inl _ \<Rightarrow> None | Inr rec \<Rightarrow> Some rec))"

abbreviation decodable :: "'w outbox_env \<Rightarrow> ('w \<Rightarrow> string \<Rightarrow> bytes option) \<Rightarrow> 'w \<Rightarrow> string list \<Rightarrow> string list" where
  "decodable env K w ks \<equiv> filter (\<lambda>k. decoded env K w k \<noteq> None) ks"

text \<open>The keys \<open>ps\<close> were published, in order, and no other key was touched.\<close>

definition flushed_keys ::
  "'w outbox_env \<Rightarrow> ('w \<Rightarrow> string \<Rightarrow> bytes option) \<Rightarrow> ('w \<Rightarrow> outbox_message list) \<Rightarrow> 'w \<Rightarrow> 'w \<Rightarrow> string list \<Rightarrow> bool" where
  "flushed_keys env K D w w' ps \<longleftrightarrow>
     D w' = D w @ map (\<lambda>k. message_of (the (decoded env K w k))) ps
   \<and> (\<forall>k. K w' k = K w k \<or> k \<in> set ps \<and> K w' k = None)"

text \<open>A record was published and its key deleted, or not.\<close>

lemma decodable_deleted:
  assumes "key \<notin> set ks" "K w3 = K w \<or> K w3 = (K w)(key := None)"
  shows "k \<noteq> key \<Longrightarrow> decoded env K w3 k = decoded env K w k" "decodable env K w3 ks = decodable env K w ks"
proof -
  show same: "k \<noteq> key \<Longrightarrow> decoded env K w3 k = decoded env K w k" for k using assms(2) by (auto simp: decoded_def)
  have "(decoded env K w3 k \<noteq> None) = (decoded env K w k \<noteq> None)" if "k \<in> set ks" for k
    using same [of k] assms(1) that by metis
  then show "decodable env K w3 ks = decodable env K w ks" by (rule filter_cong [OF refl])
qed

lemma flushed_keys_Cons:
  assumes key: "key \<notin> set ks" "decoded env K w key = Some rec" and D3: "D w3 = D w @ [message_of rec]"
    and K3: "K w3 = K w \<or> K w3 = (K w)(key := None)"
    and ps: "flushed_keys env K D w3 w' ps" "subseq ps (decodable env K w ks)"
  shows "flushed_keys env K D w w' (key # ps)"
proof -
  have "set ps \<subseteq> set ks" using ps(2) by (auto elim: list_emb_set)
  then have keys: "k \<noteq> key" if "k \<in> set ps" for k using that key(1) by blast
  have "map (\<lambda>k. message_of (the (decoded env K w3 k))) ps = map (\<lambda>k. message_of (the (decoded env K w k))) ps"
    using decodable_deleted(1) [OF key(1) K3 keys] by simp
  then have "D w' = D w @ map (\<lambda>k. message_of (the (decoded env K w k))) (key # ps)"
    using ps(1) D3 key(2) by (simp add: flushed_keys_def)
  moreover have "K w' k = K w k \<or> k \<in> set (key # ps) \<and> K w' k = None" for k
  proof -
    have "K w' k = K w3 k \<or> k \<in> set ps \<and> K w' k = None" using ps(1) by (simp add: flushed_keys_def)
    with K3 show ?thesis by (cases "k = key") auto
  qed
  ultimately show ?thesis by (simp add: flushed_keys_def)
qed

lemma flush_loop_publishes:
  assumes laws: "outbox_laws store pub K D" and ks: "distinct ks" "0 \<le> limit - flushed"
    and run: "flush_loop env store pub limit ks flushed w = ((n, e), w')"
  shows "\<exists>ps. subseq ps (decodable env K w ks) \<and> flushed_keys env K D w w' ps \<and> n = flushed + int (length ps) \<and> n \<le> limit
    \<and> (e = None \<and> n < limit \<and> (\<forall>k w. K w k \<noteq> None \<longrightarrow> is_ok (fst (os_Get store k w)))
       \<longrightarrow> ps = decodable env K w ks)"
  using ks run
proof (induction ks arbitrary: flushed w)
  case Nil
  then show ?case by (simp add: flushed_keys_def)
next
  case (Cons key ks)
  obtain r w1 where g: "os_Get store key w = (r, w1)" by (cases "os_Get store key w")
  have g1: "K w1 = K w" "D w1 = D w" "case r of Inr v \<Rightarrow> K w key = Some v | Inl _ \<Rightarrow> True"
    using laws g unfolding outbox_laws_def by blast+
  have same: "decoded env K w1 = decoded env K w" using g1(1) by (simp add: decoded_def [abs_def])
  show ?case
  proof (cases "flushed \<ge> limit \<or> ox_ctxErr env w \<noteq> None")
    case True
    then show ?thesis
      using Cons.prems by (intro exI [of _ "[]"]) (auto simp: flushed_keys_def split: if_splits option.splits)
  next
    case go: False
    show ?thesis
    proof (cases "\<exists>raw rec. r = Inr raw \<and> ox_Unmarshal env raw = Inr rec")
      case False
      then have run: "flush_loop env store pub limit ks flushed w1 = ((n, e), w')"
        using Cons.prems(3) go g by (auto split: sum.splits)
      obtain ps where ps: "subseq ps (decodable env K w ks)" "flushed_keys env K D w1 w' ps" "n = flushed + int (length ps)"
          "n \<le> limit" "e = None \<and> n < limit \<and> (\<forall>k w. K w k \<noteq> None \<longrightarrow> is_ok (fst (os_Get store k w)))
            \<longrightarrow> ps = decodable env K w ks"
        using Cons.IH [OF _ Cons.prems(2) run] Cons.prems(1) unfolding same by auto
      have none: "decoded env K w key = None" if "is_ok r \<or> K w key = None"
        using that False g1(3) by (cases r) (auto simp: decoded_def split: sum.splits option.splits)
      have "subseq ps (decodable env K w (key # ks))" using ps(1) by auto
      moreover have "ps = decodable env K w (key # ks)"
        if "e = None \<and> n < limit \<and> (\<forall>k w. K w k \<noteq> None \<longrightarrow> is_ok (fst (os_Get store k w)))"
        using ps(5) that none g by (metis (mono_tags, lifting) filter.simps(2) fst_conv)
      moreover have "flushed_keys env K D w w' ps" using ps(2) g1 same by (simp add: flushed_keys_def)
      ultimately show ?thesis using ps(3,4) by blast
    next
      case True
      then obtain raw rec where rec: "r = Inr raw" "ox_Unmarshal env raw = Inr rec" by blast
      with g1(3) have dec: "decoded env K w key = Some rec" by (simp add: decoded_def)
      obtain pe w2 where p: "pub (message_of rec) w1 = (pe, w2)" by (cases "pub (message_of rec) w1")
      have p1: "K w2 = K w1" "D w2 = (if pe = None then D w1 @ [message_of rec] else D w1)"
        using laws p unfolding outbox_laws_def by blast+
      show ?thesis
      proof (cases pe)
        case (Some x)
        then show ?thesis using Cons.prems go g rec p p1 g1
          by (intro exI [of _ "[]"]) (auto simp: flushed_keys_def)
      next
        case None
        obtain de w3 where d: "os_Delete store key w2 = (de, w3)" by (cases "os_Delete store key w2")
        have d1: "D w3 = D w2" "K w3 = K w2 \<or> K w3 = (K w2)(key := None)"
          using laws d unfolding outbox_laws_def by blast+
        have K3: "K w3 = K w \<or> K w3 = (K w)(key := None)" and D3: "D w3 = D w @ [message_of rec]"
          using d1 p1 g1 None by auto
        have key: "key \<notin> set ks" using Cons.prems(1) by simp
        have run: "flush_loop env store pub limit ks (flushed + 1) w3 = ((n, e), w')"
          using Cons.prems(3) go g rec p None d by simp
        obtain ps where ps: "subseq ps (decodable env K w ks)" "flushed_keys env K D w3 w' ps"
            "n = flushed + 1 + int (length ps)" "n \<le> limit"
            "e = None \<and> n < limit \<and> (\<forall>k w. K w k \<noteq> None \<longrightarrow> is_ok (fst (os_Get store k w))) \<longrightarrow> ps = decodable env K w ks"
          using Cons.IH [OF _ _ run] Cons.prems(1) go unfolding decodable_deleted(2) [OF key K3] by auto
        have "flushed_keys env K D w w' (key # ps)" by (rule flushed_keys_Cons [OF key dec D3 K3 ps(2,1)])
        with ps dec show ?thesis by (intro exI [of _ "key # ps"]) auto
      qed
    qed
  qed
qed

text \<open>
  C10. A flush loses no record: it publishes, in the order of the keys, the messages of some of the
  records that can be decoded, at most as many as its limit, and only those may be gone from the
  store afterwards. Its count is exact. When it returns no error and did not reach the limit, and the
  store could be read, it has published every record that can be decoded.
\<close>

theorem Flush_at_least_once:
  assumes laws: "outbox_laws store pub K D" and keys: "os_Keys store w = (Inr ks, w1)"
    and run: "Flush env (Some store) (Some pub) limit w = ((n, e), w')"
  shows "\<exists>ps. subseq ps (decodable env K w ks) \<and> flushed_keys env K D w w' ps \<and> n = int (length ps)
    \<and> n \<le> (if limit \<le> 0 then 100 else limit)
    \<and> (e = None \<and> n < (if limit \<le> 0 then 100 else limit) \<and> (\<forall>k w. K w k \<noteq> None \<longrightarrow> is_ok (fst (os_Get store k w)))
       \<longrightarrow> ps = decodable env K w ks)"
proof -
  have k: "K w1 = K w" "D w1 = D w" "distinct ks"
    using laws keys unfolding outbox_laws_def by fastforce+
  have same: "decoded env K w1 = decoded env K w" using k(1) by (simp add: decoded_def [abs_def])
  have L: "0 \<le> (if limit \<le> 0 then 100 else limit) - 0" by simp
  have loop: "flush_loop env store pub (if limit \<le> 0 then 100 else limit) ks 0 w1 = ((n, e), w')"
    using run keys by (simp add: Flush_def)
  obtain ps where "subseq ps (decodable env K w ks)" "flushed_keys env K D w1 w' ps" "n = 0 + int (length ps)"
      "n \<le> (if limit \<le> 0 then 100 else limit)"
      "e = None \<and> n < (if limit \<le> 0 then 100 else limit) \<and> (\<forall>k w. K w k \<noteq> None \<longrightarrow> is_ok (fst (os_Get store k w)))
        \<longrightarrow> ps = decodable env K w ks"
    using flush_loop_publishes [OF laws k(3) L loop] unfolding same by blast
  with k same show ?thesis by (intro exI [of _ ps]) (simp add: flushed_keys_def)
qed

text \<open>A store and a publisher as lists.\<close>

type_synonym outbox_world = "(string \<times> bytes) list \<times> outbox_message list"

definition list_store :: "outbox_world outbox_Store" where
  "list_store = \<lparr> os_Put = (\<lambda>k v (kv, ms). (None, (AList.update k v kv, ms))),
     os_Get = (\<lambda>k w. (case map_of (fst w) k of None \<Rightarrow> Inl (EMsg ''missing'') | Some v \<Rightarrow> Inr v, w)),
     os_Delete = (\<lambda>k (kv, ms). (None, (AList.delete k kv, ms))),
     os_Keys = (\<lambda>w. (Inr (remdups (map fst (fst w))), w)) \<rparr>"

definition list_pub :: "outbox_world outbox_publisher" where
  "list_pub m w = (None, (fst w, snd w @ [m]))"

definition plain_env :: "outbox_world outbox_env" where
  "plain_env = \<lparr> ox_ctxErr = (\<lambda>_. None), ox_nuid = (\<lambda>w. (''id'', w)), ox_now = (\<lambda>w. (0, w)),
     ox_Marshal = (\<lambda>rec. Inr (or_Subject rec)),
     ox_Unmarshal = (\<lambda>raw. if raw = ''bad'' then Inl (EMsg ''json'') else
        Inr \<lparr> or_CreatedAt = 0, or_Headers = None, or_ID = [], or_Subject = raw, or_Data = [] \<rparr>) \<rparr>"

lemma list_laws: "outbox_laws list_store list_pub (\<lambda>w. map_of (fst w)) snd"
  by (auto simp: outbox_laws_def list_store_def list_pub_def delete_conv' dom_map_of_conv_image_fst split: option.splits)

theorem Flush_at_least_once_witness:
  "\<exists>w'. Flush plain_env (Some list_store) (Some list_pub) 0 ([(''a'', ''s''), (''b'', ''bad''), (''c'', ''t'')], [])
      = ((2, None), w') \<and> snd w' = [(''s'', [], None), (''t'', [], None)]"
proof -
  let ?w = "([(''a'', ''s''), (''b'', ''bad''), (''c'', ''t'')], []) :: outbox_world"
  let ?K = "\<lambda>w :: outbox_world. map_of (fst w)"
  have keys: "os_Keys list_store ?w = (Inr [''a'', ''b'', ''c''], ?w)" by (simp add: list_store_def)
  have run: "Flush plain_env (Some list_store) (Some list_pub) 0 ?w = ((2, None),
      snd (Flush plain_env (Some list_store) (Some list_pub) 0 ?w))"
    by (simp add: Flush_def list_store_def list_pub_def plain_env_def message_of_def)
  have dec: "decodable plain_env ?K ?w [''a'', ''b'', ''c''] = [''a'', ''c'']" by (simp add: decoded_def plain_env_def)
  have reads: "\<forall>k w. ?K w k \<noteq> None \<longrightarrow> is_ok (fst (os_Get list_store k w))" by (auto simp: list_store_def)
  obtain ps where "flushed_keys plain_env ?K snd ?w (snd (Flush plain_env (Some list_store) (Some list_pub) 0 ?w)) ps"
      "ps = [''a'', ''c'']"
    using Flush_at_least_once [OF list_laws keys run] reads unfolding dec by auto
  with run show ?thesis
    by (intro exI [of _ "snd (Flush plain_env (Some list_store) (Some list_pub) 0 ?w)"])
      (auto simp: flushed_keys_def decoded_def plain_env_def message_of_def)
qed

end
