(* ===== verification/Shadow.thy ===== *)
theory Shadow
  imports Consumer
begin

text \<open>
  Shadow traffic (\<open>shadow/shadow.go\<close>) and its graduation (\<open>shadow/graduate.go\<close>). The goroutines that
  observe the shadow handler are the jobs of a state: a call of the wrapped handler may add one, and
  any job may run and end at any time. The random number of a call is an argument. The text of an
  error is left out of the records. A comparison may change the world, as that of a graduation does.
\<close>

section \<open>Shadow handlers\<close>

record 'w shadow_Config =
  sh_Recorder :: "(string \<Rightarrow> string \<Rightarrow> err option list \<Rightarrow> 'w \<Rightarrow> 'w) option"
  sh_ShadowError :: "('w \<Rightarrow> 'w) option"
  sh_ShadowMismatch :: "('w \<Rightarrow> 'w) option"
  sh_Compare :: "(err option \<Rightarrow> err option \<Rightarrow> 'w \<Rightarrow> bool \<times> 'w) option"
  sh_SampleRate :: rat
  sh_MaxInFlight :: int

definition shadow_withDefaults :: "'w shadow_Config \<Rightarrow> 'w shadow_Config" where
  "shadow_withDefaults c =
     (let r1 = (if sh_SampleRate c \<le> 0 then fl64 (1 / 10) else sh_SampleRate c);
          r2 = (if r1 > 1 then 1 else r1) in
      c\<lparr> sh_SampleRate := r2, sh_MaxInFlight := (if sh_MaxInFlight c \<le> 0 then 32 else sh_MaxInFlight c) \<rparr>)"

text \<open>The clone has no reply subject and no subscription.\<close>

definition cloneMsg :: "msg \<Rightarrow> msg" where
  "cloneMsg m = \<lparr> msg_Subject = msg_Subject m, msg_Reply = [], msg_Data = msg_Data m, msg_Header = msg_Header m,
     msg_Metadata = None \<rparr>"

definition shadow_run :: "'w MsgHandler \<Rightarrow> msg \<Rightarrow> 'w \<Rightarrow> err option \<times> 'w" where
  "shadow_run shadow m w =
     (case shadow m w of
        (HReturn e, w1) \<Rightarrow> (e, w1)
      | (HPanicError _, w1) \<Rightarrow> (Some (EMsg ''shadow panic: %v''), w1)
      | (HPanicValue, w1) \<Rightarrow> (Some (EMsg ''shadow panic: %v''), w1))"

definition same_outcome :: "err option \<Rightarrow> err option \<Rightarrow> bool" where
  "same_outcome primaryErr shadowErr \<longleftrightarrow> (primaryErr = None) = (shadowErr = None)"

definition opt_op :: "('w \<Rightarrow> 'w) option \<Rightarrow> 'w \<Rightarrow> 'w" where
  "opt_op f w = (case f of None \<Rightarrow> w | Some f \<Rightarrow> f w)"

definition observeShadow ::
  "'w shadow_Config \<Rightarrow> 'w MsgHandler \<Rightarrow> msg \<Rightarrow> string \<Rightarrow> err option \<Rightarrow> 'w \<Rightarrow> 'w" where
  "observeShadow cfg shadow m subject primaryErr w =
     (case shadow_run shadow m w of (shadowErr, w1) \<Rightarrow>
        let w2 = (if shadowErr \<noteq> None
                  then opt_op (map_option (\<lambda>f. f ''shadow_error'' subject [shadowErr]) (sh_Recorder cfg))
                         (opt_op (sh_ShadowError cfg) w1)
                  else w1) in
        case (case sh_Compare cfg of
                None \<Rightarrow> (same_outcome primaryErr shadowErr, w2)
              | Some compare \<Rightarrow> compare primaryErr shadowErr w2) of
          (match, w3) \<Rightarrow>
            if \<not> match
            then opt_op (map_option (\<lambda>f. f ''shadow_mismatch'' subject [primaryErr, shadowErr]) (sh_Recorder cfg))
                   (opt_op (sh_ShadowMismatch cfg) w3)
            else w3)"

text \<open>
  The handler \<open>With\<close> returns shares a semaphore among its calls. A job is a started goroutine: the
  cloned message, the subject and the error of the primary handler.
\<close>

record shadow_state =
  ss_sem :: nat
  ss_jobs :: "(msg \<times> string \<times> err option) list"

definition shadow_start :: shadow_state where
  "shadow_start = \<lparr> ss_sem = 0, ss_jobs = [] \<rparr>"

definition shadow_call ::
  "'w shadow_Config \<Rightarrow> 'w MsgHandler \<Rightarrow> bool \<Rightarrow> rat \<Rightarrow> msg \<Rightarrow> shadow_state \<times> 'w \<Rightarrow> handler_result \<times> shadow_state \<times> 'w" where
  "shadow_call cfg primary hasShadow random m = (\<lambda>(s, w).
     (let cfg = shadow_withDefaults cfg in
      case primary m w of
        (HReturn primaryErr, w1) \<Rightarrow>
          if \<not> hasShadow then (HReturn primaryErr, s, w1)
          else if sh_SampleRate cfg < 1 \<and> random \<ge> sh_SampleRate cfg then (HReturn primaryErr, s, w1)
          else if int (ss_sem s) < sh_MaxInFlight cfg then
            (HReturn primaryErr,
             s\<lparr> ss_sem := ss_sem s + 1, ss_jobs := ss_jobs s @ [(cloneMsg m, msg_Subject m, primaryErr)] \<rparr>, w1)
          else (HReturn primaryErr, s, w1)
      | (r, w1) \<Rightarrow> (r, s, w1)))"

definition shadow_job ::
  "'w shadow_Config \<Rightarrow> 'w MsgHandler \<Rightarrow> nat \<Rightarrow> shadow_state \<times> 'w \<Rightarrow> (shadow_state \<times> 'w) option" where
  "shadow_job cfg shadow i = (\<lambda>(s, w).
     if i < length (ss_jobs s) then
       (case ss_jobs s ! i of (m, subject, primaryErr) \<Rightarrow>
          Some (s\<lparr> ss_sem := ss_sem s - 1, ss_jobs := take i (ss_jobs s) @ drop (Suc i) (ss_jobs s) \<rparr>,
                observeShadow cfg shadow m subject primaryErr w))
     else None)"

section \<open>Graduation\<close>

text \<open>The phases \<open>iota + 1\<close>; rates are \<open>float64\<close>, and the current rate is stored in millionths.\<close>

datatype GraduatePhase = PhaseRamping | PhaseHolding | PhasePromoteReady | PhaseAborted

record 'w GraduateConfig =
  gc_OnAbort :: "(string \<Rightarrow> 'w \<Rightarrow> 'w) option"
  gc_OnPromoteReady :: "('w \<Rightarrow> 'w) option"
  gc_Compare :: "(err option \<Rightarrow> err option \<Rightarrow> bool) option"
  gc_StartRate :: rat
  gc_MaxRate :: rat
  gc_Step :: rat
  gc_MaxMismatchRate :: rat
  gc_Window :: int

definition graduate_withDefaults :: "'w GraduateConfig \<Rightarrow> 'w GraduateConfig" where
  "graduate_withDefaults c =
     (let start = (if gc_StartRate c \<le> 0 then fl64 (1 / 20) else gc_StartRate c);
          m1 = (if gc_MaxRate c \<le> 0 then 1 else gc_MaxRate c);
          m2 = (if m1 > 1 then 1 else m1);
          st = (if gc_Step c \<le> 0 then fl64 (1 / 5) else gc_Step c);
          win = (if gc_Window c \<le> 0 then 500 else gc_Window c);
          mm = (if gc_MaxMismatchRate c \<le> 0 then fl64 (1 / 100) else gc_MaxMismatchRate c) in
      c\<lparr> gc_StartRate := (if start > m2 then m2 else start), gc_MaxRate := m2, gc_Step := st,
         gc_MaxMismatchRate := mm, gc_Window := win \<rparr>)"

record Graduate =
  gr_rate :: nat
  gr_matches :: nat
  gr_mismatches :: nat
  gr_samples :: nat
  gr_phase :: GraduatePhase
  gr_reason :: string

definition millionths :: "rat \<Rightarrow> nat" where
  "millionths r = nat \<lfloor>fl_mul r 1000000\<rfloor>"

definition graduate_rate :: "Graduate \<Rightarrow> rat" where
  "graduate_rate g = fl_div (fl_of_int (int (gr_rate g))) 1000000"

definition NewGraduate :: "'w GraduateConfig \<Rightarrow> Graduate" where
  "NewGraduate cfg = \<lparr> gr_rate = millionths (gc_StartRate (graduate_withDefaults cfg)), gr_matches = 0, gr_mismatches = 0,
     gr_samples = 0, gr_phase = PhaseRamping, gr_reason = [] \<rparr>"

definition Abort :: "'w GraduateConfig \<Rightarrow> string \<Rightarrow> Graduate \<times> 'w \<Rightarrow> Graduate \<times> 'w" where
  "Abort cfg reason = (\<lambda>(g, w).
     (g\<lparr> gr_reason := reason, gr_phase := PhaseAborted \<rparr>,
      case gc_OnAbort cfg of None \<Rightarrow> w | Some f \<Rightarrow> f reason w))"

definition Promote :: "Graduate \<Rightarrow> Graduate" where
  "Promote g = (if gr_phase g \<noteq> PhasePromoteReady then g else g\<lparr> gr_phase := PhaseHolding \<rparr>)"

text \<open>
  In what follows \<open>cfg\<close> is the completed configuration. \<open>evaluateWindow\<close> takes no lock: it reads the
  atomic fields (\<open>evaluate_decide\<close>), and the stores come after that (\<open>evaluate_apply\<close>); other
  goroutines may act in between. The counters are kept as natural numbers: one sample is one message,
  and \<open>uint64\<close> does not overflow by counting messages.
\<close>

datatype window_decision = KeepPhase | AbortMismatch | BecomePromoteReady | RampTo nat

definition evaluate_decide :: "'w GraduateConfig \<Rightarrow> Graduate \<Rightarrow> window_decision" where
  "evaluate_decide cfg g =
     (if gr_phase g = PhaseAborted \<or> gr_phase g = PhasePromoteReady then KeepPhase
      else if gr_samples g = 0 \<or> gr_samples g mod nat (gc_Window cfg) \<noteq> 0 then KeepPhase
      else if fl_div (fl_of_int (int (gr_mismatches g))) (fl_of_int (int (gr_samples g))) > gc_MaxMismatchRate cfg
      then AbortMismatch
      else if fl_add (graduate_rate g) (fl64 (1 / 1000000000)) \<ge> gc_MaxRate cfg then BecomePromoteReady
      else RampTo (millionths (min (gc_MaxRate cfg) (fl_add (graduate_rate g) (gc_Step cfg)))))"

definition evaluate_apply :: "'w GraduateConfig \<Rightarrow> window_decision \<Rightarrow> Graduate \<times> 'w \<Rightarrow> Graduate \<times> 'w" where
  "evaluate_apply cfg d gw =
     (case d of
        KeepPhase \<Rightarrow> gw
      | AbortMismatch \<Rightarrow> Abort cfg ''mismatch_rate'' gw
      | BecomePromoteReady \<Rightarrow>
          ((fst gw)\<lparr> gr_phase := PhasePromoteReady \<rparr>, opt_op (gc_OnPromoteReady cfg) (snd gw))
      | RampTo r \<Rightarrow> ((fst gw)\<lparr> gr_rate := r, gr_phase := PhaseRamping \<rparr>, snd gw))"

definition evaluateWindow :: "'w GraduateConfig \<Rightarrow> Graduate \<times> 'w \<Rightarrow> Graduate \<times> 'w" where
  "evaluateWindow cfg gw = evaluate_apply cfg (evaluate_decide cfg (fst gw)) gw"

definition observeCompare ::
  "'w GraduateConfig \<Rightarrow> err option \<Rightarrow> err option \<Rightarrow> Graduate \<times> 'w \<Rightarrow> bool \<times> Graduate \<times> 'w" where
  "observeCompare cfg primaryErr shadowErr = (\<lambda>(g, w).
     let match = (case gc_Compare cfg of None \<Rightarrow> same_outcome primaryErr shadowErr | Some f \<Rightarrow> f primaryErr shadowErr);
         g1 = g\<lparr> gr_samples := gr_samples g + 1 \<rparr>;
         g2 = (if match then g1\<lparr> gr_matches := gr_matches g1 + 1 \<rparr> else g1\<lparr> gr_mismatches := gr_mismatches g1 + 1 \<rparr>) in
     (match, evaluateWindow cfg (g2, w)))"

text \<open>
  The handler of a graduation wraps anew for every message, so the semaphore of a call is its own.
\<close>

definition graduate_call ::
  "'w GraduateConfig \<Rightarrow> (Graduate \<times> 'w) shadow_Config \<Rightarrow> (Graduate \<times> 'w) MsgHandler \<Rightarrow> rat \<Rightarrow> msg \<Rightarrow> shadow_state
     \<Rightarrow> Graduate \<times> 'w \<Rightarrow> handler_result \<times> shadow_state \<times> Graduate \<times> 'w" where
  "graduate_call cfg sh primary random m s gw =
     (if gr_phase (fst gw) = PhaseAborted
      then (case primary m gw of (r, gw1) \<Rightarrow> (r, s, gw1))
      else
        (let scfg = sh\<lparr> sh_Compare := Some (observeCompare cfg), sh_SampleRate := graduate_rate (fst gw),
                      sh_MaxInFlight := 0 \<rparr> in
         case shadow_call scfg primary True random m (shadow_start, gw) of (r, s1, gw1) \<Rightarrow>
           (r, s\<lparr> ss_sem := ss_sem s + ss_sem s1, ss_jobs := ss_jobs s @ ss_jobs s1 \<rparr>, gw1)))"

section \<open>A shadow does not touch deliveries\<close>

text \<open>
  The executions of a wrapped handler: calls and jobs in any order, while the world may change in any
  way between them.
\<close>

inductive shadow_reachable ::
  "'w shadow_Config \<Rightarrow> 'w MsgHandler \<Rightarrow> 'w MsgHandler \<Rightarrow> shadow_state \<Rightarrow> 'w \<Rightarrow> bool"
  for cfg primary shadow where
  start: "shadow_reachable cfg primary shadow shadow_start w"
| call: "\<lbrakk>shadow_reachable cfg primary shadow s w; shadow_call cfg primary True random m (s, w) = (r, s', w')\<rbrakk>
    \<Longrightarrow> shadow_reachable cfg primary shadow s' w'"
| job: "\<lbrakk>shadow_reachable cfg primary shadow s w; shadow_job cfg shadow i (s, w) = Some (s', w')\<rbrakk>
    \<Longrightarrow> shadow_reachable cfg primary shadow s' w'"
| outside: "shadow_reachable cfg primary shadow s w \<Longrightarrow> shadow_reachable cfg primary shadow s w'"

definition shadow_inv :: "'w shadow_Config \<Rightarrow> shadow_state \<Rightarrow> bool" where
  "shadow_inv cfg s \<longleftrightarrow> ss_sem s = length (ss_jobs s) \<and> int (ss_sem s) \<le> sh_MaxInFlight (shadow_withDefaults cfg)
     \<and> (\<forall>j\<in>set (ss_jobs s). msg_Reply (fst j) = [])"

lemma shadow_inv_reachable: "shadow_reachable cfg primary shadow s w \<Longrightarrow> shadow_inv cfg s"
proof (induction rule: shadow_reachable.induct)
  case (start w)
  show ?case by (simp add: shadow_inv_def shadow_start_def shadow_withDefaults_def Let_def)
next
  case (call s w random m r s' w')
  then show ?case
    by (auto simp: shadow_call_def shadow_inv_def cloneMsg_def Let_def
        split: prod.splits handler_result.splits if_splits)
next
  case (job s w i s' w')
  then have i: "i < length (ss_jobs s)"
      and s': "ss_sem s' = ss_sem s - 1" "ss_jobs s' = take i (ss_jobs s) @ drop (Suc i) (ss_jobs s)"
    by (auto simp: shadow_job_def split: if_splits prod.splits)
  moreover have "set (ss_jobs s') \<subseteq> set (ss_jobs s)" using s'(2) by (auto dest: in_set_takeD in_set_dropD)
  ultimately show ?case using job.IH by (fastforce simp: shadow_inv_def)
qed

text \<open>
  What is assumed of the shadow handler: it may settle the message it is given, and no other. The
  recorder, the metrics and the comparison settle nothing.
\<close>

definition shadow_laws :: "'w shadow_Config \<Rightarrow> 'w MsgHandler \<Rightarrow> 'w verdicts \<Rightarrow> bool" where
  "shadow_laws cfg shadow V \<longleftrightarrow>
     (\<forall>m w r. r \<noteq> msg_Reply m \<longrightarrow> V (snd (shadow m w)) r = V w r)
   \<and> (\<forall>f a b c w. sh_Recorder cfg = Some f \<longrightarrow> V (f a b c w) = V w)
   \<and> (\<forall>f w. sh_ShadowError cfg = Some f \<longrightarrow> V (f w) = V w)
   \<and> (\<forall>f w. sh_ShadowMismatch cfg = Some f \<longrightarrow> V (f w) = V w)
   \<and> (\<forall>f p e w. sh_Compare cfg = Some f \<longrightarrow> V (snd (f p e w)) = V w)"

lemma observeShadow_keeps:
  assumes laws: "shadow_laws cfg shadow V" and r: "r \<noteq> msg_Reply m"
  shows "V (observeShadow cfg shadow m subject primaryErr w) r = V w r"
proof -
  obtain e w1 where e: "shadow_run shadow m w = (e, w1)" by (cases "shadow_run shadow m w")
  then have "w1 = snd (shadow m w)" by (auto simp: shadow_run_def split: prod.splits handler_result.splits)
  then have w1: "V w1 r = V w r" using laws r by (simp add: shadow_laws_def)
  define w2 where "w2 = (if e \<noteq> None
      then opt_op (map_option (\<lambda>f. f ''shadow_error'' subject [e]) (sh_Recorder cfg)) (opt_op (sh_ShadowError cfg) w1) else w1)"
  have w2: "V w2 = V w1" using laws by (auto simp: w2_def opt_op_def shadow_laws_def split: option.splits)
  obtain match w3 where c: "(case sh_Compare cfg of None \<Rightarrow> (same_outcome primaryErr e, w2)
      | Some compare \<Rightarrow> compare primaryErr e w2) = (match, w3)"
    by (cases "case sh_Compare cfg of None \<Rightarrow> (same_outcome primaryErr e, w2) | Some compare \<Rightarrow> compare primaryErr e w2")
  have w3: "V w3 = V w2"
    using laws c unfolding shadow_laws_def by (cases "sh_Compare cfg") (auto, metis snd_conv)
  have "observeShadow cfg shadow m subject primaryErr w = (if \<not> match
      then opt_op (map_option (\<lambda>f. f ''shadow_mismatch'' subject [primaryErr, e]) (sh_Recorder cfg)) (opt_op (sh_ShadowMismatch cfg) w3)
      else w3)"
    unfolding observeShadow_def Let_def e prod.case w2_def [symmetric] c by (rule refl)
  then show ?thesis using laws w1 w2 w3 by (auto simp: opt_op_def shadow_laws_def split: option.splits)
qed

text \<open>
  C25. A shadow cannot affect delivery: at any point of any execution at most \<open>MaxInFlight\<close> shadows are
  under way, a call returns what the primary handler returned, and a shadow that runs changes the
  verdict of no delivery, even if it acks, naks or terminates the message it was given.
\<close>

theorem shadow_isolated:
  assumes reach: "shadow_reachable cfg primary shadow s w" and laws: "shadow_laws cfg shadow V"
  shows "int (length (ss_jobs s)) \<le> sh_MaxInFlight (shadow_withDefaults cfg)
    \<and> (\<forall>random m. fst (shadow_call cfg primary True random m (s, w)) = fst (primary m w))
    \<and> (\<forall>i s' w' r. shadow_job cfg shadow i (s, w) = Some (s', w') \<and> r \<noteq> [] \<longrightarrow> V w' r = V w r)"
proof (intro conjI allI impI)
  note inv = shadow_inv_reachable [OF reach, unfolded shadow_inv_def]
  show "int (length (ss_jobs s)) \<le> sh_MaxInFlight (shadow_withDefaults cfg)" using inv by simp
  show "fst (shadow_call cfg primary True random m (s, w)) = fst (primary m w)" for random m
    by (simp add: shadow_call_def Let_def split: prod.splits handler_result.splits)
  fix i s' w' and r :: string assume a: "shadow_job cfg shadow i (s, w) = Some (s', w') \<and> r \<noteq> []"
  then obtain m subject e where j: "i < length (ss_jobs s)" "ss_jobs s ! i = (m, subject, e)"
      "w' = observeShadow cfg shadow m subject e w"
    by (auto simp: shadow_job_def split: if_splits prod.splits)
  then have "(m, subject, e) \<in> set (ss_jobs s)" by (metis nth_mem)
  then have "msg_Reply m = []" using inv by fastforce
  with a j(3) observeShadow_keeps [OF laws] show "V w' r = V w r" by simp
qed

text \<open>
  An instance: the world is the list of settled reply subjects, the primary handler acks its message,
  and the shadow tries to terminate what it is given.
\<close>

definition sample_msg :: msg where
  "sample_msg = \<lparr> msg_Subject = ''s'', msg_Reply = ''r'', msg_Data = [], msg_Header = None, msg_Metadata = None \<rparr>"

definition sample_shadow :: "(string \<times> verdict) list shadow_Config" where
  "sample_shadow = \<lparr> sh_Recorder = None, sh_ShadowError = None, sh_ShadowMismatch = None, sh_Compare = None,
     sh_SampleRate = 1, sh_MaxInFlight = 1 \<rparr>"

definition settling :: "verdict \<Rightarrow> (string \<times> verdict) list MsgHandler" where
  "settling v m w = (HReturn None, (msg_Reply m, v) # w)"

theorem shadow_isolated_witness:
  "\<exists>s w s' w'. shadow_reachable sample_shadow (settling Acked) (settling Termed) s w
     \<and> shadow_job sample_shadow (settling Termed) 0 (s, w) = Some (s', w')
     \<and> length (ss_jobs s) = 1 \<and> map_of w ''r'' = Some Acked \<and> map_of w' ''r'' = map_of w ''r''"
proof -
  define s where "s = \<lparr> ss_sem = 1, ss_jobs = [(cloneMsg sample_msg, ''s'', None)] \<rparr>"
  define w where "w = [(''r'', Acked)]"
  have "shadow_call sample_shadow (settling Acked) True 0 sample_msg (shadow_start, []) = (HReturn None, s, w)"
    by (simp add: s_def w_def shadow_call_def sample_shadow_def shadow_withDefaults_def settling_def sample_msg_def
        shadow_start_def Let_def)
  then have reach: "shadow_reachable sample_shadow (settling Acked) (settling Termed) s w"
    by (rule shadow_reachable.call [OF shadow_reachable.start])
  obtain s' w' where job: "shadow_job sample_shadow (settling Termed) 0 (s, w) = Some (s', w')"
    by (simp add: s_def shadow_job_def)
  have "shadow_laws sample_shadow (settling Termed) map_of"
    by (simp add: shadow_laws_def sample_shadow_def settling_def)
  from shadow_isolated [OF reach this] job have "map_of w' ''r'' = map_of w ''r''" by blast
  with reach job show ?thesis
    by (intro exI [of _ s] exI [of _ w] exI [of _ s'] exI [of _ w']) (auto simp: s_def w_def)
qed

section \<open>Graduation: counters, rate and abort\<close>

lemma evaluateWindow_counts [simp]:
  "gr_samples (fst (evaluateWindow cfg gw)) = gr_samples (fst gw)"
  "gr_matches (fst (evaluateWindow cfg gw)) = gr_matches (fst gw)"
  "gr_mismatches (fst (evaluateWindow cfg gw)) = gr_mismatches (fst gw)"
  by (simp_all add: evaluateWindow_def evaluate_apply_def Abort_def split: window_decision.splits prod.splits)

lemma observeCompare_counts:
  assumes "gr_matches g + gr_mismatches g = gr_samples g"
  shows "(let g' = fst (snd (observeCompare cfg p e (g, w))) in gr_matches g' + gr_mismatches g' = gr_samples g')"
  using assms by (simp add: observeCompare_def Let_def)

lemma observeCompare_aborted:
  assumes "gr_phase g = PhaseAborted"
  shows "gr_phase (fst (snd (observeCompare cfg p e (g, w)))) = PhaseAborted"
  using assms by (simp add: observeCompare_def evaluateWindow_def evaluate_decide_def evaluate_apply_def Let_def)

lemma graduate_call_aborted:
  assumes "gr_phase (fst gw) = PhaseAborted"
  shows "fst (snd (graduate_call cfg sh primary random m s gw)) = s"
  using assms by (simp add: graduate_call_def split: prod.splits)

text \<open>
  Once a graduation is aborted no further message is shadowed, and neither a comparison that
  still comes in nor \<open>Promote\<close> leaves the aborted phase. That holds of a window evaluation that starts
  after the abort; one that had already decided to ramp up when the abort came stores its phase over
  it, and the graduation goes on.
\<close>

theorem graduate_abort_race:
  assumes "evaluate_decide cfg g = RampTo r"
  shows "gr_phase (fst (Abort cfg reason (g, w))) = PhaseAborted
    \<and> gr_phase (fst (evaluate_apply cfg (evaluate_decide cfg g) (Abort cfg reason (g, w)))) = PhaseRamping
    \<and> (let gw = Abort cfg reason (g, w) in
         fst (snd (graduate_call cfg sh primary random m s gw)) = s
       \<and> gr_phase (fst (snd (observeCompare cfg p e gw))) = PhaseAborted
       \<and> gr_phase (Promote (fst gw)) = PhaseAborted)"
  using assms observeCompare_aborted [of "fst (Abort cfg reason (g, w))" cfg p e "snd (Abort cfg reason (g, w))"]
    graduate_call_aborted [of "Abort cfg reason (g, w)" cfg sh primary random m s]
  by (simp add: Let_def Abort_def evaluate_apply_def Promote_def)

definition sample_graduate :: "unit GraduateConfig" where
  "sample_graduate = \<lparr> gc_OnAbort = None, gc_OnPromoteReady = None, gc_Compare = None, gc_StartRate = 1 / 4,
     gc_MaxRate = 1, gc_Step = 1 / 4, gc_MaxMismatchRate = 1 / 4, gc_Window = 1 \<rparr>"

definition ramping :: Graduate where
  "ramping = \<lparr> gr_rate = 100000, gr_matches = 1, gr_mismatches = 0, gr_samples = 1, gr_phase = PhaseRamping, gr_reason = [] \<rparr>"

lemma ramping_rate: "fl_add (graduate_rate ramping) (fl64 (1 / 1000000000)) < 1"
proof -
  have n: "fl_of_int (int (gr_rate ramping)) = 100000" using fl64_int [of 100000] by (simp add: fl_of_int_def ramping_def)
  have r: "graduate_rate ramping \<le> 1 / 5" "0 \<le> graduate_rate ramping"
    using fl64_le_double [of "1 / 10"] fl64_nonneg [of "1 / 10"] n by (simp_all add: graduate_rate_def fl_div_def)
  have e: "fl64 (1 / 1000000000) \<le> 1 / 500000000" "0 \<le> fl64 (1 / 1000000000)"
    using fl64_le_double [of "1 / 1000000000"] fl64_nonneg [of "1 / 1000000000"] by simp_all
  show ?thesis
    using r e fl64_le_double [of "graduate_rate ramping + fl64 (1 / 1000000000)"] by (simp add: fl_add_def)
qed

theorem graduate_abort_race_witness:
  "\<exists>r. evaluate_decide sample_graduate ramping = RampTo r
     \<and> gr_phase (fst (evaluate_apply sample_graduate (RampTo r) (Abort sample_graduate ''operator'' (ramping, ())))) = PhaseRamping"
proof -
  have "evaluate_decide sample_graduate ramping = RampTo (millionths (min 1 (fl_add (graduate_rate ramping) (1 / 4))))"
    using ramping_rate
    by (simp add: evaluate_decide_def sample_graduate_def) (simp add: ramping_def fl_div_def fl_of_int_def)
  moreover from graduate_abort_race [OF this, of "''operator''" "()"] this
  have "gr_phase (fst (evaluate_apply sample_graduate (RampTo (millionths (min 1 (fl_add (graduate_rate ramping) (1 / 4)))))
      (Abort sample_graduate ''operator'' (ramping, ())))) = PhaseRamping" by metis
  ultimately show ?thesis by blast
qed

end
