(* ===== verification/Fingerprint.thy ===== *)
theory Fingerprint
  imports Watch Managers
begin

text \<open>
  The behaviour watcher (\<open>behavior_fingerprint.go\<close>) and its reports in a key-value bucket
  (\<open>behavior_fingerprint_kv.go\<close>). Every method holds the mutex from its first access on, so \<open>Observe\<close>
  and \<open>tick\<close> are steps; the clock is read under the mutex and is an argument of the step. Parameters:
  the conversion of a float out of the \<open>int64\<close> range, the JSON coding, the clock of a report, the
  callback and the metrics. Logging is left out.
\<close>

section \<open>Configuration and evaluation\<close>

record BehaviorSnapshot =
  bs_MsgPerMin :: rat
  bs_Processing :: duration

definition no_snapshot :: BehaviorSnapshot where
  "no_snapshot = \<lparr> bs_MsgPerMin = 0, bs_Processing = 0 \<rparr>"

record BehaviorAnomalyEvent =
  be_Stream :: string
  be_Durable :: string
  be_Normal :: BehaviorSnapshot
  be_Current :: BehaviorSnapshot
  be_SustainedFor :: duration

text \<open>\<open>KeyValueKeys\<close> is an interface; a report uses only its \<open>Put\<close>.\<close>

type_synonym 'w kv_put = "string \<Rightarrow> string \<Rightarrow> bytes \<Rightarrow> 'w \<Rightarrow> KVEntry result \<times> 'w"

record 'w BehaviorFingerprintConfig =
  fc_OnAnomaly :: "(BehaviorAnomalyEvent \<Rightarrow> 'w \<Rightarrow> 'w) option"
  fc_ReportKV :: "'w kv_put option"
  fc_ReportBucket :: string
  fc_PollInterval :: duration
  fc_Window :: duration
  fc_Warmup :: duration
  fc_MinSamples :: int
  fc_LatencyFactor :: rat
  fc_RateTolerance :: rat
  fc_SustainFor :: duration
  fc_CircuitStop :: bool

abbreviation defaultBehaviorPollInterval :: duration where "defaultBehaviorPollInterval \<equiv> 5 * Second"
abbreviation defaultBehaviorWindow :: duration where "defaultBehaviorWindow \<equiv> 60 * Second"
abbreviation defaultBehaviorWarmup :: duration where "defaultBehaviorWarmup \<equiv> 5 * (60 * Second)"
abbreviation defaultBehaviorMinSamples :: int where "defaultBehaviorMinSamples \<equiv> 50"
abbreviation defaultBehaviorLatencyFactor :: rat where "defaultBehaviorLatencyFactor \<equiv> 3"
abbreviation defaultBehaviorRateTolerance :: rat where "defaultBehaviorRateTolerance \<equiv> fl64 (3 / 10)"
abbreviation defaultBehaviorSustainFor :: duration where "defaultBehaviorSustainFor \<equiv> 30 * Second"
abbreviation behaviorEventBuffer :: nat where "behaviorEventBuffer \<equiv> 16"
abbreviation behaviorLearnAlpha :: rat where "behaviorLearnAlpha \<equiv> fl64 (5 / 100)"
abbreviation behaviorHealthyAlpha :: rat where "behaviorHealthyAlpha \<equiv> fl64 (2 / 100)"

definition BehaviorFingerprintConfig_withDefaults ::
  "'w BehaviorFingerprintConfig \<Rightarrow> 'w BehaviorFingerprintConfig" where
  "BehaviorFingerprintConfig_withDefaults c =
     c\<lparr> fc_PollInterval := (if fc_PollInterval c \<le> 0 then defaultBehaviorPollInterval else fc_PollInterval c),
        fc_Window := (if fc_Window c \<le> 0 then defaultBehaviorWindow else fc_Window c),
        fc_Warmup := (if fc_Warmup c \<le> 0 then defaultBehaviorWarmup else fc_Warmup c),
        fc_MinSamples := (if fc_MinSamples c \<le> 0 then defaultBehaviorMinSamples else fc_MinSamples c),
        fc_LatencyFactor := (if fc_LatencyFactor c \<le> 0 then defaultBehaviorLatencyFactor else fc_LatencyFactor c),
        fc_RateTolerance := (if fc_RateTolerance c \<le> 0 then defaultBehaviorRateTolerance else fc_RateTolerance c),
        fc_SustainFor := (if fc_SustainFor c \<le> 0 then defaultBehaviorSustainFor else fc_SustainFor c) \<rparr>"

text \<open>What a report holds.\<close>

record BehaviorFingerprintKVSnapshot =
  ks_MsgPerMin :: rat
  ks_ProcessingMs :: rat

record BehaviorFingerprintKVPayload =
  kp_UpdatedAt :: gotime
  kp_Stream :: string
  kp_Durable :: string
  kp_Normal :: BehaviorFingerprintKVSnapshot
  kp_Current :: BehaviorFingerprintKVSnapshot
  kp_SustainedForMs :: int
  kp_Anomaly :: bool

record 'w fp_env =
  fe_float_to_i64 :: "rat \<Rightarrow> int"
  fe_Marshal :: "BehaviorFingerprintKVPayload \<Rightarrow> bytes result"
  fe_now :: "'w \<Rightarrow> gotime \<times> 'w"
  fe_anomaly_metric :: "'w \<Rightarrow> 'w"

text \<open>A rate is near the baseline when it is within the tolerance; \<open>lo\<close> and \<open>hi\<close> are computed in floats.\<close>

definition rate_in_band :: "rat \<Rightarrow> rat \<Rightarrow> rat \<Rightarrow> bool" where
  "rate_in_band tolerance normal current \<longleftrightarrow>
     fl_mul normal (fl_sub 1 tolerance) \<le> current \<and> current \<le> fl_mul normal (fl_add 1 tolerance)"

definition EvaluateBehaviorFingerprint ::
  "'w fp_env \<Rightarrow> BehaviorSnapshot \<Rightarrow> BehaviorSnapshot \<Rightarrow> 'w BehaviorFingerprintConfig \<Rightarrow> bool" where
  "EvaluateBehaviorFingerprint env current normal c =
     (let cfg = BehaviorFingerprintConfig_withDefaults c in
      if bs_MsgPerMin normal \<le> 0 \<or> bs_Processing normal \<le> 0 then False
      else if bs_MsgPerMin current \<le> 0 \<or> bs_Processing current \<le> 0 then False
      else if \<not> rate_in_band (fc_RateTolerance cfg) (bs_MsgPerMin normal) (bs_MsgPerMin current) then False
      else float_to_i64 (fe_float_to_i64 env) (fl_mul (fl_of_int (bs_Processing normal)) (fc_LatencyFactor cfg))
             \<le> bs_Processing current)"

definition nearBehaviorBaseline ::
  "'w fp_env \<Rightarrow> BehaviorSnapshot \<Rightarrow> BehaviorSnapshot \<Rightarrow> 'w BehaviorFingerprintConfig \<Rightarrow> bool" where
  "nearBehaviorBaseline env current normal cfg =
     (if bs_MsgPerMin normal \<le> 0 \<or> bs_Processing normal \<le> 0 then False
      else if bs_MsgPerMin current \<le> 0 \<or> bs_Processing current \<le> 0 then False
      else if bs_Processing current
             > float_to_i64 (fe_float_to_i64 env) (fl_mul (fl_of_int (bs_Processing normal)) (5 / 4)) then False
      else rate_in_band (fc_RateTolerance cfg) (bs_MsgPerMin normal) (bs_MsgPerMin current))"

definition ewmaFloat :: "rat \<Rightarrow> rat \<Rightarrow> rat \<Rightarrow> rat" where
  "ewmaFloat prev sample alpha =
     (if prev = 0 then sample else fl_add (fl_mul alpha sample) (fl_mul (fl_sub 1 alpha) prev))"

section \<open>The watcher\<close>

record behaviorSample =
  sa_at :: gotime
  sa_d :: duration

text \<open>\<open>bf_stopped\<close>: \<open>stopCh\<close> is closed. The configuration is completed and never changes.\<close>

record BehaviorFingerprint =
  bf_startedAt :: gotime
  bf_breachStart :: gotime
  bf_lastReportAt :: gotime
  bf_events :: "BehaviorAnomalyEvent list"
  bf_stopped :: bool
  bf_stream :: string
  bf_durable :: string
  bf_samples :: "behaviorSample list"
  bf_lastCurrent :: BehaviorSnapshot
  bf_baselineRate :: rat
  bf_totalObserved :: int
  bf_baselineLatency :: duration
  bf_anomalous :: bool
  bf_haveBaseline :: bool
  bf_haveBreach :: bool

text \<open>
  \<open>sub\<close>: the subscription, as the answer of its \<open>ConsumerInfo\<close>, the stream and the name of a non-nil
  information. The loop \<open>loop\<close> runs \<open>tick\<close> until the context or \<open>Stop\<close> ends it.
\<close>

definition WatchBehaviorFingerprint ::
  "(string \<times> string) option option \<Rightarrow> gotime \<Rightarrow> BehaviorFingerprint result" where
  "WatchBehaviorFingerprint sub now =
     (case sub of
        None \<Rightarrow> Inl (EMsg ''behavior fingerprint: subscription is nil'')
      | Some info \<Rightarrow>
          let (stream, durable) = (case info of None \<Rightarrow> ([], []) | Some sd \<Rightarrow> sd) in
          Inr \<lparr> bf_startedAt = now, bf_breachStart = zero_time, bf_lastReportAt = zero_time, bf_events = [],
                bf_stopped = False, bf_stream = stream, bf_durable = durable, bf_samples = [],
                bf_lastCurrent = no_snapshot, bf_baselineRate = 0, bf_totalObserved = 0, bf_baselineLatency = 0,
                bf_anomalous = False, bf_haveBaseline = False, bf_haveBreach = False \<rparr>)"

definition trimLocked ::
  "'w BehaviorFingerprintConfig \<Rightarrow> gotime \<Rightarrow> BehaviorFingerprint \<Rightarrow> BehaviorFingerprint" where
  "trimLocked cfg now b =
     b\<lparr> bf_samples := dropWhile (\<lambda>s. sa_at s < now - fc_Window cfg) (bf_samples b) \<rparr>"

definition fingerprint_Observe ::
  "'w BehaviorFingerprintConfig \<Rightarrow> gotime \<Rightarrow> duration \<Rightarrow> BehaviorFingerprint \<Rightarrow> BehaviorFingerprint" where
  "fingerprint_Observe cfg now elapsed b =
     (if elapsed < 0 then b
      else trimLocked cfg now
             (b\<lparr> bf_samples := bf_samples b @ [\<lparr> sa_at = now, sa_d = elapsed \<rparr>],
                bf_totalObserved := i64 (bf_totalObserved b + 1) \<rparr>))"

text \<open>\<open>Minutes\<close> of \<open>time.Duration\<close>: whole minutes and the rest are converted apart.\<close>

definition Minutes :: "duration \<Rightarrow> rat" where
  "Minutes d = fl_add (fl_of_int (go_div d (60 * Second)))
     (fl_div (fl_of_int (d - go_div d (60 * Second) * (60 * Second))) 60000000000)"

definition windowStatsLocked :: "'w BehaviorFingerprintConfig \<Rightarrow> BehaviorFingerprint \<Rightarrow> BehaviorSnapshot" where
  "windowStatsLocked cfg b =
     (let n = length (bf_samples b) in
      if n = 0 then no_snapshot
      else
        (let sum = fold (\<lambda>s acc. i64 (acc + sa_d s)) (bf_samples b) 0;
             window = (if fc_Window cfg \<le> 0 then defaultBehaviorWindow else fc_Window cfg) in
         \<lparr> bs_MsgPerMin = fl_div (fl_of_int (int n)) (Minutes window), bs_Processing = go_div sum (int n) \<rparr>))"

definition updateBaselineLocked ::
  "'w fp_env \<Rightarrow> BehaviorSnapshot \<Rightarrow> rat \<Rightarrow> BehaviorFingerprint \<Rightarrow> BehaviorFingerprint" where
  "updateBaselineLocked env current alpha b =
     (if \<not> bf_haveBaseline b
      then b\<lparr> bf_baselineRate := bs_MsgPerMin current, bf_baselineLatency := bs_Processing current,
             bf_haveBaseline := True \<rparr>
      else b\<lparr> bf_baselineRate := ewmaFloat (bf_baselineRate b) (bs_MsgPerMin current) alpha,
             bf_baselineLatency := float_to_i64 (fe_float_to_i64 env)
               (ewmaFloat (fl_of_int (bf_baselineLatency b)) (fl_of_int (bs_Processing current)) alpha) \<rparr>)"

definition shouldReportLocked :: "'w BehaviorFingerprintConfig \<Rightarrow> gotime \<Rightarrow> BehaviorFingerprint \<Rightarrow> bool" where
  "shouldReportLocked cfg now b =
     (if fc_ReportKV cfg = None then False
      else if bf_lastReportAt b = zero_time then True
      else fc_Window cfg \<le> now - bf_lastReportAt b)"

definition Snapshot_of :: "BehaviorFingerprint \<Rightarrow> BehaviorSnapshot \<times> BehaviorSnapshot \<times> bool" where
  "Snapshot_of b = (\<lparr> bs_MsgPerMin = bf_baselineRate b, bs_Processing = bf_baselineLatency b \<rparr>,
     bf_lastCurrent b, bf_haveBaseline b)"

definition fingerprint_Stop :: "BehaviorFingerprint \<Rightarrow> BehaviorFingerprint" where
  "fingerprint_Stop b = b\<lparr> bf_stopped := True \<rparr>"

section \<open>Reports\<close>

abbreviation DefaultBehaviorFingerprintKVBucket :: string where
  "DefaultBehaviorFingerprintKVBucket \<equiv> ''nats_consol_fingerprints''"

definition BehaviorFingerprintKVKey :: "string \<Rightarrow> string \<Rightarrow> string" where
  "BehaviorFingerprintKVKey stream durable = trim_space stream @ ''/'' @ trim_space durable"

definition SnapshotToKV :: "BehaviorSnapshot \<Rightarrow> BehaviorFingerprintKVSnapshot" where
  "SnapshotToKV s = \<lparr> ks_MsgPerMin = bs_MsgPerMin s,
     ks_ProcessingMs = fl_div (fl_of_int (bs_Processing s)) (fl_of_int Millisecond) \<rparr>"

definition MarshalBehaviorFingerprintKV ::
  "'w fp_env \<Rightarrow> string \<Rightarrow> string \<Rightarrow> bool \<Rightarrow> BehaviorSnapshot \<Rightarrow> BehaviorSnapshot \<Rightarrow> duration \<Rightarrow> gotime \<Rightarrow> 'w
     \<Rightarrow> bytes result \<times> 'w" where
  "MarshalBehaviorFingerprintKV env stream durable anomaly normal current sustained time w =
     (case (if time = zero_time then fe_now env w else (time, w)) of (time, w1) \<Rightarrow>
        (fe_Marshal env
           \<lparr> kp_UpdatedAt = time, kp_Stream = trim_space stream, kp_Durable = trim_space durable,
             kp_Normal = SnapshotToKV normal, kp_Current = SnapshotToKV current,
             kp_SustainedForMs = go_div sustained Millisecond, kp_Anomaly = anomaly \<rparr>, w1))"

definition ReportBehaviorFingerprintKV ::
  "'w fp_env \<Rightarrow> 'w kv_put option \<Rightarrow> string \<Rightarrow> string \<Rightarrow> string \<Rightarrow> bool \<Rightarrow> BehaviorSnapshot \<Rightarrow> BehaviorSnapshot
     \<Rightarrow> duration \<Rightarrow> 'w \<Rightarrow> err option \<times> 'w" where
  "ReportBehaviorFingerprintKV env keys bucket stream durable anomaly normal current sustained w =
     (case keys of
        None \<Rightarrow> (Some (EMsg ''behavior fingerprint report: kv keys is nil''), w)
      | Some put \<Rightarrow>
          let bucket1 = (if IsEmpty (trim_space bucket) then DefaultBehaviorFingerprintKVBucket else trim_space bucket) in
          (case fe_now env w of (t, w1) \<Rightarrow>
           case MarshalBehaviorFingerprintKV env stream durable anomaly normal current sustained t w1 of
             (Inl e, w2) \<Rightarrow> (Some e, w2)
           | (Inr raw, w2) \<Rightarrow>
               (case put bucket1 (BehaviorFingerprintKVKey stream durable) raw w2 of
                  (Inl e, w3) \<Rightarrow> (Some e, w3)
                | (Inr _, w3) \<Rightarrow> (None, w3))))"

text \<open>A failed report is only logged.\<close>

definition reportKV ::
  "'w fp_env \<Rightarrow> 'w BehaviorFingerprintConfig \<Rightarrow> bool \<Rightarrow> string \<Rightarrow> string \<Rightarrow> BehaviorSnapshot \<Rightarrow> BehaviorSnapshot
     \<Rightarrow> duration \<Rightarrow> 'w \<Rightarrow> 'w" where
  "reportKV env cfg anomaly stream durable normal current sustained w =
     (if fc_ReportKV cfg = None \<or> IsEmpty stream \<or> IsEmpty durable then w
      else snd (ReportBehaviorFingerprintKV env (fc_ReportKV cfg) (fc_ReportBucket cfg) stream durable anomaly normal
                  current sustained w))"

definition fingerprint_emit ::
  "'w BehaviorFingerprintConfig \<Rightarrow> BehaviorAnomalyEvent \<Rightarrow> BehaviorFingerprint \<times> 'w \<Rightarrow> BehaviorFingerprint \<times> 'w" where
  "fingerprint_emit cfg ev = (\<lambda>(b, w).
     (b\<lparr> bf_events := trySend behaviorEventBuffer ev (bf_events b) \<rparr>,
      case fc_OnAnomaly cfg of None \<Rightarrow> w | Some f \<Rightarrow> f ev w))"

section \<open>A tick\<close>

text \<open>
  The part of a tick under the mutex: what it decides, and the state it leaves. The rest acts on the
  decision.
\<close>

datatype fp_decision = Quiet | ReportHealthy BehaviorSnapshot BehaviorSnapshot | Fire BehaviorAnomalyEvent

definition is_learning :: "'w BehaviorFingerprintConfig \<Rightarrow> gotime \<Rightarrow> BehaviorFingerprint \<Rightarrow> bool" where
  "is_learning cfg now b \<longleftrightarrow> now - bf_startedAt b < fc_Warmup cfg \<or> bf_totalObserved b < fc_MinSamples cfg
     \<or> now - bf_startedAt b < fc_Window cfg"

definition tick_locked ::
  "'w fp_env \<Rightarrow> 'w BehaviorFingerprintConfig \<Rightarrow> gotime \<Rightarrow> BehaviorFingerprint \<Rightarrow> fp_decision \<times> BehaviorFingerprint" where
  "tick_locked env cfg now b0 =
     (let b1 = trimLocked cfg now b0;
          current = windowStatsLocked cfg b1;
          b = b1\<lparr> bf_lastCurrent := current \<rparr>;
          learning = is_learning cfg now b;
          normal = \<lparr> bs_MsgPerMin = bf_baselineRate b, bs_Processing = bf_baselineLatency b \<rparr>;
          ready = bf_haveBaseline b;
          live = (bs_MsgPerMin current > 0 \<and> bs_Processing current > 0);
          anomalyNow = (ready \<and> \<not> learning \<and> live \<and> EvaluateBehaviorFingerprint env current normal cfg) in
      if learning \<or> \<not> ready then
        (Quiet, (if live then updateBaselineLocked env current behaviorLearnAlpha b else b)
                  \<lparr> bf_haveBreach := False, bf_breachStart := zero_time \<rparr>)
      else if \<not> anomalyNow then
        (let b2 = (if nearBehaviorBaseline env current normal cfg
                   then updateBaselineLocked env current behaviorHealthyAlpha b else b)
                    \<lparr> bf_haveBreach := False, bf_breachStart := zero_time \<rparr> in
         if shouldReportLocked cfg now b2
         then (ReportHealthy normal current, b2\<lparr> bf_lastReportAt := now \<rparr>)
         else (Quiet, b2))
      else
        (let b2 = (if bf_haveBreach b then b else b\<lparr> bf_breachStart := now, bf_haveBreach := True \<rparr>);
             sustained = now - bf_breachStart b2 in
         if sustained < fc_SustainFor cfg then (Quiet, b2)
         else if bf_anomalous b2 \<and> \<not> fc_CircuitStop cfg then (Quiet, b2)
         else
           (Fire \<lparr> be_Stream = bf_stream b2, be_Durable = bf_durable b2, be_Normal = normal, be_Current = current,
                   be_SustainedFor = sustained \<rparr>,
            b2\<lparr> bf_anomalous := True, bf_haveBreach := False, bf_breachStart := zero_time, bf_lastReportAt := now \<rparr>)))"

definition fingerprint_tick ::
  "'w fp_env \<Rightarrow> 'w BehaviorFingerprintConfig \<Rightarrow> gotime \<Rightarrow> BehaviorFingerprint \<times> 'w \<Rightarrow> BehaviorFingerprint \<times> 'w" where
  "fingerprint_tick env cfg now = (\<lambda>(b, w).
     case tick_locked env cfg now b of
       (Quiet, b1) \<Rightarrow> (b1, w)
     | (ReportHealthy normal current, b1) \<Rightarrow>
         (b1, reportKV env cfg False (bf_stream b1) (bf_durable b1) normal current 0 w)
     | (Fire ev, b1) \<Rightarrow>
         (case fingerprint_emit cfg ev (b1, w) of (b2, w1) \<Rightarrow>
            let w2 = reportKV env cfg True (be_Stream ev) (be_Durable ev) (be_Normal ev) (be_Current ev)
                       (be_SustainedFor ev) w1;
                w3 = fe_anomaly_metric env w2 in
            (if fc_CircuitStop cfg then fingerprint_Stop b2 else b2, w3)))"

section \<open>What an event says\<close>

text \<open>A history is the sequence of observations and ticks, with the time each took the mutex.\<close>

datatype fp_act = AObs gotime duration | ATick gotime

fun act_time :: "fp_act \<Rightarrow> gotime" where
  "act_time (AObs t d) = t"
| "act_time (ATick t) = t"

fun fp_step ::
  "'w fp_env \<Rightarrow> 'w BehaviorFingerprintConfig \<Rightarrow> fp_act \<Rightarrow> BehaviorFingerprint \<times> 'w \<Rightarrow> BehaviorFingerprint \<times> 'w" where
  "fp_step env cfg (AObs t d) (b, w) = (fingerprint_Observe cfg t d b, w)"
| "fp_step env cfg (ATick t) bw = fingerprint_tick env cfg t bw"

definition fp_run ::
  "'w fp_env \<Rightarrow> 'w BehaviorFingerprintConfig \<Rightarrow> fp_act list \<Rightarrow> BehaviorFingerprint \<times> 'w \<Rightarrow> BehaviorFingerprint \<times> 'w" where
  "fp_run env cfg = fold (fp_step env cfg)"

lemma fp_run_snoc: "fp_run env cfg (acts @ [a]) bw = fp_step env cfg a (fp_run env cfg acts bw)"
  by (simp add: fp_run_def)

text \<open>The durations observed so far, and whether a tick finds an anomaly.\<close>

fun observations :: "fp_act list \<Rightarrow> behaviorSample list" where
  "observations [] = []"
| "observations (AObs t d # acts) = (if d < 0 then [] else [\<lparr> sa_at = t, sa_d = d \<rparr>]) @ observations acts"
| "observations (ATick t # acts) = observations acts"

lemma observations_append [simp]: "observations (xs @ ys) = observations xs @ observations ys"
  by (induction xs rule: observations.induct) simp_all

definition anomalous_at :: "'w fp_env \<Rightarrow> 'w BehaviorFingerprintConfig \<Rightarrow> BehaviorFingerprint \<Rightarrow> gotime \<Rightarrow> bool" where
  "anomalous_at env cfg b now \<longleftrightarrow> bf_haveBaseline b \<and> \<not> is_learning cfg now b
     \<and> EvaluateBehaviorFingerprint env (windowStatsLocked cfg (trimLocked cfg now b)) (fst (Snapshot_of b)) cfg"

text \<open>What a tick does to the fields that later ticks read.\<close>

lemma evaluate_live:
  "EvaluateBehaviorFingerprint env current normal cfg \<Longrightarrow> bs_MsgPerMin current > 0 \<and> bs_Processing current > 0"
  by (auto simp: EvaluateBehaviorFingerprint_def Let_def split: if_splits)

lemma updateBaseline_frame [simp]:
  "bf_startedAt (updateBaselineLocked env c a b) = bf_startedAt b"
  "bf_samples (updateBaselineLocked env c a b) = bf_samples b"
  "bf_totalObserved (updateBaselineLocked env c a b) = bf_totalObserved b"
  "bf_anomalous (updateBaselineLocked env c a b) = bf_anomalous b"
  by (simp_all add: updateBaselineLocked_def)

lemma is_learning_cong:
  "bf_startedAt b = bf_startedAt b' \<Longrightarrow> bf_totalObserved b = bf_totalObserved b' \<Longrightarrow> is_learning cfg now b = is_learning cfg now b'"
  by (simp add: is_learning_def)

lemma trim_frame [simp]:
  "bf_startedAt (trimLocked cfg now b) = bf_startedAt b" "bf_totalObserved (trimLocked cfg now b) = bf_totalObserved b"
  "bf_anomalous (trimLocked cfg now b) = bf_anomalous b" "bf_haveBaseline (trimLocked cfg now b) = bf_haveBaseline b"
  "bf_haveBreach (trimLocked cfg now b) = bf_haveBreach b" "bf_breachStart (trimLocked cfg now b) = bf_breachStart b"
  "bf_baselineRate (trimLocked cfg now b) = bf_baselineRate b"
  "bf_baselineLatency (trimLocked cfg now b) = bf_baselineLatency b"
  "bf_samples (trimLocked cfg now b) = dropWhile (\<lambda>s. sa_at s < now - fc_Window cfg) (bf_samples b)"
  by (simp_all add: trimLocked_def)

definition locked_frame :: "'w BehaviorFingerprintConfig \<Rightarrow> gotime \<Rightarrow> BehaviorFingerprint \<Rightarrow> BehaviorFingerprint \<Rightarrow> bool" where
  "locked_frame cfg now b b' \<longleftrightarrow> bf_startedAt b' = bf_startedAt b \<and> bf_totalObserved b' = bf_totalObserved b
     \<and> bf_samples b' = bf_samples (trimLocked cfg now b) \<and> (bf_anomalous b \<longrightarrow> bf_anomalous b')"

lemma tick_locked_cases:
  assumes "tick_locked env cfg now b = (d, b')"
  obtains (calm) "\<not> anomalous_at env cfg b now" "\<nexists>ev. d = Fire ev" "\<not> bf_haveBreach b'" "locked_frame cfg now b b'"
  | (breach) "anomalous_at env cfg b now" "\<nexists>ev. d = Fire ev" "bf_haveBreach b'" "locked_frame cfg now b b'"
      "bf_breachStart b' = (if bf_haveBreach b then bf_breachStart b else now)"
  | (fires) ev where "anomalous_at env cfg b now" "d = Fire ev" "\<not> bf_haveBreach b'" "locked_frame cfg now b b'"
      "bf_anomalous b'" "bf_anomalous b \<longrightarrow> fc_CircuitStop cfg"
      "be_SustainedFor ev = now - (if bf_haveBreach b then bf_breachStart b else now)"
      "fc_SustainFor cfg \<le> be_SustainedFor ev" "be_Normal ev = fst (Snapshot_of b)"
      "be_Current ev = windowStatsLocked cfg (trimLocked cfg now b)"
proof -
  define b1 where "b1 = (trimLocked cfg now b)\<lparr> bf_lastCurrent := windowStatsLocked cfg (trimLocked cfg now b) \<rparr>"
  let ?current = "windowStatsLocked cfg (trimLocked cfg now b)" and ?normal = "fst (Snapshot_of b)"
  have learn: "is_learning cfg now b1 = is_learning cfg now b" by (rule is_learning_cong) (simp_all add: b1_def)
  show thesis
  proof (cases "anomalous_at env cfg b now")
    case True
    then have live: "bs_MsgPerMin ?current > 0 \<and> bs_Processing ?current > 0"
      using evaluate_live by (auto simp: anomalous_at_def)
    define b2 where "b2 = (if bf_haveBreach b1 then b1 else b1\<lparr> bf_breachStart := now, bf_haveBreach := True \<rparr>)"
    have t: "tick_locked env cfg now b =
        (if now - bf_breachStart b2 < fc_SustainFor cfg then (Quiet, b2)
         else if bf_anomalous b2 \<and> \<not> fc_CircuitStop cfg then (Quiet, b2)
         else (Fire \<lparr> be_Stream = bf_stream b2, be_Durable = bf_durable b2, be_Normal = ?normal, be_Current = ?current,
                   be_SustainedFor = now - bf_breachStart b2 \<rparr>,
               b2\<lparr> bf_anomalous := True, bf_haveBreach := False, bf_breachStart := zero_time, bf_lastReportAt := now \<rparr>))"
      using True live learn
      by (simp add: tick_locked_def anomalous_at_def Snapshot_of_def b1_def b2_def Let_def)
    have b2: "bf_haveBreach b2" "locked_frame cfg now b b2" "bf_anomalous b2 = bf_anomalous b"
        "bf_breachStart b2 = (if bf_haveBreach b then bf_breachStart b else now)"
      by (simp_all add: b2_def b1_def locked_frame_def)
    show thesis
    proof (cases "now - bf_breachStart b2 < fc_SustainFor cfg \<or> bf_anomalous b2 \<and> \<not> fc_CircuitStop cfg")
      case quiet: True
      then have "d = Quiet" "b' = b2" using t assms by (auto split: if_splits)
      then show thesis using breach True b2 by simp
    next
      case fire: False
      then show thesis using t assms b2 by (intro fires [OF True]) (auto simp: locked_frame_def)
    qed
  next
    case False
    show thesis
      using assms False learn
      by (intro calm) (auto simp: tick_locked_def anomalous_at_def Snapshot_of_def b1_def Let_def locked_frame_def
          split: if_splits)
  qed
qed

lemma fp_tick_state:
  "tick_locked env cfg now b = (d, b') \<Longrightarrow> \<exists>es st. fst (fingerprint_tick env cfg now (b, w)) = b'\<lparr> bf_events := es, bf_stopped := st \<rparr>"
  by (cases b') (auto simp: fingerprint_tick_def fingerprint_emit_def fingerprint_Stop_def Let_def split: fp_decision.splits)

text \<open>The samples kept are those of the window, since observations come in the order of the clock.\<close>

lemma dropWhile_sorted:
  "sorted (map f xs) \<Longrightarrow> dropWhile (\<lambda>x. f x < c) xs = filter (\<lambda>x. c \<le> f x) xs" for c :: "'a :: linorder"
proof (induction xs)
  case (Cons x xs)
  show ?case
  proof (cases "f x < c")
    case False
    then have "\<forall>y\<in>set (x # xs). c \<le> f y" using Cons.prems by (auto intro: order_trans)
    then have "filter (\<lambda>x. c \<le> f x) (x # xs) = x # xs" by (simp only: filter_id_conv)
    with False show ?thesis by simp
  qed (use Cons in simp)
qed simp

definition window_inv :: "'w BehaviorFingerprintConfig \<Rightarrow> behaviorSample list \<Rightarrow> gotime \<Rightarrow> BehaviorFingerprint \<Rightarrow> bool" where
  "window_inv cfg obs t b \<longleftrightarrow> sorted (map sa_at obs) \<and> (\<forall>s\<in>set obs. sa_at s \<le> t)
     \<and> (\<exists>ys. obs = ys @ bf_samples b \<and> (\<forall>y\<in>set ys. sa_at y < t - fc_Window cfg))"

lemma window_inv_samples:
  assumes "window_inv cfg obs t b" "t \<le> now"
  shows "bf_samples (trimLocked cfg now b) = filter (\<lambda>s. now - fc_Window cfg \<le> sa_at s) obs"
proof -
  obtain ys where y: "obs = ys @ bf_samples b" "\<forall>y\<in>set ys. sa_at y < t - fc_Window cfg" "sorted (map sa_at obs)"
    using assms(1) by (auto simp: window_inv_def)
  then have "filter (\<lambda>s. now - fc_Window cfg \<le> sa_at s) ys = []" using assms(2) by (auto simp: filter_empty_conv)
  moreover have "sorted (map sa_at (bf_samples b))" using y by (simp add: sorted_append)
  ultimately show ?thesis using y(1) dropWhile_sorted [of sa_at "bf_samples b"] by simp
qed

lemma window_inv_trim:
  assumes "window_inv cfg obs t b" "t \<le> now" "bf_samples b' = bf_samples (trimLocked cfg now b)"
  shows "window_inv cfg obs now b'"
proof -
  obtain ys where y: "obs = ys @ bf_samples b" "\<forall>y\<in>set ys. sa_at y < t - fc_Window cfg" "sorted (map sa_at obs)"
      "\<forall>s\<in>set obs. sa_at s \<le> t"
    using assms(1) by (auto simp: window_inv_def)
  let ?old = "\<lambda>s. sa_at s < now - fc_Window cfg"
  have "obs = (ys @ takeWhile ?old (bf_samples b)) @ bf_samples b'" using y(1) assms(3) by simp
  moreover have "\<forall>y\<in>set (ys @ takeWhile ?old (bf_samples b)). ?old y"
    using y(2) assms(2) by (force dest: set_takeWhileD)
  ultimately have "\<exists>zs. obs = zs @ bf_samples b' \<and> (\<forall>z\<in>set zs. ?old z)" by blast
  moreover have "\<forall>s\<in>set obs. sa_at s \<le> now" using y(4) assms(2) by force
  ultimately show ?thesis using y(3) unfolding window_inv_def by blast
qed

lemma window_inv_later: "window_inv cfg obs t b \<Longrightarrow> t \<le> now \<Longrightarrow> window_inv cfg obs now b"
  unfolding window_inv_def by fastforce

lemma window_inv_observe:
  assumes "window_inv cfg obs t b" "t \<le> now"
  shows "window_inv cfg (obs @ observations [AObs now d]) now (fingerprint_Observe cfg now d b)"
proof (cases "d < 0")
  case True
  then show ?thesis using window_inv_later [OF assms] by (simp add: fingerprint_Observe_def)
next
  case False
  define b1 where "b1 = b\<lparr> bf_samples := bf_samples b @ [\<lparr> sa_at = now, sa_d = d \<rparr>], bf_totalObserved := i64 (bf_totalObserved b + 1) \<rparr>"
  have "window_inv cfg (obs @ [\<lparr> sa_at = now, sa_d = d \<rparr>]) now b1"
    using window_inv_later [OF assms] by (auto simp: window_inv_def b1_def sorted_append)
  from window_inv_trim [OF this order_refl, of "fingerprint_Observe cfg now d b"] False
  show ?thesis by (simp add: fingerprint_Observe_def b1_def)
qed

lemma i64_Suc: "i64 (i64 x + 1) = i64 (x + 1)"
  by (simp add: i64_def mod_simps algebra_simps)

text \<open>All ticks of the history from the one at time \<open>t\<close> on found an anomaly.\<close>

definition anomaly_since ::
  "'w fp_env \<Rightarrow> 'w BehaviorFingerprintConfig \<Rightarrow> BehaviorFingerprint \<times> 'w \<Rightarrow> fp_act list \<Rightarrow> gotime \<Rightarrow> bool" where
  "anomaly_since env cfg bw acts t \<longleftrightarrow> (\<exists>k < length acts. acts ! k = ATick t
     \<and> (\<forall>i s. k \<le> i \<and> i < length acts \<and> acts ! i = ATick s \<longrightarrow> anomalous_at env cfg (fst (fp_run env cfg (take i acts) bw)) s))"

lemma anomaly_since_start:
  "anomalous_at env cfg (fst (fp_run env cfg acts bw)) t \<Longrightarrow> anomaly_since env cfg bw (acts @ [ATick t]) t"
  unfolding anomaly_since_def by (rule exI [of _ "length acts"]) (auto simp: nth_append less_Suc_eq)

lemma anomaly_since_snoc:
  assumes "anomaly_since env cfg bw acts t"
    and "\<And>s. a = ATick s \<Longrightarrow> anomalous_at env cfg (fst (fp_run env cfg acts bw)) s"
  shows "anomaly_since env cfg bw (acts @ [a]) t"
proof -
  obtain k where k: "k < length acts" "acts ! k = ATick t" and
      all: "\<And>i s. k \<le> i \<and> i < length acts \<and> acts ! i = ATick s \<Longrightarrow> anomalous_at env cfg (fst (fp_run env cfg (take i acts) bw)) s"
    using assms(1) unfolding anomaly_since_def by blast
  show ?thesis
    unfolding anomaly_since_def using k all assms(2)
    by (intro exI [of _ k]) (auto simp: nth_append less_Suc_eq)
qed

definition fp_inv ::
  "'w fp_env \<Rightarrow> 'w BehaviorFingerprintConfig \<Rightarrow> BehaviorFingerprint \<times> 'w \<Rightarrow> fp_act list \<Rightarrow> gotime \<Rightarrow> BehaviorFingerprint \<Rightarrow> bool" where
  "fp_inv env cfg bw acts t b \<longleftrightarrow> window_inv cfg (observations acts) t b
     \<and> bf_startedAt b = bf_startedAt (fst bw) \<and> bf_totalObserved b = i64 (int (length (observations acts)))
     \<and> (bf_haveBreach b \<longrightarrow> anomaly_since env cfg bw acts (bf_breachStart b))"

lemma fp_inv_tick:
  assumes inv: "fp_inv env cfg bw acts t (fst (fp_run env cfg acts bw))" and t: "t \<le> now"
  shows "fp_inv env cfg bw (acts @ [ATick now]) now (fst (fp_run env cfg (acts @ [ATick now]) bw))"
proof -
  obtain b w where bw: "fp_run env cfg acts bw = (b, w)" by (cases "fp_run env cfg acts bw")
  obtain d b' where d: "tick_locked env cfg now b = (d, b')" by (cases "tick_locked env cfg now b")
  obtain es st where b': "fst (fp_run env cfg (acts @ [ATick now]) bw) = b'\<lparr> bf_events := es, bf_stopped := st \<rparr>"
    using fp_tick_state [OF d, of w] bw by (auto simp: fp_run_snoc)
  have frame: "locked_frame cfg now b b'" using d by (cases rule: tick_locked_cases)
  have breach: "anomaly_since env cfg bw (acts @ [ATick now]) (bf_breachStart b')" if "bf_haveBreach b'"
    using d
  proof (cases rule: tick_locked_cases)
    case breach
    have a: "anomalous_at env cfg (fst (fp_run env cfg acts bw)) now" using breach(1) bw by simp
    then show ?thesis
      using breach(5) inv bw anomaly_since_start [OF a] anomaly_since_snoc [of env cfg bw acts "bf_breachStart b" "ATick now"]
      by (auto simp: fp_inv_def)
  qed (use that in simp_all)
  have "window_inv cfg (observations acts) now b'"
    using window_inv_trim [of cfg "observations acts" t b now b'] inv bw t frame by (simp add: fp_inv_def locked_frame_def)
  then show ?thesis
    using frame inv breach bw b' by (simp add: fp_inv_def locked_frame_def window_inv_def)
qed

lemma fp_inv_observe:
  assumes inv: "fp_inv env cfg bw acts t (fst (fp_run env cfg acts bw))" and t: "t \<le> now"
  shows "fp_inv env cfg bw (acts @ [AObs now d]) now (fst (fp_run env cfg (acts @ [AObs now d]) bw))"
proof -
  obtain b w where bw: "fp_run env cfg acts bw = (b, w)" by (cases "fp_run env cfg acts bw")
  have run: "fst (fp_run env cfg (acts @ [AObs now d]) bw) = fingerprint_Observe cfg now d b" using bw by (simp add: fp_run_snoc)
  have frame: "bf_startedAt (fingerprint_Observe cfg now d b) = bf_startedAt b" "bf_haveBreach (fingerprint_Observe cfg now d b) = bf_haveBreach b"
      "bf_breachStart (fingerprint_Observe cfg now d b) = bf_breachStart b"
      "bf_totalObserved (fingerprint_Observe cfg now d b) = (if d < 0 then bf_totalObserved b else i64 (bf_totalObserved b + 1))"
    by (simp_all add: fingerprint_Observe_def)
  have w: "window_inv cfg (observations (acts @ [AObs now d])) now (fingerprint_Observe cfg now d b)"
    using window_inv_observe [of cfg "observations acts" t b now d] inv bw t by (simp add: fp_inv_def)
  have "anomaly_since env cfg bw (acts @ [AObs now d]) (bf_breachStart b)" if "bf_haveBreach b"
    using inv bw that anomaly_since_snoc [of env cfg bw acts "bf_breachStart b" "AObs now d"] by (simp add: fp_inv_def)
  moreover have "bf_totalObserved (fingerprint_Observe cfg now d b) = i64 (int (length (observations (acts @ [AObs now d]))))"
    using inv bw frame(4) by (simp add: fp_inv_def i64_Suc add.commute [of 1])
  ultimately show ?thesis using inv bw run frame w by (simp add: fp_inv_def)
qed

lemma fp_run_inv:
  assumes "WatchBehaviorFingerprint sub t0 = Inr b0" "sorted (t0 # map act_time acts)"
  shows "fp_inv env cfg (b0, w0) acts (last (t0 # map act_time acts)) (fst (fp_run env cfg acts (b0, w0)))"
  using assms(2)
proof (induction acts rule: rev_induct)
  case Nil
  have "b0 = fst (b0, w0) \<and> bf_samples b0 = [] \<and> bf_totalObserved b0 = 0 \<and> \<not> bf_haveBreach b0"
    using assms(1) by (auto simp: WatchBehaviorFingerprint_def Let_def split: option.splits prod.splits)
  then show ?case by (auto simp: fp_inv_def fp_run_def window_inv_def i64_def)
next
  case (snoc a acts)
  have s: "sorted (t0 # map act_time acts)" "last (t0 # map act_time acts) \<le> act_time a"
    using snoc.prems last_in_set [of "map act_time acts"] by (auto simp: sorted_append)
  note IH = snoc.IH [OF s(1)]
  show ?case
    using fp_inv_tick [OF IH, of "act_time a"] fp_inv_observe [OF IH, of "act_time a"] s(2) by (cases a) simp_all
qed

lemma windowStats_cong: "bf_samples b = bf_samples b' \<Longrightarrow> windowStatsLocked cfg b = windowStatsLocked cfg b'"
  by (simp add: windowStatsLocked_def Let_def)

lemma fp_anomalous_mono:
  "bf_anomalous (fst (fp_run env cfg acts bw)) \<Longrightarrow> bf_anomalous (fst (fp_run env cfg (acts @ later) bw))"
proof (induction later rule: rev_induct)
  case (snoc a later)
  obtain b w where bw: "fp_run env cfg (acts @ later) bw = (b, w)" by (cases "fp_run env cfg (acts @ later) bw")
  have run: "fp_run env cfg (acts @ later @ [a]) bw = fp_step env cfg a (b, w)"
    using bw fp_run_snoc [of env cfg "acts @ later" a bw] by simp
  have b: "bf_anomalous b" using snoc bw by simp
  show ?case
  proof (cases a)
    case (AObs t d)
    with run b show ?thesis by (simp add: fingerprint_Observe_def)
  next
    case (ATick t)
    obtain d b' where d: "tick_locked env cfg t b = (d, b')" by (cases "tick_locked env cfg t b")
    then have "locked_frame cfg t b b'" by (cases rule: tick_locked_cases)
    moreover obtain es st where "fst (fp_run env cfg (acts @ later @ [a]) bw) = b'\<lparr> bf_events := es, bf_stopped := st \<rparr>"
      using fp_tick_state [OF d, of w] run ATick by auto
    ultimately show ?thesis using b by (simp add: locked_frame_def)
  qed
qed simp

lemma fp_fired_before:
  assumes "acts = pre @ ATick s # post" "fst (tick_locked env cfg s (fst (fp_run env cfg pre bw))) = Fire ev"
  shows "bf_anomalous (fst (fp_run env cfg acts bw))"
proof -
  obtain b w where bw: "fp_run env cfg pre bw = (b, w)" by (cases "fp_run env cfg pre bw")
  obtain d b' where d: "tick_locked env cfg s b = (d, b')" by (cases "tick_locked env cfg s b")
  have "d = Fire ev" using assms(2) bw d by simp
  with d have "bf_anomalous b'" by (cases rule: tick_locked_cases) auto
  moreover obtain es st where "fst (fp_run env cfg (pre @ [ATick s]) bw) = b'\<lparr> bf_events := es, bf_stopped := st \<rparr>"
    using fp_tick_state [OF d, of w] bw by (auto simp: fp_run_snoc)
  ultimately show ?thesis using fp_anomalous_mono [of env cfg "pre @ [ATick s]" bw post] assms(1) by simp
qed

text \<open>
  C28. Every anomaly event of the behaviour watcher is justified by the history. The warm-up is over
  and enough messages were handled; the event's current figures are those of exactly the messages
  handled within the last window; they are anomalous against its normal figures; and every tick in the
  last \<open>SustainFor\<close> at least, from the one the event counts from, found an anomaly. Without
  \<open>CircuitStop\<close> it is the only event of the watcher.
\<close>

theorem fingerprint_event_justified:
  assumes start: "WatchBehaviorFingerprint sub t0 = Inr b0"
    and clock: "sorted (t0 # map act_time (acts @ [ATick now]))"
    and fire: "fst (tick_locked env cfg now (fst (fp_run env cfg acts (b0, w0)))) = Fire ev"
  shows "fc_Warmup cfg \<le> now - t0 \<and> fc_MinSamples cfg \<le> i64 (int (length (observations acts)))
    \<and> be_Current ev = windowStatsLocked cfg
         (b0\<lparr> bf_samples := filter (\<lambda>s. now - fc_Window cfg \<le> sa_at s) (observations acts) \<rparr>)
    \<and> EvaluateBehaviorFingerprint env (be_Current ev) (be_Normal ev) cfg
    \<and> fc_SustainFor cfg \<le> be_SustainedFor ev
    \<and> anomaly_since env cfg (b0, w0) (acts @ [ATick now]) (now - be_SustainedFor ev)
    \<and> (fc_CircuitStop cfg \<or> (\<forall>pre s post ev'. acts = pre @ ATick s # post
         \<longrightarrow> fst (tick_locked env cfg s (fst (fp_run env cfg pre (b0, w0)))) \<noteq> Fire ev'))"
proof -
  obtain b w where bw: "fp_run env cfg acts (b0, w0) = (b, w)" by (cases "fp_run env cfg acts (b0, w0)")
  let ?t = "last (t0 # map act_time acts)"
  have t: "sorted (t0 # map act_time acts)" "?t \<le> now"
    using clock last_in_set [of "map act_time acts"] by (auto simp: sorted_append)
  have inv: "fp_inv env cfg (b0, w0) acts ?t b" using fp_run_inv [OF start t(1), of env cfg w0] bw by simp
  have t0: "bf_startedAt b0 = t0"
    using start by (auto simp: WatchBehaviorFingerprint_def Let_def split: option.splits prod.splits)
  obtain d b' where d: "tick_locked env cfg now b = (d, b')" by (cases "tick_locked env cfg now b")
  show ?thesis
    using d
  proof (cases rule: tick_locked_cases)
    case (fires ev')
    have ev: "ev' = ev" using fires(2) fire d bw by simp
    have since: "anomaly_since env cfg (b0, w0) (acts @ [ATick now]) (now - be_SustainedFor ev)"
      using fires(1,7) ev inv bw anomaly_since_start [of env cfg acts "(b0, w0)" now]
        anomaly_since_snoc [of env cfg "(b0, w0)" acts "bf_breachStart b" "ATick now"]
      by (auto simp: fp_inv_def)
    have stats: "be_Current ev = windowStatsLocked cfg
        (b0\<lparr> bf_samples := filter (\<lambda>s. now - fc_Window cfg \<le> sa_at s) (observations acts) \<rparr>)"
      using fires(10) ev inv window_inv_samples [OF _ t(2), of cfg "observations acts" b]
      by (auto simp: fp_inv_def intro!: windowStats_cong)
    have once: "fc_CircuitStop cfg \<or> (\<forall>pre s post ev'. acts = pre @ ATick s # post
         \<longrightarrow> fst (tick_locked env cfg s (fst (fp_run env cfg pre (b0, w0)))) \<noteq> Fire ev')"
      using fires(6) fp_fired_before [of acts _ _ _ env cfg "(b0, w0)"] bw by (metis fst_conv)
    have "\<not> is_learning cfg now b" "EvaluateBehaviorFingerprint env (be_Current ev) (be_Normal ev) cfg"
      using fires(1,9,10) ev by (simp_all add: anomalous_at_def)
    with fires(8) ev since stats once inv t0 show ?thesis by (simp add: is_learning_def fp_inv_def)
  qed (use fire d bw in auto)
qed

text \<open>
  An instance: a window of a minute; the first message takes 10 ns and gives the baseline, the one of
  the second minute takes 30 ns, and two ticks find it.
\<close>

definition demo_fp_env :: "unit fp_env" where
  "demo_fp_env = \<lparr> fe_float_to_i64 = (\<lambda>_. 0), fe_Marshal = (\<lambda>_. Inr []), fe_now = (\<lambda>w. (0, w)),
     fe_anomaly_metric = (\<lambda>w. w) \<rparr>"

definition demo_fp_config :: "unit BehaviorFingerprintConfig" where
  "demo_fp_config = \<lparr> fc_OnAnomaly = None, fc_ReportKV = None, fc_ReportBucket = [], fc_PollInterval = 1,
     fc_Window = 60 * Second, fc_Warmup = 1, fc_MinSamples = 1, fc_LatencyFactor = 3, fc_RateTolerance = 1,
     fc_SustainFor = 1, fc_CircuitStop = False \<rparr>"

definition demo_fp_acts :: "fp_act list" where
  "demo_fp_acts = [AObs 1 10, ATick 2, AObs 60000000010 30, ATick 60000000011]"

lemma fl64_numeral: "(numeral n :: int) < 2 ^ 53 \<Longrightarrow> fl64 (numeral n) = numeral n"
  using fl64_int [of "numeral n"] by simp

lemma fl64_one: "fl64 1 = 1"
  using fl64_int [of 1] by simp

definition demo_bf :: "behaviorSample list \<Rightarrow> BehaviorSnapshot \<Rightarrow> int \<Rightarrow> bool \<Rightarrow> duration \<Rightarrow> bool \<Rightarrow> gotime \<Rightarrow> BehaviorFingerprint" where
  "demo_bf ss lc n have lat breach t = \<lparr> bf_startedAt = 0, bf_breachStart = t, bf_lastReportAt = zero_time, bf_events = [],
     bf_stopped = False, bf_stream = ''S'', bf_durable = ''d'', bf_samples = ss, bf_lastCurrent = lc,
     bf_baselineRate = (if have then 1 else 0), bf_totalObserved = n, bf_baselineLatency = lat, bf_anomalous = False,
     bf_haveBaseline = have, bf_haveBreach = breach \<rparr>"

lemma demo_stats:
  assumes "bf_samples b = [\<lparr> sa_at = t, sa_d = d \<rparr>]" "0 \<le> d" "d < 100"
  shows "windowStatsLocked demo_fp_config b = \<lparr> bs_MsgPerMin = 1, bs_Processing = d \<rparr>"
proof -
  have "Minutes (60 * Second) = 1"
    by (simp add: Minutes_def duration_units go_div_def fl_of_int_def fl_div_def fl_add_def fl64_one)
  moreover have "i64 d = d" using assms by (intro i64_id) (simp add: in_i64_def)
  ultimately show ?thesis
    using assms by (simp add: windowStatsLocked_def demo_fp_config_def go_div_nonneg fl_of_int_def fl_div_def fl64_one
        duration_units Let_def)
qed

lemma demo_evaluate:
  "EvaluateBehaviorFingerprint demo_fp_env \<lparr> bs_MsgPerMin = 1, bs_Processing = 30 \<rparr> \<lparr> bs_MsgPerMin = 1, bs_Processing = 10 \<rparr> demo_fp_config"
  by (simp add: EvaluateBehaviorFingerprint_def BehaviorFingerprintConfig_withDefaults_def demo_fp_config_def demo_fp_env_def
      rate_in_band_def fl_of_int_def fl_mul_def fl_add_def fl_sub_def fl64_numeral fl64_one float_to_i64_def in_i64_def)

definition "demo_b1 = demo_bf [\<lparr> sa_at = 1, sa_d = 10 \<rparr>] no_snapshot 1 False 0 False zero_time"
definition "demo_b2 = demo_bf [\<lparr> sa_at = 1, sa_d = 10 \<rparr>] \<lparr> bs_MsgPerMin = 1, bs_Processing = 10 \<rparr> 1 True 10 False zero_time"
definition "demo_b3 = demo_bf [\<lparr> sa_at = 60000000010, sa_d = 30 \<rparr>] \<lparr> bs_MsgPerMin = 1, bs_Processing = 10 \<rparr> 2 True 10 False zero_time"
definition "demo_b4 = demo_bf [\<lparr> sa_at = 60000000010, sa_d = 30 \<rparr>] \<lparr> bs_MsgPerMin = 1, bs_Processing = 30 \<rparr> 2 True 10 True 60000000011"

lemmas demo_bfs = demo_b1_def demo_b2_def demo_b3_def demo_b4_def demo_bf_def

lemma demo_learn: "tick_locked demo_fp_env demo_fp_config 2 demo_b1 = (Quiet, demo_b2)"
proof -
  have trim: "trimLocked demo_fp_config 2 demo_b1 = demo_b1"
    by (simp add: trimLocked_def demo_bfs demo_fp_config_def duration_units)
  have cur: "windowStatsLocked demo_fp_config demo_b1 = \<lparr> bs_MsgPerMin = 1, bs_Processing = 10 \<rparr>"
    by (rule demo_stats) (simp_all add: demo_bfs)
  have learn: "is_learning demo_fp_config 2 (demo_b1\<lparr> bf_lastCurrent := lc \<rparr>)" for lc
    by (simp add: is_learning_def demo_bfs demo_fp_config_def duration_units)
  show ?thesis
    by (simp add: tick_locked_def trim cur learn Let_def) (simp add: demo_bfs updateBaselineLocked_def)
qed

lemma demo_late:
  assumes "now \<in> {60000000011, 60000000012}" "b \<in> {demo_b3, demo_b4}"
  shows "trimLocked demo_fp_config now b = b"
    "\<not> is_learning demo_fp_config now (b\<lparr> bf_lastCurrent := lc \<rparr>)"
proof -
  show "trimLocked demo_fp_config now b = b"
    using assms by (auto simp: trimLocked_def demo_bfs demo_fp_config_def duration_units)
  show "\<not> is_learning demo_fp_config now (b\<lparr> bf_lastCurrent := lc \<rparr>)"
    using assms by (auto simp: is_learning_def demo_bfs demo_fp_config_def duration_units)
qed

lemma demo_late_stats:
  "b \<in> {demo_b3, demo_b4} \<Longrightarrow> windowStatsLocked demo_fp_config b = \<lparr> bs_MsgPerMin = 1, bs_Processing = 30 \<rparr>"
  by (rule demo_stats [where t = 60000000010]) (auto simp: demo_bfs)

lemma demo_fields:
  "bf_haveBaseline demo_b3" "bf_baselineRate demo_b3 = 1" "bf_baselineLatency demo_b3 = 10" "\<not> bf_haveBreach demo_b3"
  "bf_haveBaseline demo_b4" "bf_baselineRate demo_b4 = 1" "bf_baselineLatency demo_b4 = 10" "bf_haveBreach demo_b4"
  "bf_breachStart demo_b4 = 60000000011" "\<not> bf_anomalous demo_b4"
  "fc_SustainFor demo_fp_config = 1" "\<not> fc_CircuitStop demo_fp_config"
  by (simp_all add: demo_bfs demo_fp_config_def)

lemma demo_breach: "tick_locked demo_fp_env demo_fp_config 60000000011 demo_b3 = (Quiet, demo_b4)"
  by (simp add: tick_locked_def demo_late demo_late_stats demo_fields demo_evaluate Let_def) (simp add: demo_bfs)

lemma demo_fires: "\<exists>ev. fst (tick_locked demo_fp_env demo_fp_config 60000000012 demo_b4) = Fire ev"
  by (simp add: tick_locked_def demo_late demo_late_stats demo_fields demo_evaluate Let_def)

theorem fingerprint_event_justified_witness:
  "\<exists>b0 ev. WatchBehaviorFingerprint (Some (Some (''S'', ''d''))) 0 = Inr b0
     \<and> fst (tick_locked demo_fp_env demo_fp_config 60000000012 (fst (fp_run demo_fp_env demo_fp_config demo_fp_acts (b0, ())))) = Fire ev
     \<and> anomaly_since demo_fp_env demo_fp_config (b0, ()) (demo_fp_acts @ [ATick 60000000012]) (60000000012 - be_SustainedFor ev)"
proof -
  define b0 where "b0 = demo_bf [] no_snapshot 0 False 0 False zero_time"
  have start: "WatchBehaviorFingerprint (Some (Some (''S'', ''d''))) 0 = Inr b0"
    by (simp add: WatchBehaviorFingerprint_def b0_def demo_bf_def)
  have o1: "fingerprint_Observe demo_fp_config 1 10 b0 = demo_b1"
    by (simp add: fingerprint_Observe_def trimLocked_def b0_def demo_bfs demo_fp_config_def duration_units i64_def)
  have o3: "fingerprint_Observe demo_fp_config 60000000010 30 demo_b2 = demo_b3"
    by (simp add: fingerprint_Observe_def trimLocked_def demo_bfs demo_fp_config_def duration_units i64_def)
  have run: "fp_run demo_fp_env demo_fp_config demo_fp_acts (b0, ()) = (demo_b4, ())"
    by (simp add: fp_run_def demo_fp_acts_def o1 o3 fingerprint_tick_def demo_learn demo_breach)
  obtain ev where ev: "fst (tick_locked demo_fp_env demo_fp_config 60000000012 demo_b4) = Fire ev"
    using demo_fires by blast
  have "sorted (0 # map act_time (demo_fp_acts @ [ATick 60000000012]))" by (simp add: demo_fp_acts_def)
  from fingerprint_event_justified [OF start this, of demo_fp_env demo_fp_config "()" ev] ev run start
  show ?thesis by auto
qed

section \<open>Reports through the key-value manager\<close>

text \<open>
  A report is keyed by stream and durable. The validators of those names allow characters that the
  validator of keys does not: the manager refuses the report of such a consumer before it reaches the
  bucket, and \<open>reportKV\<close> drops the error.
\<close>

lemma kvm_Put_refused: "\<not> validKVKeyRe key \<Longrightarrow> \<exists>e. kvm_Put env bucket key v w = (Inl e, w)"
  by (simp add: kvm_Put_def guarded_def then_err_def ValidateKVKey_def split: option.splits)

lemma report_refused:
  assumes key: "\<not> validKVKeyRe (BehaviorFingerprintKVKey stream durable)"
    and clock: "\<And>w. snd (fe_now env w) = w"
  shows "snd (ReportBehaviorFingerprintKV env (Some (kvm_Put kv)) bucket stream durable anomaly normal current sustained w) = w"
proof -
  obtain t where t: "fe_now env w = (t, w)" using clock [of w] by (metis prod.collapse)
  obtain t' where t': "(if t = zero_time then fe_now env w else (t, w)) = (t', w)"
    using t by (cases "t = zero_time") simp_all
  obtain bucket1 where b: "(if IsEmpty (trim_space bucket) then DefaultBehaviorFingerprintKVBucket else trim_space bucket) = bucket1"
    by blast
  obtain e where e: "\<And>raw. kvm_Put kv bucket1 (BehaviorFingerprintKVKey stream durable) raw w = (Inl (e raw), w)"
    using kvm_Put_refused [OF key, of kv bucket1 _ w] by metis
  show ?thesis
    unfolding ReportBehaviorFingerprintKV_def MarshalBehaviorFingerprintKV_def option.case Let_def t prod.case t' b
    by (simp add: e split: sum.split)
qed

lemma report_refused_example:
  "ValidateStreamName ''a:b'' = None" "\<not> validKVKeyRe (BehaviorFingerprintKVKey ''a:b'' ''d'')"
  by code_simp+

end
