(* ===== verification/Objects.thy ===== *)
theory Objects
  imports Managers
begin

text \<open>
  The object store manager (\<open>object_manager.go\<close>) over the object stores of nats.go, which are the
  record \<open>obj_env\<close>. An open store is known by its bucket name. \<open>Get\<close> reads an object in two calls;
  they are separate definitions, since another client may act in between.
\<close>

section \<open>Types\<close>

record ObjectStoreConfig =
  oc_Bucket :: string
  oc_Description :: string
  oc_TTL :: duration
  oc_MaxBytes :: int
  oc_Storage :: nat
  oc_Replicas :: int

record ObjectBucketStatus =
  ob_Bucket :: string
  ob_Description :: string
  ob_Size :: nat

record ObjectEntry =
  oe_Modified :: gotime
  oe_Bucket :: string
  oe_Name :: string
  oe_Data :: bytes
  oe_Size :: nat

text \<open>
  \<open>os_*\<close>: the calls of nats.go. An \<open>ObjectInfo\<close> is the name, the size and the modification time.
  \<open>os_Reader\<close> opens an object for reading: what can be read of it, and the error that ends the reading
  instead of the end of file.
\<close>

record ObjectInfo =
  oi_Name :: string
  oi_Size :: nat
  oi_ModTime :: gotime

record 'w obj_env =
  os_Stores :: "'w \<Rightarrow> ObjectBucketStatus list \<times> 'w"
  os_Create :: "ObjectStoreConfig \<Rightarrow> 'w \<Rightarrow> err option \<times> 'w"
  os_Open :: "string \<Rightarrow> 'w \<Rightarrow> err option \<times> 'w"
  os_Status :: "string \<Rightarrow> 'w \<Rightarrow> ObjectBucketStatus result \<times> 'w"
  os_DeleteStore :: "string \<Rightarrow> 'w \<Rightarrow> err option \<times> 'w"
  os_List :: "string \<Rightarrow> 'w \<Rightarrow> ObjectInfo list result \<times> 'w"
  os_GetInfo :: "string \<Rightarrow> string \<Rightarrow> 'w \<Rightarrow> ObjectInfo result \<times> 'w"
  os_Reader :: "string \<Rightarrow> string \<Rightarrow> 'w \<Rightarrow> (bytes \<times> err option) result \<times> 'w"
  os_PutBytes :: "string \<Rightarrow> string \<Rightarrow> bytes \<Rightarrow> 'w \<Rightarrow> ObjectInfo result \<times> 'w"
  os_DeleteObject :: "string \<Rightarrow> string \<Rightarrow> 'w \<Rightarrow> err option \<times> 'w"

section \<open>Buckets\<close>

text \<open>
  The storage type is copied when it is not 0, the value it has anyhow: \<open>toNatsObjectStoreConfig\<close>
  keeps every field. The status of nats.go is taken over field by field.
\<close>

definition toNatsObjectStoreConfig :: "ObjectStoreConfig \<Rightarrow> ObjectStoreConfig" where
  "toNatsObjectStoreConfig cfg =
     \<lparr> oc_Bucket = oc_Bucket cfg, oc_Description = oc_Description cfg, oc_TTL = oc_TTL cfg,
       oc_MaxBytes = oc_MaxBytes cfg, oc_Storage = (if oc_Storage cfg \<noteq> 0 then oc_Storage cfg else 0),
       oc_Replicas = oc_Replicas cfg \<rparr>"

definition object_ListBuckets :: "'w obj_env \<Rightarrow> 'w \<Rightarrow> ObjectBucketStatus list result \<times> 'w" where
  "object_ListBuckets env w = (case os_Stores env w of (sts, w1) \<Rightarrow> (Inr sts, w1))"

definition object_createRaw :: "'w obj_env \<Rightarrow> ObjectStoreConfig \<Rightarrow> 'w \<Rightarrow> ObjectBucketStatus result \<times> 'w" where
  "object_createRaw env cfg =
     and_then ''create object bucket %q: %w'' (os_Create env cfg)
       (wrapping ''create object bucket %q: status: %w'' (os_Status env (oc_Bucket cfg)))"

definition object_Create :: "'w obj_env \<Rightarrow> ObjectStoreConfig \<Rightarrow> 'w \<Rightarrow> ObjectBucketStatus result \<times> 'w" where
  "object_Create env cfg =
     guarded (ValidateBucketName (oc_Bucket cfg)) (object_createRaw env (toNatsObjectStoreConfig cfg))"

definition object_CreateRaw ::
  "'w obj_env \<Rightarrow> ObjectStoreConfig option \<Rightarrow> 'w \<Rightarrow> ObjectBucketStatus result \<times> 'w" where
  "object_CreateRaw env cfg w =
     (case cfg of
        None \<Rightarrow> (Inl (wrap1 ''create object bucket: %w'' (ESent ErrEmptyConfigNotAllowed)), w)
      | Some cfg \<Rightarrow> guarded (ValidateBucketName (oc_Bucket cfg)) (object_createRaw env cfg) w)"

definition object_BucketInfo :: "'w obj_env \<Rightarrow> string \<Rightarrow> 'w \<Rightarrow> ObjectBucketStatus result \<times> 'w" where
  "object_BucketInfo env bucket =
     guarded (ValidateBucketName bucket)
       (and_then ''object bucket info %q: %w'' (os_Open env bucket)
         (wrapping ''object bucket info %q: status: %w'' (os_Status env bucket)))"

definition object_Delete :: "'w obj_env \<Rightarrow> string \<Rightarrow> 'w \<Rightarrow> err option \<times> 'w" where
  "object_Delete env bucket =
     guarded_err (ValidateBucketName bucket) (wrapping_err ''delete object bucket %q: %w'' (os_DeleteStore env bucket))"

section \<open>Objects\<close>

text \<open>\<^const>\<open>None\<close>: the slice expression of \<open>pageSlice\<close> panics.\<close>

definition ListObjects ::
  "'w obj_env \<Rightarrow> string \<Rightarrow> int \<Rightarrow> int \<Rightarrow> 'w \<Rightarrow> ((string list \<times> nat) result \<times> 'w) option" where
  "ListObjects env bucket offset limit w =
     (case guarded (ValidateBucketName bucket)
             (and_then ''list objects bucket=%q: %w'' (os_Open env bucket)
               (\<lambda>w. case os_List env bucket w of
                    (Inl e, w1) \<Rightarrow>
                      if errors_Is e NatsErrNoObjectsFound then (Inr [], w1)
                      else (Inl (wrap1 ''list objects bucket=%q: %w'' e), w1)
                  | (Inr infos, w1) \<Rightarrow> (Inr (map oi_Name infos), w1))) w of
        (Inl e, w1) \<Rightarrow> Some (Inl e, w1)
      | (Inr names, w1) \<Rightarrow> map_option (\<lambda>p. (Inr p, w1)) (pageSlice names offset limit))"

definition empty_name :: "string \<Rightarrow> string \<Rightarrow> err option" where
  "empty_name label name = (if IsEmpty name then Some (EMsg label) else None)"

abbreviation maxObjectGetBytes :: nat where "maxObjectGetBytes \<equiv> 64 * 1024 * 1024"

definition object_get_info :: "'w obj_env \<Rightarrow> string \<Rightarrow> string \<Rightarrow> 'w \<Rightarrow> ObjectInfo result \<times> 'w" where
  "object_get_info env bucket name =
     guarded (then_err (ValidateBucketName bucket) (empty_name ''get object bucket=%q: empty object name'' name))
       (and_then ''get object bucket=%q name=%q: %w'' (os_Open env bucket)
         (\<lambda>w. case os_GetInfo env bucket name w of
              (Inl e, w1) \<Rightarrow> (Inl (wrap1 ''get object info bucket=%q name=%q: %w'' e), w1)
            | (Inr info, w1) \<Rightarrow>
                if oi_Size info > maxObjectGetBytes
                then (Inl (EMsg ''get object bucket=%q name=%q: size %d exceeds %d byte limit''), w1)
                else (Inr info, w1)))"

text \<open>\<open>io.ReadFull\<close>: an end of file before \<open>n\<close> bytes is an error.\<close>

definition ReadFull :: "nat \<Rightarrow> bytes \<times> err option \<Rightarrow> bytes result" where
  "ReadFull n r =
     (case r of (content, e) \<Rightarrow>
        if n \<le> length content then Inr (take n content)
        else case e of Some e \<Rightarrow> Inl e | None \<Rightarrow> Inl (EMsg (if content = [] then ''EOF'' else ''unexpected EOF'')))"

definition object_get_data :: "'w obj_env \<Rightarrow> string \<Rightarrow> string \<Rightarrow> ObjectInfo \<Rightarrow> 'w \<Rightarrow> ObjectEntry result \<times> 'w" where
  "object_get_data env bucket name info w =
     (case os_Reader env bucket name w of
        (Inl e, w1) \<Rightarrow> (Inl (wrap1 ''get object bucket=%q name=%q: %w'' e), w1)
      | (Inr r, w1) \<Rightarrow>
          (case (if oi_Size info > 0 then ReadFull (oi_Size info) r else Inr []) of
             Inl e \<Rightarrow> (Inl (wrap1 ''get object read bucket=%q name=%q: %w'' e), w1)
           | Inr data \<Rightarrow>
               (Inr \<lparr> oe_Modified = oi_ModTime info, oe_Bucket = bucket, oe_Name = name, oe_Data = data,
                      oe_Size = oi_Size info \<rparr>, w1)))"

definition object_Get :: "'w obj_env \<Rightarrow> string \<Rightarrow> string \<Rightarrow> 'w \<Rightarrow> ObjectEntry result \<times> 'w" where
  "object_Get env bucket name w =
     (case object_get_info env bucket name w of
        (Inl e, w1) \<Rightarrow> (Inl e, w1)
      | (Inr info, w1) \<Rightarrow> object_get_data env bucket name info w1)"

definition object_Put :: "'w obj_env \<Rightarrow> string \<Rightarrow> string \<Rightarrow> bytes \<Rightarrow> 'w \<Rightarrow> ObjectEntry result \<times> 'w" where
  "object_Put env bucket name data =
     guarded (then_err (ValidateBucketName bucket) (empty_name ''put object bucket=%q: empty object name'' name))
       (and_then ''put object bucket=%q name=%q: %w'' (os_Open env bucket)
         (\<lambda>w. case os_PutBytes env bucket name data w of
              (Inl e, w1) \<Rightarrow> (Inl (wrap1 ''put object bucket=%q name=%q: %w'' e), w1)
            | (Inr info, w1) \<Rightarrow>
                (Inr \<lparr> oe_Modified = oi_ModTime info, oe_Bucket = bucket, oe_Name = name, oe_Data = data,
                       oe_Size = oi_Size info \<rparr>, w1)))"

definition DeleteObject :: "'w obj_env \<Rightarrow> string \<Rightarrow> string \<Rightarrow> 'w \<Rightarrow> err option \<times> 'w" where
  "DeleteObject env bucket name =
     guarded_err (then_err (ValidateBucketName bucket) (empty_name ''delete object bucket=%q: empty object name'' name))
       (\<lambda>w. case os_Open env bucket w of
            (Some e, w1) \<Rightarrow> (Some (wrap1 ''delete object bucket=%q name=%q: %w'' e), w1)
          | (None, w1) \<Rightarrow> wrapping_err ''delete object bucket=%q name=%q: %w'' (os_DeleteObject env bucket name) w1)"

section \<open>Reading what was written\<close>

text \<open>
  The contents of the stores as the server documents them: bucket, name, then data and modification
  time. Opening and reading change nothing; a reader gives the object's bytes from the start, all of
  them unless it fails; a put that succeeds replaces the object and nothing else.
\<close>

type_synonym 'w obj_view = "'w \<Rightarrow> string \<times> string \<Rightarrow> (bytes \<times> gotime) option"

definition obj_laws :: "'w obj_env \<Rightarrow> 'w obj_view \<Rightarrow> bool" where
  "obj_laws env V \<longleftrightarrow>
     (\<forall>b w. V (snd (os_Open env b w)) = V w)
   \<and> (\<forall>b n w. V (snd (os_GetInfo env b n w)) = V w)
   \<and> (\<forall>b n w info. fst (os_GetInfo env b n w) = Inr info
        \<longrightarrow> (\<exists>data t. V w (b, n) = Some (data, t) \<and> oi_Size info = length data \<and> oi_ModTime info = t))
   \<and> (\<forall>b n w. V (snd (os_Reader env b n w)) = V w)
   \<and> (\<forall>b n w c e. fst (os_Reader env b n w) = Inr (c, e)
        \<longrightarrow> (\<exists>data t rest. V w (b, n) = Some (data, t) \<and> data = c @ rest \<and> (e = None \<longrightarrow> rest = [])))
   \<and> (\<forall>b n d w info. fst (os_PutBytes env b n d w) = Inr info
        \<longrightarrow> oi_Size info = length d \<and> V (snd (os_PutBytes env b n d w)) = (V w)((b, n) \<mapsto> (d, oi_ModTime info)))"

lemma obj_lawsD:
  assumes "obj_laws env V"
  shows "os_Open env b w = (e, w') \<Longrightarrow> V w' = V w"
    and "os_GetInfo env b n w = (r, w') \<Longrightarrow> V w' = V w"
    and "os_GetInfo env b n w = (Inr info, w') \<Longrightarrow> \<exists>data. V w (b, n) = Some (data, oi_ModTime info) \<and> oi_Size info = length data"
    and "os_Reader env b n w = (q, w') \<Longrightarrow> V w' = V w"
    and "os_Reader env b n w = (Inr (c, re), w') \<Longrightarrow> \<exists>data t rest. V w (b, n) = Some (data, t) \<and> data = c @ rest \<and> (re = None \<longrightarrow> rest = [])"
    and "os_PutBytes env b n d w = (Inr info, w')
      \<Longrightarrow> oi_Size info = length d \<and> V w' = (V w)((b, n) \<mapsto> (d, oi_ModTime info))"
  using assms unfolding obj_laws_def by (metis fst_conv snd_conv)+

lemma object_Put_stores:
  assumes laws: "obj_laws env V" and "object_Put env b n d w = (Inr e, w')"
  shows "V w' = (V w)((b, n) \<mapsto> (d, oe_Modified e)) \<and> oe_Data e = d \<and> oe_Size e = length d"
  using assms(2) obj_lawsD(1,6) [OF laws]
  by (auto simp: object_Put_def guarded_def and_then_def split: option.splits prod.splits sum.splits)

lemma object_get_info_reads:
  assumes laws: "obj_laws env V" and "object_get_info env b n w = (r, w')"
  shows "V w' = V w \<and> (\<forall>info. r = Inr info \<longrightarrow> (\<exists>data. V w (b, n) = Some (data, oi_ModTime info)
     \<and> oi_Size info = length data \<and> length data \<le> maxObjectGetBytes))"
  using assms(2) obj_lawsD(1,2,3) [OF laws]
  by (fastforce simp: object_get_info_def guarded_def and_then_def
      split: option.splits prod.splits sum.splits if_splits)

lemma ReadFull_Inr: "ReadFull n (c, e) = Inr d \<Longrightarrow> d = take n c \<and> n \<le> length c"
  by (auto simp: ReadFull_def split: if_splits option.splits)

lemma object_get_data_reads:
  assumes laws: "obj_laws env V" and get: "object_get_data env b n info w = (r, w')"
  shows "V w' = V w \<and> (\<forall>e. r = Inr e \<longrightarrow> oe_Size e = oi_Size info \<and> oe_Modified e = oi_ModTime info
     \<and> (\<exists>data t. V w (b, n) = Some (data, t) \<and> oe_Data e = take (oi_Size info) data \<and> oi_Size info \<le> length data))"
proof -
  obtain q w1 where q: "os_Reader env b n w = (q, w1)" by (cases "os_Reader env b n w")
  note V1 = obj_lawsD(4) [OF laws q]
  show ?thesis
  proof (cases q)
    case (Inl x)
    with q get V1 show ?thesis by (auto simp: object_get_data_def)
  next
    case (Inr ce)
    obtain c re where ce: "ce = (c, re)" by (cases ce)
    obtain data t rest where d: "V w (b, n) = Some (data, t)" "data = c @ rest"
      using obj_lawsD(5) [OF laws, of b n w c re w1] q Inr ce by blast
    show ?thesis
      using get q Inr ce V1 d
      by (auto simp: object_get_data_def split: sum.splits if_splits dest!: ReadFull_Inr)
  qed
qed

lemma object_Get_reads:
  assumes laws: "obj_laws env V" and "object_Get env b n w = (r, w')"
  shows "V w' = V w \<and> (\<forall>e. r = Inr e \<longrightarrow> V w (b, n) = Some (oe_Data e, oe_Modified e)
     \<and> oe_Size e = length (oe_Data e) \<and> length (oe_Data e) \<le> maxObjectGetBytes)"
proof -
  obtain q w1 where q: "object_get_info env b n w = (q, w1)" by (cases "object_get_info env b n w")
  note info = object_get_info_reads [OF laws q]
  show ?thesis
  proof (cases q)
    case (Inl x)
    with q info assms(2) show ?thesis by (auto simp: object_Get_def)
  next
    case (Inr i)
    then have "object_get_data env b n i w1 = (r, w')" using assms(2) q by (simp add: object_Get_def)
    from object_get_data_reads [OF laws this] info Inr show ?thesis by auto
  qed
qed

text \<open>The server answers: a stored object can be opened and read to its end.\<close>

definition obj_available :: "'w obj_env \<Rightarrow> 'w obj_view \<Rightarrow> string \<Rightarrow> string \<Rightarrow> bool" where
  "obj_available env V b n \<longleftrightarrow> (\<forall>w. fst (os_Open env b w) = None)
     \<and> (\<forall>w. V w (b, n) \<noteq> None \<longrightarrow> (\<exists>info. fst (os_GetInfo env b n w) = Inr info))
     \<and> (\<forall>w. V w (b, n) \<noteq> None \<longrightarrow> (\<exists>c. fst (os_Reader env b n w) = Inr (c, None)))"

lemma object_Get_available:
  assumes laws: "obj_laws env V" and up: "obj_available env V b n" and v: "V w (b, n) = Some (d, t)"
    and args: "ValidateBucketName b = None" "\<not> IsEmpty n" "length d \<le> maxObjectGetBytes"
  shows "\<exists>e w'. object_Get env b n w = (Inr e, w')"
proof -
  obtain w1 where o1: "os_Open env b w = (None, w1)" using up by (metis obj_available_def prod.collapse)
  then have v1: "V w1 (b, n) = Some (d, t)" using obj_lawsD(1) [OF laws] v by metis
  then obtain info w2 where i: "os_GetInfo env b n w1 = (Inr info, w2)"
    using up by (metis obj_available_def option.distinct(1) prod.collapse)
  have size: "oi_Size info = length d" using obj_lawsD(3) [OF laws i] v1 by auto
  have v2: "V w2 (b, n) = Some (d, t)" using obj_lawsD(2) [OF laws i] v1 by simp
  then obtain c w3 where r: "os_Reader env b n w2 = (Inr (c, None), w3)"
    using up by (metis obj_available_def option.distinct(1) prod.collapse)
  have "c = d" using obj_lawsD(5) [OF laws r] v2 by auto
  with o1 i r size args show ?thesis
    by (simp add: object_Get_def object_get_info_def object_get_data_def guarded_def and_then_def then_err_def empty_name_def
        ReadFull_def)
qed


text \<open>
  C40. \<open>Get\<close> can return an object nobody ever stored: when another client replaces the object by a
  longer one between the two calls, \<open>Get\<close> returns without an error the first bytes of the new object,
  as many as the old one had, with the old modification time.
\<close>

theorem object_torn_read:
  assumes laws: "obj_laws env V"
    and info: "object_get_info env b n w = (Inr i, w1)" and old: "V w (b, n) = Some (d, t)"
    and other: "object_Put other b n d' w1 = (Inr e', w2)" "obj_laws other V"
    and get: "object_get_data env b n i w2 = (Inr e, w3)"
  shows "oe_Data e = take (length d) d' \<and> oe_Size e = length d \<and> oe_Modified e = t
    \<and> (length d < length d' \<longrightarrow> oe_Data e \<noteq> d')"
  using object_get_info_reads [OF laws info] object_Put_stores [OF other(2,1)] object_get_data_reads [OF laws get] old
  by auto

text \<open>An instance: the stores in memory, of one bucket; the clock is the number of puts.\<close>

type_synonym mem_store = "(string \<rightharpoonup> bytes \<times> gotime) \<times> int"

definition mem_env :: "string \<Rightarrow> mem_store obj_env" where
  "mem_env bucket = \<lparr> os_Stores = (\<lambda>w. ([], w)), os_Create = (\<lambda>_ w. (None, w)),
     os_Open = (\<lambda>b w. (if b = bucket then None else Some (ESent NatsErrStreamNotFound), w)),
     os_Status = (\<lambda>b w. (Inr \<lparr> ob_Bucket = b, ob_Description = [], ob_Size = 0 \<rparr>, w)),
     os_DeleteStore = (\<lambda>_ w. (None, w)), os_List = (\<lambda>_ w. (Inl (ESent NatsErrNoObjectsFound), w)),
     os_GetInfo = (\<lambda>b n w. (case fst w n of
          Some (d, t) \<Rightarrow> if b = bucket then Inr \<lparr> oi_Name = n, oi_Size = length d, oi_ModTime = t \<rparr> else Inl (EMsg ''closed'')
        | None \<Rightarrow> Inl (EMsg ''not found''), w)),
     os_Reader = (\<lambda>b n w. (case fst w n of
          Some (d, t) \<Rightarrow> if b = bucket then Inr (d, None) else Inl (EMsg ''closed'')
        | None \<Rightarrow> Inl (EMsg ''not found''), w)),
     os_PutBytes = (\<lambda>b n d w. if b = bucket
        then (Inr \<lparr> oi_Name = n, oi_Size = length d, oi_ModTime = snd w \<rparr>, (fst w)(n \<mapsto> (d, snd w)), snd w + 1)
        else (Inl (EMsg ''closed''), w)),
     os_DeleteObject = (\<lambda>b n w. (None, (fst w)(n := None), snd w)) \<rparr>"

definition mem_view :: "string \<Rightarrow> mem_store obj_view" where
  "mem_view bucket w bn = (if fst bn = bucket then fst w (snd bn) else None)"

lemma mem_laws: "obj_laws (mem_env bucket) (mem_view bucket)"
  by (auto simp: obj_laws_def mem_env_def mem_view_def fun_eq_iff split: option.splits if_splits)

definition no_objects :: mem_store where
  "no_objects = (\<lambda>_. None, 0)"

lemma mem_bucket: "ValidateBucketName ''b'' = None"
  by code_simp

lemmas mem_eval = object_Put_def object_Get_def object_get_info_def object_get_data_def guarded_def and_then_def
  then_err_def empty_name_def IsEmpty_def mem_bucket mem_env_def no_objects_def ReadFull_def


theorem object_torn_read_witness:
  "\<exists>w i w1 e' w2 e w3. mem_view ''b'' w (''b'', ''n'') = Some (''xy'', 0)
     \<and> object_get_info (mem_env ''b'') ''b'' ''n'' w = (Inr i, w1)
     \<and> object_Put (mem_env ''b'') ''b'' ''n'' ''abc'' w1 = (Inr e', w2)
     \<and> object_get_data (mem_env ''b'') ''b'' ''n'' i w2 = (Inr e, w3)
     \<and> oe_Data e = ''ab'' \<and> oe_Modified e = 0"
proof -
  let ?w = "([''n'' \<mapsto> (''xy'', 0)], 1) :: mem_store"
  have old: "mem_view ''b'' ?w (''b'', ''n'') = Some (''xy'', 0)" by (simp add: mem_view_def)
  obtain i w1 where info: "object_get_info (mem_env ''b'') ''b'' ''n'' ?w = (Inr i, w1)"
    by (simp add: mem_eval)
  obtain e' w2 where put: "object_Put (mem_env ''b'') ''b'' ''n'' ''abc'' w1 = (Inr e', w2)"
    by (simp add: mem_eval)
  obtain e w3 where get: "object_get_data (mem_env ''b'') ''b'' ''n'' i w2 = (Inr e, w3)"
    using info put by (auto simp: mem_eval)
  from object_torn_read [OF mem_laws info old put mem_laws get]
  have "oe_Data e = ''ab'' \<and> oe_Modified e = 0" by simp
  with old info put get show ?thesis by blast
qed

end
