(* ===== verification/Incidents.thy ===== *)
theory Incidents
  imports Objects Replay FlightRecorder Fingerprint Consumer
begin

text \<open>
  Incident capsules: \<open>incident_capsule.go\<close> (capture, load, list, local replay), \<open>incident_auto.go\<close> (capture
  from the hooks of other components) and \<open>incident_attach.go\<close> (capture on a handler's error). They put
  the stream reads of \<open>Replay\<close>, the object store, the key-value index and the flight recorder together.
  Parameters beyond those of these components: the id generator, the clock, the JSON coding of a capsule
  and the text of an error.
\<close>

section \<open>Capsules\<close>

abbreviation DefaultIncidentCapsuleBucket :: string where "DefaultIncidentCapsuleBucket \<equiv> ''nats_incident_capsules''"
abbreviation DefaultIncidentIndexBucket :: string where "DefaultIncidentIndexBucket \<equiv> ''nats_incident_index''"
abbreviation defaultCapsuleWindow :: int where "defaultCapsuleWindow \<equiv> 50"
abbreviation capsuleSchemaVersion :: int where "capsuleSchemaVersion \<equiv> 1"

type_synonym IncidentTrigger = string

abbreviation TriggerManual :: IncidentTrigger where "TriggerManual \<equiv> ''manual''"
abbreviation TriggerDLQ :: IncidentTrigger where "TriggerDLQ \<equiv> ''dlq''"
abbreviation TriggerAnomaly :: IncidentTrigger where "TriggerAnomaly \<equiv> ''anomaly''"
abbreviation TriggerShadowMismatch :: IncidentTrigger where "TriggerShadowMismatch \<equiv> ''shadow_mismatch''"

record CapsuleMessage =
  cm_Time :: gotime
  cm_Header :: header
  cm_Subject :: string
  cm_Data :: bytes
  cm_Sequence :: nat

record Capsule =
  ca_CreatedAt :: gotime
  ca_Fingerprint :: "BehaviorFingerprintKVPayload option"
  ca_ID :: string
  ca_Stream :: string
  ca_Consumer :: string
  ca_Trigger :: IncidentTrigger
  ca_Subject :: string
  ca_Reason :: string
  ca_Messages :: "CapsuleMessage list"
  ca_FlightTimeline :: "IncidentEvent list"
  ca_FailingSeq :: nat
  ca_SchemaVersion :: int

record IncidentCapture =
  ic_Redact :: "(CapsuleMessage \<Rightarrow> CapsuleMessage) option"
  ic_FlightRecorder :: "FlightRecorder option"
  ic_Fingerprint :: "BehaviorFingerprintKVPayload option"
  ic_Stream :: string
  ic_Consumer :: string
  ic_Subject :: string
  ic_Reason :: string
  ic_StoreBucket :: string
  ic_IndexBucket :: string
  ic_Trigger :: IncidentTrigger
  ic_FailingSeq :: nat
  ic_Window :: int

record 'w inc_env =
  nx_objects :: "'w obj_env"
  nx_kv :: "'w kv_env"
  nx_replay :: "'w js_env"
  nx_streams :: "'w js_env option"
  nx_nuid :: "'w \<Rightarrow> string \<times> 'w"
  nx_now :: "'w \<Rightarrow> gotime \<times> 'w"
  nx_Marshal :: "Capsule \<Rightarrow> bytes result"
  nx_Unmarshal :: "bytes \<Rightarrow> Capsule result"
  nx_ErrText :: "err \<Rightarrow> string"

definition capsule_cloneHeader :: "header \<Rightarrow> header" where
  "capsule_cloneHeader h = (case h of None \<Rightarrow> None | Some [] \<Rightarrow> None | Some kvs \<Rightarrow> Some kvs)"

definition incidentIndexKey :: "string \<Rightarrow> string \<Rightarrow> string \<Rightarrow> string" where
  "incidentIndexKey stream consumer ident = stream @ ''/'' @ consumer @ ''/'' @ ident"

section \<open>Capture\<close>

text \<open>The four parts of \<open>Capture\<close>: the capsule without messages, the messages, and storing both.\<close>

definition capsule_header :: "IncidentCapture \<Rightarrow> string \<Rightarrow> gotime \<Rightarrow> Capsule" where
  "capsule_header cfg ident now =
     \<lparr> ca_CreatedAt = now, ca_Fingerprint = ic_Fingerprint cfg, ca_ID = ident, ca_Stream = ic_Stream cfg,
       ca_Consumer = ic_Consumer cfg, ca_Trigger = (if ic_Trigger cfg = [] then TriggerManual else ic_Trigger cfg),
       ca_Subject = ic_Subject cfg, ca_Reason = ic_Reason cfg, ca_Messages = [],
       ca_FlightTimeline = (case ic_FlightRecorder cfg of None \<Rightarrow> [] | Some r \<Rightarrow> Snapshot r),
       ca_FailingSeq = ic_FailingSeq cfg, ca_SchemaVersion = capsuleSchemaVersion \<rparr>"

definition capture_seq :: "'w inc_env \<Rightarrow> IncidentCapture \<Rightarrow> 'w \<Rightarrow> nat \<times> 'w" where
  "capture_seq env cfg w =
     (case (if ic_FailingSeq cfg = 0 then nx_streams env else None) of
        None \<Rightarrow> (ic_FailingSeq cfg, w)
      | Some js \<Rightarrow>
          (case StreamInfo js (ic_Stream cfg) w of
             (Inl _, w1) \<Rightarrow> (0, w1)
           | (Inr info, w1) \<Rightarrow> (si_LastSeq info, w1)))"

definition capture_message :: "IncidentCapture \<Rightarrow> StoredMessage \<Rightarrow> CapsuleMessage" where
  "capture_message cfg m =
     (let cm = \<lparr> cm_Time = sm_Time m, cm_Header = capsule_cloneHeader (sm_Header m), cm_Subject = sm_Subject m,
                 cm_Data = sm_Data m, cm_Sequence = sm_Sequence m \<rparr> in
      case ic_Redact cfg of None \<Rightarrow> cm | Some f \<Rightarrow> f cm)"

definition capture_messages ::
  "'w inc_env \<Rightarrow> IncidentCapture \<Rightarrow> nat \<Rightarrow> int \<Rightarrow> 'w \<Rightarrow> (CapsuleMessage list result \<times> 'w) option" where
  "capture_messages env cfg failingSeq window w =
     (if failingSeq = 0 then Some (Inr [], w)
      else
        let half = nat (go_div window 2);
            start = (if failingSeq > half then failingSeq - half else 1);
            end1 = u64 (failingSeq + half) in
        (case GetMsgRange (nx_replay env) (ic_Stream cfg) start end1 [Some (WithMaxMessages window)] w of
           None \<Rightarrow> None
         | Some (Inl e, w1) \<Rightarrow> Some (Inl (wrap1 ''incident capture range: %w'' e), w1)
         | Some (Inr (msgs, _), w1) \<Rightarrow> Some (Inr (map (capture_message cfg) msgs), w1)))"

text \<open>
  The object bucket is created first; a failure, say since it exists, is ignored. The index entry is
  written last, and a failure to do so is ignored as well.
\<close>

definition object_bucket :: "string \<Rightarrow> ObjectStoreConfig" where
  "object_bucket b = \<lparr> oc_Bucket = b, oc_Description = [], oc_TTL = 0, oc_MaxBytes = 0, oc_Storage = 0, oc_Replicas = 0 \<rparr>"

definition index_bucket :: "string \<Rightarrow> KeyValueConfig" where
  "index_bucket b = \<lparr> kc_Bucket = b, kc_Description = [], kc_TTL = 0, kc_MaxBytes = 0, kc_Storage = 0, kc_Replicas = 0,
     kc_History = 1, kc_Compression = False \<rparr>"

definition capture_store ::
  "'w inc_env \<Rightarrow> string \<Rightarrow> string \<Rightarrow> Capsule \<Rightarrow> 'w \<Rightarrow> Capsule result \<times> 'w" where
  "capture_store env store index capsule w =
     (case nx_Marshal env capsule of
        Inl e \<Rightarrow> (Inl (wrap1 ''incident capture marshal: %w'' e), w)
      | Inr raw \<Rightarrow>
          let w1 = snd (object_Create (nx_objects env) (object_bucket store) w) in
          (case object_Put (nx_objects env) store (ca_ID capsule) raw w1 of
             (Inl e, w2) \<Rightarrow> (Inl (wrap1 ''incident capture put object: %w'' e), w2)
           | (Inr _, w2) \<Rightarrow>
               let w3 = snd (kv_CreateOrUpdate (nx_kv env) (index_bucket index) w2);
                   key = incidentIndexKey (ca_Stream capsule) (ca_Consumer capsule) (ca_ID capsule) in
               (Inr capsule, snd (kvm_Put (nx_kv env) index key (ca_ID capsule) w3))))"

definition capture_store_bucket :: "IncidentCapture \<Rightarrow> string" where
  "capture_store_bucket cfg = (if IsEmpty (ic_StoreBucket cfg) then DefaultIncidentCapsuleBucket else ic_StoreBucket cfg)"

definition Capture :: "'w inc_env \<Rightarrow> IncidentCapture \<Rightarrow> 'w \<Rightarrow> (Capsule result \<times> 'w) option" where
  "Capture env cfg w =
     (case ValidateStreamName (ic_Stream cfg) of
        Some e \<Rightarrow> Some (Inl (wrap1 ''incident capture: %w'' e), w)
      | None \<Rightarrow>
          if IsEmpty (ic_Consumer cfg) then Some (Inl (EMsg ''incident capture: consumer required''), w)
          else
            let window = (if ic_Window cfg \<le> 0 then defaultCapsuleWindow else ic_Window cfg);
                index = (if IsEmpty (ic_IndexBucket cfg) then DefaultIncidentIndexBucket else ic_IndexBucket cfg) in
            (case nx_nuid env w of (ident, w1) \<Rightarrow>
             case nx_now env w1 of (t, w2) \<Rightarrow>
             case capture_seq env cfg w2 of (failingSeq, w3) \<Rightarrow>
             case capture_messages env cfg failingSeq window w3 of
               None \<Rightarrow> None
             | Some (Inl e, w4) \<Rightarrow> Some (Inl e, w4)
             | Some (Inr cms, w4) \<Rightarrow>
                 Some (capture_store env (capture_store_bucket cfg) index
                   ((capsule_header cfg ident t)\<lparr> ca_FailingSeq := failingSeq, ca_Messages := cms \<rparr>) w4)))"

section \<open>Load, list, replay\<close>

definition Load :: "'w inc_env \<Rightarrow> string \<Rightarrow> string \<Rightarrow> 'w \<Rightarrow> Capsule result \<times> 'w" where
  "Load env bucket ident w =
     (case object_Get (nx_objects env) (if IsEmpty bucket then DefaultIncidentCapsuleBucket else bucket) ident w of
        (Inl e, w1) \<Rightarrow> (Inl (wrap1 ''incident load: %w'' e), w1)
      | (Inr entry, w1) \<Rightarrow>
          (case nx_Unmarshal env (oe_Data entry) of
             Inl e \<Rightarrow> (Inl (wrap1 ''incident load decode: %w'' e), w1)
           | Inr loaded \<Rightarrow> (Inr loaded, w1)))"

definition incidents_List ::
  "'w inc_env \<Rightarrow> string \<Rightarrow> string \<Rightarrow> string \<Rightarrow> 'w \<Rightarrow> (string list result \<times> 'w) option" where
  "incidents_List env stream consumer indexBucket w =
     (let bucket = (if IsEmpty indexBucket then DefaultIncidentIndexBucket else indexBucket);
          pre = stream @ ''/'' @ consumer @ ''/'' in
      case ListKeys (nx_kv env) bucket 0 (- 1) w of
        None \<Rightarrow> None
      | Some (Inl e, w1) \<Rightarrow> Some (Inl (wrap1 ''incident list keys: %w'' e), w1)
      | Some (Inr (ks, _), w1) \<Rightarrow>
          Some (Inr (map (drop (length pre)) (filter (\<lambda>k. length pre \<le> length k \<and> take (length pre) k = pre) ks)), w1))"

definition capsule_msg :: "CapsuleMessage \<Rightarrow> msg" where
  "capsule_msg cm = \<lparr> msg_Subject = cm_Subject cm, msg_Reply = [], msg_Data = cm_Data cm,
     msg_Header = capsule_cloneHeader (cm_Header cm), msg_Metadata = None \<rparr>"

fun replay_messages :: "'w MsgHandler \<Rightarrow> CapsuleMessage list \<Rightarrow> 'w \<Rightarrow> err option \<times> 'w" where
  "replay_messages handler [] w = (None, w)"
| "replay_messages handler (cm # cms) w =
     (case invokeMsgHandler handler (capsule_msg cm) w of
        (Some e, w1) \<Rightarrow> (Some (wrap1 ''incident replay seq=%d subject=%q: %w'' e), w1)
      | (None, w1) \<Rightarrow> replay_messages handler cms w1)"

definition ReplayLocal :: "Capsule option \<Rightarrow> 'w MsgHandler option \<Rightarrow> 'w \<Rightarrow> err option \<times> 'w" where
  "ReplayLocal capsule handler w =
     (case capsule of
        None \<Rightarrow> (Some (EMsg ''incident replay: nil capsule''), w)
      | Some capsule \<Rightarrow>
          (case handler of
             None \<Rightarrow> (Some (EMsg ''incident replay: nil handler''), w)
           | Some handler \<Rightarrow> replay_messages handler (ca_Messages capsule) w))"

section \<open>Automatic capture\<close>

record 'w CapsuleAutoConfig =
  au_StoreBucket :: string
  au_IndexBucket :: string
  au_Window :: int
  au_FlightRecorder :: "FlightRecorder option"
  au_OnReady :: "(Capsule \<Rightarrow> 'w \<Rightarrow> 'w) option"
  au_Redact :: "(CapsuleMessage \<Rightarrow> CapsuleMessage) option"
  au_Enabled :: bool

definition redacted_keys :: "string list" where
  "redacted_keys = [''Authorization'', ''Nats-Api-Token'', ''Cookie'', ''X-Api-Key'']"

definition defaultCapsuleRedact :: "CapsuleMessage \<Rightarrow> CapsuleMessage" where
  "defaultCapsuleRedact m =
     (case cm_Header m of
        None \<Rightarrow> m
      | Some kvs \<Rightarrow>
          m\<lparr> cm_Header := fold (\<lambda>key h. if header_lookup h key \<noteq> None then header_Set h key [''[redacted]''] else h)
               redacted_keys (Some kvs) \<rparr>)"

definition capsule_auto_defaults :: "'w CapsuleAutoConfig \<Rightarrow> 'w CapsuleAutoConfig" where
  "capsule_auto_defaults cfg =
     cfg\<lparr> au_Window := (if au_Window cfg \<le> 0 then defaultCapsuleWindow else au_Window cfg),
          au_StoreBucket := (if au_StoreBucket cfg = [] then DefaultIncidentCapsuleBucket else au_StoreBucket cfg),
          au_IndexBucket := (if au_IndexBucket cfg = [] then DefaultIncidentIndexBucket else au_IndexBucket cfg),
          au_Redact := (case au_Redact cfg of None \<Rightarrow> Some defaultCapsuleRedact | Some f \<Rightarrow> Some f) \<rparr>"

definition auto_request ::
  "'w CapsuleAutoConfig \<Rightarrow> string \<Rightarrow> string \<Rightarrow> IncidentTrigger \<Rightarrow> nat \<Rightarrow> string \<Rightarrow> string \<Rightarrow> IncidentCapture" where
  "auto_request cfg stream durable trigger seq subject reason =
     \<lparr> ic_Redact = au_Redact cfg, ic_FlightRecorder = au_FlightRecorder cfg, ic_Fingerprint = None, ic_Stream = stream,
       ic_Consumer = durable, ic_Subject = subject, ic_Reason = reason, ic_StoreBucket = au_StoreBucket cfg,
       ic_IndexBucket = au_IndexBucket cfg, ic_Trigger = trigger, ic_FailingSeq = seq, ic_Window = au_Window cfg \<rparr>"

text \<open>The capture of a request, with the callback when it succeeded; its error is dropped.\<close>

definition run_capture :: "'w inc_env \<Rightarrow> 'w CapsuleAutoConfig \<Rightarrow> IncidentCapture \<Rightarrow> 'w \<Rightarrow> 'w option" where
  "run_capture env cfg req w =
     (case Capture env req w of
        None \<Rightarrow> None
      | Some (Inl _, w1) \<Rightarrow> Some w1
      | Some (Inr capsule, w1) \<Rightarrow> Some (case au_OnReady cfg of None \<Rightarrow> w1 | Some f \<Rightarrow> f capsule w1))"

text \<open>A \<open>CapsuleAuto\<close> remembers a stream and a durable; \<open>ct_nil\<close>: it has no client.\<close>

record 'w CapsuleAuto =
  ct_cfg :: "'w CapsuleAutoConfig"
  ct_stream :: string
  ct_durable :: string
  ct_nil :: bool

definition NewCapsuleAuto :: "bool \<Rightarrow> string \<Rightarrow> string \<Rightarrow> 'w CapsuleAutoConfig \<Rightarrow> 'w CapsuleAuto" where
  "NewCapsuleAuto nil stream durable cfg =
     \<lparr> ct_cfg = capsule_auto_defaults cfg, ct_stream = stream, ct_durable = durable, ct_nil = nil \<rparr>"

definition auto_capture ::
  "'w inc_env \<Rightarrow> 'w CapsuleAuto \<Rightarrow> IncidentTrigger \<Rightarrow> nat \<Rightarrow> string \<Rightarrow> string \<Rightarrow> 'w \<Rightarrow> 'w option" where
  "auto_capture env a trigger seq subject reason w =
     (if \<not> au_Enabled (ct_cfg a) \<or> ct_nil a then Some w
      else run_capture env (ct_cfg a) (auto_request (ct_cfg a) (ct_stream a) (ct_durable a) trigger seq subject reason) w)"

definition auto_learn :: "string \<Rightarrow> string \<Rightarrow> 'w CapsuleAuto \<Rightarrow> 'w CapsuleAuto" where
  "auto_learn stream consumer a =
     a\<lparr> ct_stream := (if stream \<noteq> [] then stream else ct_stream a),
        ct_durable := (if consumer \<noteq> [] then consumer else ct_durable a) \<rparr>"

definition auto_RecordDLQ ::
  "'w inc_env \<Rightarrow> string \<Rightarrow> string \<Rightarrow> string \<Rightarrow> string \<Rightarrow> nat \<Rightarrow> 'w CapsuleAuto \<times> 'w \<Rightarrow> ('w CapsuleAuto \<times> 'w) option" where
  "auto_RecordDLQ env subject stream consumer reason seq = (\<lambda>(a, w).
     let a1 = auto_learn stream consumer a in
     map_option (Pair a1) (auto_capture env a1 TriggerDLQ seq subject reason w))"

definition auto_RecordShadow ::
  "'w inc_env \<Rightarrow> string \<Rightarrow> string \<Rightarrow> string \<Rightarrow> 'w CapsuleAuto \<times> 'w \<Rightarrow> ('w CapsuleAuto \<times> 'w) option" where
  "auto_RecordShadow env detail subject err = (\<lambda>(a, w).
     map_option (Pair a) (auto_capture env a TriggerShadowMismatch 0 subject
       (if err \<noteq> [] then detail @ '': '' @ err else detail) w))"

definition auto_OnAnomaly ::
  "'w inc_env \<Rightarrow> BehaviorAnomalyEvent \<Rightarrow> 'w CapsuleAuto \<times> 'w \<Rightarrow> ('w CapsuleAuto \<times> 'w) option" where
  "auto_OnAnomaly env ev = (\<lambda>(a, w).
     let a1 = auto_learn (be_Stream ev) (be_Durable ev) a in
     map_option (Pair a1) (auto_capture env a1 TriggerAnomaly 0 [] ''behavior_fingerprint_anomaly'' w))"

text \<open>\<open>AttachToHandler\<close>: a panic of the handler passes through; \<^const>\<open>None\<close> is a capture that does not return.\<close>

definition AttachToHandler ::
  "'w inc_env \<Rightarrow> string \<Rightarrow> string \<Rightarrow> 'w CapsuleAutoConfig \<Rightarrow> 'w MsgHandler \<Rightarrow> msg \<Rightarrow> 'w \<Rightarrow> (handler_result \<times> 'w) option" where
  "AttachToHandler env stream durable cfg handler m w =
     (let cfg = capsule_auto_defaults cfg in
      case handler m w of
        (HReturn (Some e), w1) \<Rightarrow>
          if \<not> au_Enabled cfg then Some (HReturn (Some e), w1)
          else
            let (seq, s, d) = (case msg_Metadata m of
                None \<Rightarrow> (0, stream, durable)
              | Some meta \<Rightarrow> (md_StreamSeq meta, if stream = [] then md_Stream meta else stream,
                  if durable = [] then md_Consumer meta else durable)) in
            map_option (Pair (HReturn (Some e)))
              (run_capture env cfg (auto_request cfg s d TriggerManual seq (msg_Subject m) (nx_ErrText env e)) w1)
      | (r, w1) \<Rightarrow> Some (r, w1))"

section \<open>What a capsule holds\<close>

lemma in_range_at:
  assumes "lo \<le> f" "f \<le> hi" "C f = Some raw"
  shows "\<exists>xs ys. in_range C lo hi = xs @ storedMessageFromRaw raw # ys \<and> length xs \<le> f - lo"
proof -
  have "[lo..<Suc hi] = [lo..<f] @ f # [Suc f..<Suc hi]"
    using assms(1,2) upt_add_eq_append [of lo f "Suc hi - f"] upt_conv_Cons [of f "Suc hi"] by simp
  then have "in_range C lo hi = map (\<lambda>s. storedMessageFromRaw (the (C s))) (filter (\<lambda>s. C s \<noteq> None) [lo..<f])
      @ storedMessageFromRaw raw # map (\<lambda>s. storedMessageFromRaw (the (C s))) (filter (\<lambda>s. C s \<noteq> None) [Suc f..<Suc hi])"
    using assms(3) by (simp add: in_range_def)
  moreover have "length (filter (\<lambda>s. C s \<noteq> None) [lo..<f]) \<le> f - lo" by (metis length_filter_le length_upt)
  ultimately show ?thesis by (metis length_map)
qed

text \<open>The window around a sequence, and the messages a capsule of it holds.\<close>

definition window_start :: "nat \<Rightarrow> int \<Rightarrow> nat" where
  "window_start f window = (if f > nat (window div 2) then f - nat (window div 2) else 1)"

definition capsule_window ::
  "IncidentCapture \<Rightarrow> (nat \<Rightarrow> RawStreamMsg option) \<Rightarrow> nat \<Rightarrow> int \<Rightarrow> CapsuleMessage list" where
  "capsule_window cfg C f window =
     map (capture_message cfg) (take (nat window) (in_range C (window_start f window) (f + nat (window div 2))))"

lemma capsule_window_failing:
  assumes "C f = Some raw" "0 < f" "0 < window"
  shows "capture_message cfg (storedMessageFromRaw raw) \<in> set (capsule_window cfg C f window)"
proof -
  have lo: "window_start f window \<le> f" "f - window_start f window < nat window"
    using assms(2,3) by (auto simp: window_start_def)
  obtain xs ys where x: "in_range C (window_start f window) (f + nat (window div 2)) = xs @ storedMessageFromRaw raw # ys"
      "length xs \<le> f - window_start f window"
    using in_range_at [of "window_start f window" f "f + nat (window div 2)" C raw] lo assms(1) by auto
  then have "storedMessageFromRaw raw \<in> set (take (nat window) (in_range C (window_start f window) (f + nat (window div 2))))"
    using lo by (cases "nat window - length xs") auto
  then show ?thesis by (simp add: capsule_window_def)
qed

lemma capture_messages_window:
  assumes reads: "reads_ok (nx_replay env) (ic_Stream cfg) S" and stream: "ValidateStreamName (ic_Stream cfg) = None"
    and f: "0 < f" "0 < window" "f + nat (window div 2) < 2 ^ 64"
  shows "\<exists>w'. S w' = S w \<and> capture_messages env cfg f window w = Some (Inr (capsule_window cfg (S w) f window), w')"
proof -
  let ?start = "window_start f window" and ?finish = "f + nat (window div 2)"
  have half: "nat (go_div window 2) = nat (window div 2)" using f by (simp add: go_div_nonneg)
  have max: "nat (applyMsgRangeOpts [Some (WithMaxMessages window)]) = nat window"
    using f by (simp add: applyMsgRangeOpts_def apply_opts_def WithMaxMessages_def)
  have "0 < ?start" "?start \<le> ?finish" using f by (auto simp: window_start_def)
  from GetMsgRange_stored [OF reads stream this, of w "[Some (WithMaxMessages window)]"] obtain w' b
    where r: "S w' = S w" "GetMsgRange (nx_replay env) (ic_Stream cfg) ?start ?finish [Some (WithMaxMessages window)] w
      = Some (Inr (take (nat window) (in_range (S w) ?start ?finish), b), w')"
    using max by (auto simp: Let_def)
  have "capture_messages env cfg f window w = Some (Inr (capsule_window cfg (S w) f window), w')"
    using r(2) f half by (simp add: capture_messages_def capsule_window_def window_start_def Let_def)
  with r(1) show ?thesis by blast
qed

text \<open>
  C27. A capsule holds the stored messages around the failing one, half of the window before it and half
  after it, redacted, in order and at most as many as the window; the failing message is among them
  whenever the stream still has it. \<open>Capture\<close> returns, and what it returns is the outcome of storing
  that capsule.
\<close>

theorem capture_holds_window:
  assumes reads: "reads_ok (nx_replay env) (ic_Stream cfg) S"
    and quiet: "\<And>w. S (snd (nx_nuid env w)) = S w" "\<And>w. S (snd (nx_now env w)) = S w"
    and args: "ValidateStreamName (ic_Stream cfg) = None" "\<not> IsEmpty (ic_Consumer cfg)" "0 < ic_FailingSeq cfg"
    and window: "window = (if ic_Window cfg \<le> 0 then 50 else ic_Window cfg)"
      "ic_FailingSeq cfg + nat (window div 2) < 2 ^ 64"
  shows "\<exists>ident t index w'. S w' = S w \<and> Capture env cfg w = Some (capture_store env (capture_store_bucket cfg) index
      ((capsule_header cfg ident t)\<lparr> ca_Messages := capsule_window cfg (S w) (ic_FailingSeq cfg) window \<rparr>) w')
    \<and> (\<forall>raw. S w (ic_FailingSeq cfg) = Some raw
         \<longrightarrow> capture_message cfg (storedMessageFromRaw raw) \<in> set (capsule_window cfg (S w) (ic_FailingSeq cfg) window))"
proof -
  obtain ident w1 where i: "nx_nuid env w = (ident, w1)" by (cases "nx_nuid env w")
  obtain t w2 where t: "nx_now env w1 = (t, w2)" by (cases "nx_now env w1")
  have S2: "S w2 = S w" using quiet i t by (metis snd_conv)
  have pos: "0 < window" using window(1) by simp
  have seq: "capture_seq env cfg w2 = (ic_FailingSeq cfg, w2)" using args(3) by (simp add: capture_seq_def)
  obtain w3 where m: "S w3 = S w2"
      "capture_messages env cfg (ic_FailingSeq cfg) window w2 = Some (Inr (capsule_window cfg (S w2) (ic_FailingSeq cfg) window), w3)"
    using capture_messages_window [OF reads args(1,3) pos window(2)] by blast
  define index where "index = (if IsEmpty (ic_IndexBucket cfg) then DefaultIncidentIndexBucket else ic_IndexBucket cfg)"
  have same: "(capsule_header cfg ident t)\<lparr> ca_FailingSeq := ic_FailingSeq cfg, ca_Messages := ms \<rparr>
      = (capsule_header cfg ident t)\<lparr> ca_Messages := ms \<rparr>" for ms
    by (simp add: capsule_header_def)
  have "Capture env cfg w = Some (capture_store env (capture_store_bucket cfg) index
      ((capsule_header cfg ident t)\<lparr> ca_Messages := capsule_window cfg (S w) (ic_FailingSeq cfg) window \<rparr>) w3)"
    unfolding Capture_def args(1) option.case window(1) [symmetric] index_def [symmetric]
    using args(2) i t seq m(2) S2 same by simp
  moreover have "S w3 = S w" using m(1) S2 by simp
  ultimately show ?thesis using capsule_window_failing [OF _ args(3) pos] by blast
qed

section \<open>Stored capsules\<close>

text \<open>The key-value buckets are other streams than the object stores: their calls change no object.\<close>

definition kv_keeps :: "'w kv_env \<Rightarrow> 'w obj_view \<Rightarrow> bool" where
  "kv_keeps kv V \<longleftrightarrow> (\<forall>f c w. kb_CreateOrUpdate kv = Some f \<longrightarrow> V (snd (f c w)) = V w)
     \<and> (\<forall>b w. V (snd (kb_Open kv b w)) = V w) \<and> (\<forall>b k v w. V (snd (kb_Put kv b k v w)) = V w)
     \<and> (\<forall>b k w. V (snd (kb_Get kv b k w)) = V w)"

lemma and_then_keeps:
  assumes "\<And>w. V (snd (call w)) = V w" "\<And>w. V (snd (k w)) = V w"
  shows "V (snd (and_then label call k w)) = V w"
  using assms by (auto simp: and_then_def split: prod.splits option.splits) (metis snd_conv)+

lemma guarded_keeps: "(\<And>w. V (snd (fn w)) = V w) \<Longrightarrow> V (snd (guarded e fn w)) = V w"
  by (simp add: guarded_def split: option.splits)

lemma kv_index_keeps:
  assumes kv: "kv_keeps kv V"
  shows "V (snd (kv_CreateOrUpdate kv cfg w)) = V w" "V (snd (kvm_Put kv b k v w)) = V w"
proof -
  have opens: "V (snd (kb_Open kv b w)) = V w" for b w using kv by (simp add: kv_keeps_def)
  show "V (snd (kv_CreateOrUpdate kv cfg w)) = V w"
    unfolding kv_CreateOrUpdate_def
    by (rule guarded_keeps, cases "kb_CreateOrUpdate kv")
      (use kv opens in \<open>simp_all add: kv_keeps_def and_then_keeps\<close>)
  have put: "V (snd (case kb_Put kv b k v w of (Inl e, w1) \<Rightarrow> (Inl (wrap1 l e), w1)
      | (Inr revision, w1) \<Rightarrow> map_prod (map_sum (wrap1 l') (kvEntryFrom b)) (\<lambda>w. w) (kb_Get kv b k w1))) = V w" for l l' w
    using kv unfolding kv_keeps_def by (auto split: prod.splits sum.splits) (metis snd_conv)+
  show "V (snd (kvm_Put kv b k v w)) = V w"
    unfolding kvm_Put_def by (intro guarded_keeps and_then_keeps opens put)
qed

lemma capture_store_stores:
  assumes laws: "obj_laws (nx_objects env) V" and kv: "kv_keeps (nx_kv env) V"
    and store: "capture_store env store index capsule w = (Inr c, w')"
  shows "c = capsule \<and> ValidateBucketName store = None \<and> \<not> IsEmpty (ca_ID capsule)
    \<and> (\<exists>raw t. nx_Marshal env capsule = Inr raw \<and> V w' (store, ca_ID capsule) = Some (raw, t))"
proof -
  obtain raw where raw: "nx_Marshal env capsule = Inr raw"
    using store by (auto simp: capture_store_def split: sum.splits)
  let ?w1 = "snd (object_Create (nx_objects env) (object_bucket store) w)"
  obtain e w2 where put: "object_Put (nx_objects env) store (ca_ID capsule) raw ?w1 = (Inr e, w2)"
    using store raw by (auto simp: capture_store_def Let_def split: sum.splits prod.splits)
  have w': "c = capsule" "V w' = V w2"
    using store raw put kv_index_keeps [OF kv] by (auto simp: capture_store_def Let_def)
  have args: "ValidateBucketName store = None" "\<not> IsEmpty (ca_ID capsule)"
    using put by (auto simp: object_Put_def guarded_def then_err_def empty_name_def split: option.splits if_splits)
  show ?thesis using raw w' args object_Put_stores [OF laws put] by auto
qed

lemma Capture_stores:
  assumes "Capture env cfg w = Some (Inr capsule, w')"
  obtains index c w1 where "capture_store env (capture_store_bucket cfg) index c w1 = (Inr capsule, w')"
  using assms by (auto simp: Capture_def Let_def split: option.splits if_splits prod.splits sum.splits)

text \<open>
  C26. A captured capsule can be loaded again: \<open>Load\<close> with its id, at any later point at which nobody
  replaced the object, gives the capsule \<open>Capture\<close> returned or an error, and it does give the capsule
  when the server answers and the encoded capsule has at most 64 MiB. The JSON coding has to restore
  this capsule.
\<close>

theorem capture_load_roundtrip:
  assumes laws: "obj_laws (nx_objects env) V" and kv: "kv_keeps (nx_kv env) V"
    and capture: "Capture env cfg w = Some (Inr capsule, w1)"
    and json: "nx_Marshal env capsule = Inr raw" "nx_Unmarshal env raw = Inr capsule"
    and later: "V w2 (capture_store_bucket cfg, ca_ID capsule) = V w1 (capture_store_bucket cfg, ca_ID capsule)"
    and load: "Load env (ic_StoreBucket cfg) (ca_ID capsule) w2 = (r, w3)"
  shows "(\<forall>c. r = Inr c \<longrightarrow> c = capsule)
    \<and> (length raw \<le> maxObjectGetBytes \<and> obj_available (nx_objects env) V (capture_store_bucket cfg) (ca_ID capsule)
         \<longrightarrow> r = Inr capsule)"
proof -
  let ?b = "capture_store_bucket cfg" and ?id = "ca_ID capsule"
  obtain index c wa where st: "capture_store env ?b index c wa = (Inr capsule, w1)"
    using Capture_stores [OF capture] .
  from capture_store_stores [OF laws kv st] json(1) later obtain t
    where v: "V w2 (?b, ?id) = Some (raw, t)" and args: "ValidateBucketName ?b = None" "\<not> IsEmpty ?id" by auto
  obtain q wq where q: "object_Get (nx_objects env) ?b ?id w2 = (q, wq)" by (cases "object_Get (nx_objects env) ?b ?id w2")
  have r: "r = (case q of Inl e \<Rightarrow> Inl (wrap1 ''incident load: %w'' e)
      | Inr entry \<Rightarrow> (case nx_Unmarshal env (oe_Data entry) of Inl e \<Rightarrow> Inl (wrap1 ''incident load decode: %w'' e) | Inr c \<Rightarrow> Inr c))"
    using load q by (auto simp: Load_def capture_store_bucket_def split: sum.splits prod.splits)
  have same: "oe_Data entry = raw" if "q = Inr entry" for entry
    using object_Get_reads [OF laws q] v that by simp
  have "r = Inr capsule" if "q = Inr entry" for entry using r same [OF that] that json(2) by simp
  moreover have "\<exists>entry. q = Inr entry" if "length raw \<le> maxObjectGetBytes" "obj_available (nx_objects env) V ?b ?id"
    using object_Get_available [OF laws that(2) v args that(1)] q by auto
  ultimately show ?thesis using r by (cases q) auto
qed

text \<open>
  The index is written under a key of three parts. The manager refuses a key with characters outside
  its alphabet, and only the stream's name was validated: such a capsule is stored but never listed.
\<close>

lemma index_refused:
  assumes "\<not> validKVKeyRe (incidentIndexKey stream consumer ident)"
  shows "snd (kvm_Put kv index (incidentIndexKey stream consumer ident) v w) = w"
  using kvm_Put_refused [OF assms] by (metis snd_conv)

text \<open>The default redaction replaces the values of the four credential headers and nothing else.\<close>

lemma redact_fold:
  "header_lookup (fold (\<lambda>key h. if header_lookup h key \<noteq> None then header_Set h key [''[redacted]''] else h) ks h) k =
     (if k \<in> set ks \<and> header_lookup h k \<noteq> None then Some [''[redacted]''] else header_lookup h k)"
proof (induction ks arbitrary: h)
  case (Cons a ks)
  then show ?case by (cases "k = a") auto
qed simp

lemma defaultCapsuleRedact_lookup:
  "header_lookup (cm_Header (defaultCapsuleRedact m)) k =
     (if k \<in> set redacted_keys \<and> header_lookup (cm_Header m) k \<noteq> None then Some [''[redacted]'']
      else header_lookup (cm_Header m) k)"
  using redact_fold [of redacted_keys "cm_Header m" k]
  by (cases "cm_Header m") (simp_all add: defaultCapsuleRedact_def)

text \<open>Attaching a capture changes nothing of what a handler returns.\<close>

lemma AttachToHandler_transparent:
  "AttachToHandler env stream durable cfg handler m w = Some (r, w') \<Longrightarrow> r = fst (handler m w)"
  by (auto simp: AttachToHandler_def Let_def split: prod.splits handler_result.splits option.splits if_splits)

text \<open>A dead letter of another stream redirects the captures of later shadow mismatches to that stream.\<close>

lemma auto_stream_sticky:
  assumes "auto_RecordDLQ env subject stream consumer reason seq (a, w) = Some (a', w')" "stream \<noteq> []"
  shows "ct_stream a' = stream"
  using assms by (auto simp: auto_RecordDLQ_def auto_learn_def Let_def)

section \<open>An instance\<close>

text \<open>
  A stream with three messages, objects in memory, a key-value bucket that refuses everything, and a
  coding that keeps one capsule.
\<close>

definition demo_kv :: "'w kv_env" where
  "demo_kv = \<lparr> kb_CreateOrUpdate = None, kb_Create = (\<lambda>_ w. (None, w)), kb_Open = (\<lambda>_ w. (Some (EMsg ''closed''), w)),
     kb_Delete = (\<lambda>_ w. (None, w)), kb_Names = (\<lambda>w. ([], w)), kb_Status = (\<lambda>_ w. (Inl (EMsg ''closed''), w)),
     kb_Keys = (\<lambda>_ w. (Inr [], w)), kb_Get = (\<lambda>_ _ w. (Inl (EMsg ''closed''), w)),
     kb_Put = (\<lambda>_ _ _ w. (Inl (EMsg ''closed''), w)), kb_DeleteKey = (\<lambda>_ _ w. (None, w)),
     kb_History = (\<lambda>_ _ w. (Inr [], w)) \<rparr>"

definition demo_capture :: IncidentCapture where
  "demo_capture = \<lparr> ic_Redact = None, ic_FlightRecorder = None, ic_Fingerprint = None, ic_Stream = ''S'', ic_Consumer = ''d'',
     ic_Subject = [], ic_Reason = [], ic_StoreBucket = ''b'', ic_IndexBucket = [], ic_Trigger = [], ic_FailingSeq = 4,
     ic_Window = 3 \<rparr>"

definition demo_stream :: "RawStreamMsg list" where
  "demo_stream = [raw_at 2 5, raw_at 4 7, raw_at 9 8]"

definition demo_capsule :: Capsule where
  "demo_capsule = (capsule_header demo_capture ''i'' 5)\<lparr> ca_Messages := capsule_window demo_capture (stored demo_stream ()) 4 3 \<rparr>"

definition demo_inc :: "mem_store inc_env" where
  "demo_inc = \<lparr> nx_objects = mem_env ''b'', nx_kv = demo_kv, nx_replay = stored_js demo_stream, nx_streams = None,
     nx_nuid = (\<lambda>w. (''i'', w)), nx_now = (\<lambda>w. (5, w)), nx_Marshal = (\<lambda>_. Inr ''c''),
     nx_Unmarshal = (\<lambda>_. Inr demo_capsule), nx_ErrText = (\<lambda>_. []) \<rparr>"

lemma demo_inc_reads: "reads_ok (nx_replay demo_inc) (ic_Stream demo_capture) (stored demo_stream)"
  by (simp add: demo_inc_def demo_capture_def demo_stream_def) (rule stored_reads, simp_all add: raw_at_def)

lemma demo_names: "ValidateStreamName ''S'' = None"
  by code_simp

lemma demo_kv_keeps: "kv_keeps demo_kv V"
  by (simp add: kv_keeps_def demo_kv_def)

lemma demo_store: "\<exists>w'. capture_store demo_inc ''b'' index demo_capsule w = (Inr demo_capsule, w')"
  by (simp add: capture_store_def demo_inc_def Let_def mem_eval demo_capsule_def capsule_header_def
      object_Create_def object_createRaw_def object_bucket_def wrapping_def split: prod.split)

lemma mem_available: "obj_available (mem_env b) (mem_view b) b n"
  by (auto simp: obj_available_def mem_env_def mem_view_def split: option.splits)

lemma demo_Capture: "\<exists>w'. Capture demo_inc demo_capture no_objects = Some (Inr demo_capsule, w')"
proof -
  let ?c = demo_capture
  have stream: "ValidateStreamName (ic_Stream ?c) = None" by (simp add: demo_capture_def demo_names)
  obtain w3 where m: "capture_messages demo_inc ?c 4 3 no_objects
      = Some (Inr (capsule_window ?c (stored demo_stream no_objects) 4 3), w3)"
    using capture_messages_window [OF demo_inc_reads stream, of 4 3 no_objects] by auto
  have "stored demo_stream no_objects = stored demo_stream ()" by (rule ext) (simp add: stored_def)
  moreover have "capture_seq demo_inc ?c no_objects = (4, no_objects)" by (simp add: capture_seq_def demo_capture_def)
  moreover have "nx_nuid demo_inc no_objects = (''i'', no_objects)" "nx_now demo_inc no_objects = (5, no_objects)"
    by (simp_all add: demo_inc_def)
  moreover have fields: "ic_Consumer ?c = ''d''" "ic_Window ?c = 3" "capture_store_bucket ?c = ''b''"
    by (simp_all add: demo_capture_def capture_store_bucket_def IsEmpty_def)
  moreover have "(capsule_header ?c ''i'' 5)\<lparr> ca_FailingSeq := 4, ca_Messages := capsule_window ?c (stored demo_stream ()) 4 3 \<rparr>
      = demo_capsule" by (simp add: demo_capsule_def capsule_header_def demo_capture_def)
  moreover obtain w' where "capture_store demo_inc ''b'' DefaultIncidentIndexBucket demo_capsule w3 = (Inr demo_capsule, w')"
    using demo_store by blast
  ultimately show ?thesis
    using m stream by (simp add: Capture_def IsEmpty_def) (simp add: demo_capture_def IsEmpty_def)
qed

theorem capture_holds_window_witness:
  "\<exists>r w'. Capture demo_inc demo_capture no_objects = Some (r, w')
     \<and> capture_message demo_capture (storedMessageFromRaw (raw_at 4 7))
         \<in> set (capsule_window demo_capture (stored demo_stream no_objects) 4 3)"
proof -
  have S: "stored demo_stream no_objects (ic_FailingSeq demo_capture) = Some (raw_at 4 7)"
    by (simp add: stored_def demo_stream_def demo_capture_def raw_at_def)
  have 1: "ValidateStreamName (ic_Stream demo_capture) = None" "\<not> IsEmpty (ic_Consumer demo_capture)"
      "0 < ic_FailingSeq demo_capture" "3 = (if ic_Window demo_capture \<le> 0 then 50 else ic_Window demo_capture)"
      "ic_FailingSeq demo_capture + nat (3 div 2) < 2 ^ 64" "ic_FailingSeq demo_capture = 4"
    by (simp_all add: demo_capture_def demo_names IsEmpty_def)
  have 2: "stored demo_stream (snd (nx_nuid demo_inc w)) = stored demo_stream w"
      "stored demo_stream (snd (nx_now demo_inc w)) = stored demo_stream w" for w
    by (simp_all add: demo_inc_def)
  show ?thesis
    using capture_holds_window [OF demo_inc_reads 2 1(1-5), of no_objects] S unfolding 1(6)
    by (metis prod.collapse)
qed

theorem capture_load_roundtrip_witness:
  "\<exists>w1 w3. Capture demo_inc demo_capture no_objects = Some (Inr demo_capsule, w1)
     \<and> Load demo_inc ''b'' ''i'' w1 = (Inr demo_capsule, w3)"
proof -
  obtain w1 where c: "Capture demo_inc demo_capture no_objects = Some (Inr demo_capsule, w1)" using demo_Capture by blast
  have ident: "ca_ID demo_capsule = ''i''" by (simp add: demo_capsule_def capsule_header_def)
  have b: "capture_store_bucket demo_capture = ''b''" "ic_StoreBucket demo_capture = ''b''"
    by (simp_all add: demo_capture_def capture_store_bucket_def IsEmpty_def)
  obtain r w3 where l: "Load demo_inc ''b'' ''i'' w1 = (r, w3)" by (cases "Load demo_inc ''b'' ''i'' w1")
  have "nx_Marshal demo_inc demo_capsule = Inr ''c''" "nx_Unmarshal demo_inc ''c'' = Inr demo_capsule"
      "obj_laws (nx_objects demo_inc) (mem_view ''b'')" "kv_keeps (nx_kv demo_inc) (mem_view ''b'')"
      "obj_available (nx_objects demo_inc) (mem_view ''b'') ''b'' ''i''"
    by (simp_all add: demo_inc_def mem_laws demo_kv_keeps mem_available)
  from capture_load_roundtrip [OF this(3,4) c this(1,2) refl, unfolded ident b, OF l] this(5)
  have "r = Inr demo_capsule" by simp
  with c l show ?thesis by blast
qed

end
