(* ===== verification/Setup.thy ===== *)
theory Setup
  imports Managers Consumer "HOL-Library.AList"
begin

text \<open>
  \<open>SetupWorker\<close> (\<open>setup.go\<close>): creating or updating a stream, subscribing a queue group with a durable,
  and bringing the durable's configuration up to date. It calls the stream and consumer managers and the
  push consumer; parameters beyond theirs are the server call of a queue subscription, \<open>Unsubscribe\<close> and
  the generator of inbox names.
\<close>

section \<open>Arguments\<close>

record WorkerSetup =
  ws_Queue :: string
  ws_Subject :: string
  ws_Stream :: StreamConfig
  ws_Consumer :: DurableConsumerConfig

record ('s, 'w) setup_env =
  su_js :: "'w js_env"
  su_consumer :: consumer
  su_runtime :: RuntimeConsumerConfig
  su_backpressure :: BackpressureConfig
  su_QueueSubscribe :: "string \<Rightarrow> string \<Rightarrow> sub_opt list \<Rightarrow> 'w \<Rightarrow> 's result \<times> 'w"
  su_Unsubscribe :: "'s \<Rightarrow> 'w \<Rightarrow> 'w"
  su_NewInbox :: "'w \<Rightarrow> string \<times> 'w"

definition setup_validate :: "WorkerSetup \<Rightarrow> err option" where
  "setup_validate setup =
     (let stream = s_Name (ws_Stream setup); cons = ws_Consumer setup;
          wrap = \<lambda>label. map_option (wrap1 label) in
      then_err (wrap ''setup worker stream=%q: %w'' (ValidateStreamName stream))
      (then_err (wrap ''setup worker durable=%q: %w'' (ValidateDurableName (cc_Durable cons)))
      (then_err (wrap ''setup worker queue=%q: %w'' (ValidateQueueName (ws_Queue setup)))
      (if cc_FilterSubjects cons \<noteq> [] then
         then_err (wrap ''setup worker filter subjects: %w'' (ValidateSubjects (cc_FilterSubjects cons)))
         (then_err (if \<not> IsEmpty (cc_FilterSubject cons)
                    then Some (EMsg ''setup worker: use FilterSubject or FilterSubjects, not both'') else None)
         (if \<not> IsEmpty (ws_Subject setup)
          then wrap ''setup worker subject=%q: %w'' (ValidateSubject (ws_Subject setup)) else None))
       else
         then_err (wrap ''setup worker subject=%q: %w'' (ValidateSubject (ws_Subject setup)))
         (if \<not> IsEmpty (cc_FilterSubject cons) \<and> cc_FilterSubject cons \<noteq> ws_Subject setup
          then Some (EMsg ''setup worker: Consumer.FilterSubject %q must equal Subject %q'') else None)))))"

definition setupWorkerSubOpts :: "DurableConsumerConfig \<Rightarrow> RuntimeConsumerConfig \<Rightarrow> BackpressureConfig \<Rightarrow> sub_opt list" where
  "setupWorkerSubOpts durable runtime bp =
     (let ackWait = (if cc_AckWait durable \<le> 0 then rc_AckWait runtime else cc_AckWait durable);
          maxAck = (if cc_MaxAckPending durable \<le> 0 then bp_MaxAckPending bp else cc_MaxAckPending durable) in
      (if ackWait > 0 then [AckWaitOpt ackWait] else []) @ (if maxAck > 0 then [MaxAckPendingOpt maxAck] else []))"

section \<open>The durable's configuration\<close>

text \<open>
  A change of one setting: when it is asked for (\<open>P\<close>) and differs, it is set and \<open>updated\<close> becomes
  true. The state is \<open>updated\<close> with the configuration.
\<close>

definition set_if ::
  "bool \<Rightarrow> (NatsConsumerConfig \<Rightarrow> NatsConsumerConfig) \<Rightarrow> bool \<times> NatsConsumerConfig \<Rightarrow> bool \<times> NatsConsumerConfig" where
  "set_if b f uc = (if b then (True, f (snd uc)) else uc)"

definition set_field ::
  "bool \<Rightarrow> (NatsConsumerConfig \<Rightarrow> 'a) \<Rightarrow> (('a \<Rightarrow> 'a) \<Rightarrow> NatsConsumerConfig \<Rightarrow> NatsConsumerConfig) \<Rightarrow> 'a
     \<Rightarrow> bool \<times> NatsConsumerConfig \<Rightarrow> bool \<times> NatsConsumerConfig" where
  "set_field P field update x uc = set_if (P \<and> field (snd uc) \<noteq> x) (update (\<lambda>_. x)) uc"

text \<open>\<open>cc.Metadata[k] != v\<close>: a missing key reads as the empty string.\<close>

definition metadata_get :: "NatsConsumerConfig \<Rightarrow> string \<Rightarrow> string" where
  "metadata_get cc k = (case map_of (cc_Metadata cc) k of None \<Rightarrow> [] | Some v \<Rightarrow> v)"

definition metadata_step :: "string \<times> string \<Rightarrow> bool \<times> NatsConsumerConfig \<Rightarrow> bool \<times> NatsConsumerConfig" where
  "metadata_step kv uc =
     set_if (metadata_get (snd uc) (fst kv) \<noteq> snd kv)
       (\<lambda>cc. cc\<lparr> cc_Metadata := AList.update (fst kv) (snd kv) (cc_Metadata cc) \<rparr>) uc"

definition durable_limits :: "DurableConsumerConfig \<Rightarrow> bool \<times> NatsConsumerConfig \<Rightarrow> bool \<times> NatsConsumerConfig" where
  "durable_limits c =
     set_field (cc_MemoryStorage c) cc_MemoryStorage cc_MemoryStorage_update True
     \<circ> set_field (cc_Replicas c > 0) cc_Replicas cc_Replicas_update (cc_Replicas c)
     \<circ> set_field (cc_InactiveThreshold c > 0) cc_InactiveThreshold cc_InactiveThreshold_update (cc_InactiveThreshold c)
     \<circ> set_field (cc_RateLimit c > 0) cc_RateLimit cc_RateLimit_update (cc_RateLimit c)
     \<circ> set_field (cc_MaxDeliver c > 0) cc_MaxDeliver cc_MaxDeliver_update (cc_MaxDeliver c)"

definition durable_waits :: "DurableConsumerConfig \<Rightarrow> bool \<times> NatsConsumerConfig \<Rightarrow> bool \<times> NatsConsumerConfig" where
  "durable_waits c =
     set_field (dc_HasReplayPolicy c) cc_ReplayPolicy cc_ReplayPolicy_update (cc_ReplayPolicy c)
     \<circ> set_field (dc_HasAckPolicy c) cc_AckPolicy cc_AckPolicy_update (cc_AckPolicy c)
     \<circ> set_field (cc_MaxWaiting c > 0) cc_MaxWaiting cc_MaxWaiting_update (cc_MaxWaiting c)
     \<circ> set_field (cc_Heartbeat c > 0) cc_Heartbeat cc_Heartbeat_update (cc_Heartbeat c)
     \<circ> set_field (cc_AckWait c > 0) cc_AckWait cc_AckWait_update (cc_AckWait c)
     \<circ> set_field (cc_MaxAckPending c > 0) cc_MaxAckPending cc_MaxAckPending_update (cc_MaxAckPending c)"

text \<open>\<open>equalStringSlices\<close> is equality of lists.\<close>

definition durable_filters :: "WorkerSetup \<Rightarrow> bool \<times> NatsConsumerConfig \<Rightarrow> bool \<times> NatsConsumerConfig" where
  "durable_filters setup uc =
     (let c = ws_Consumer setup in
      if cc_FilterSubjects c \<noteq> [] then
        set_if (cc_FilterSubjects (snd uc) \<noteq> cc_FilterSubjects c)
          (\<lambda>cc. cc\<lparr> cc_FilterSubjects := cc_FilterSubjects c, cc_FilterSubject := [] \<rparr>) uc
      else
        set_if (\<not> IsEmpty (ws_Subject setup) \<and> cc_FilterSubject (snd uc) \<noteq> ws_Subject setup \<and> cc_FilterSubjects (snd uc) = [])
          (\<lambda>cc. cc\<lparr> cc_FilterSubject := ws_Subject setup \<rparr>) uc)"

definition durable_config :: "WorkerSetup \<Rightarrow> NatsConsumerConfig \<Rightarrow> (bool \<times> NatsConsumerConfig) result" where
  "durable_config setup cc =
     (let c = ws_Consumer setup;
          uc = durable_waits c (fold metadata_step (cc_Metadata c) (durable_limits c (False, cc))) in
      if dc_HasDeliverPolicy c \<and> cc_DeliverPolicy (snd uc) \<noteq> cc_DeliverPolicy c
      then Inl (wrap1 ''setup worker durable=%q: %w (deliver policy)'' (ESent ErrConsumerRecreateRequired))
      else Inr (durable_filters setup uc))"

definition applySetupDurableConfig :: "('s, 'w) setup_env \<Rightarrow> WorkerSetup \<Rightarrow> 'w \<Rightarrow> err option \<times> 'w" where
  "applySetupDurableConfig env setup w =
     (case ConsumerInfo (su_js env) (s_Name (ws_Stream setup)) (cc_Durable (ws_Consumer setup)) w of
        (Inl e, w1) \<Rightarrow> (Some (wrap1 ''setup worker consumer info stream=%q durable=%q: %w'' e), w1)
      | (Inr cc, w1) \<Rightarrow>
          (case durable_config setup cc of
             Inl e \<Rightarrow> (Some e, w1)
           | Inr (updated, cc1) \<Rightarrow>
               if \<not> updated then (None, w1)
               else
                 (case UpdateConsumer (su_js env) (s_Name (ws_Stream setup)) (Some cc1) w1 of
                    (Inl e, w2) \<Rightarrow> (Some (wrap1 ''setup worker update consumer stream=%q durable=%q: %w'' e), w2)
                  | (Inr _, w2) \<Rightarrow> (None, w2))))"

section \<open>Setting up\<close>

text \<open>
  \<open>QueueSubscribe\<close> of the push consumer around the server call, which takes effect on the world: the
  options it would pass are computed first.
\<close>

definition setup_subscribe ::
  "('s, 'w) setup_env \<Rightarrow> string \<Rightarrow> string \<Rightarrow> sub_opt list \<Rightarrow> 'w \<Rightarrow> 's result \<times> 'w" where
  "setup_subscribe env queue subject opts w =
     (case QueueSubscribe (su_consumer env) (\<lambda>_ _ opts. Inr opts) queue subject opts of
        Inl e \<Rightarrow> (Inl e, w)
      | Inr (opts1, _) \<Rightarrow>
          (case su_QueueSubscribe env queue subject opts1 w of
             (Inl e, w1) \<Rightarrow> (Inl (wrap1 ''queue subscribe: %w'' e), w1)
           | (Inr sub, w1) \<Rightarrow> (Inr sub, w1)))"

text \<open>
  Both ways end alike: a durable that cannot be brought up to date ends the subscription. The goroutine of
  \<open>drainOnCancel\<close> acts after the return.
\<close>

definition setup_finish :: "('s, 'w) setup_env \<Rightarrow> WorkerSetup \<Rightarrow> string \<Rightarrow> 's result \<times> 'w \<Rightarrow> 's result \<times> 'w" where
  "setup_finish env setup label r =
     (case r of
        (Inl e, w) \<Rightarrow> (Inl (wrap1 label e), w)
      | (Inr sub, w) \<Rightarrow>
          (case applySetupDurableConfig env setup w of
             (Some e, w1) \<Rightarrow> (Inl e, su_Unsubscribe env sub w1)
           | (None, w1) \<Rightarrow> (Inr sub, w1)))"

definition setupWorkerMultiFilter :: "('s, 'w) setup_env \<Rightarrow> WorkerSetup \<Rightarrow> 'w \<Rightarrow> 's result \<times> 'w" where
  "setupWorkerMultiFilter env setup w =
     (let c = ws_Consumer setup; stream = s_Name (ws_Stream setup) in
      case (if IsEmpty (cc_DeliverSubject c) then su_NewInbox env w else (cc_DeliverSubject c, w)) of
        (deliver, w1) \<Rightarrow>
          let cfg = c\<lparr> cc_DeliverSubject := deliver,
                       cc_DeliverGroup := (if IsEmpty (cc_DeliverGroup c) then ws_Queue setup else cc_DeliverGroup c),
                       cc_AckWait := (if cc_AckWait c \<le> 0 then rc_AckWait (su_runtime env) else cc_AckWait c),
                       cc_MaxAckPending := (if cc_MaxAckPending c \<le> 0 then bp_MaxAckPending (su_backpressure env)
                                            else cc_MaxAckPending c) \<rparr> in
          (case CreateOrUpdateConsumer (su_js env) stream cfg w1 of
             (Inl e, w2) \<Rightarrow> (Inl (wrap1 ''setup worker create multi-filter durable=%q: %w'' e), w2)
           | (Inr _, w2) \<Rightarrow>
               setup_finish env setup ''setup worker bind multi-filter stream=%q durable=%q queue=%q: %w''
                 (setup_subscribe env (ws_Queue setup) deliver [BindOpt stream (cc_Durable c)] w2)))"

definition SetupWorker :: "('s, 'w) setup_env \<Rightarrow> WorkerSetup \<Rightarrow> 'w \<Rightarrow> 's result \<times> 'w" where
  "SetupWorker env setup w =
     (case setup_validate setup of
        Some e \<Rightarrow> (Inl e, w)
      | None \<Rightarrow>
          (case CreateOrUpdateStream (su_js env) (ws_Stream setup) w of
             (Inl e, w1) \<Rightarrow> (Inl (wrap1 ''setup worker create stream=%q: %w'' e), w1)
           | (Inr _, w1) \<Rightarrow>
               if cc_FilterSubjects (ws_Consumer setup) \<noteq> [] then setupWorkerMultiFilter env setup w1
               else
                 setup_finish env setup ''setup worker subscribe stream=%q durable=%q queue=%q subject=%q: %w''
                   (setup_subscribe env (ws_Queue setup) (ws_Subject setup)
                      (setupWorkerSubOpts (ws_Consumer setup) (su_runtime env) (su_backpressure env)
                       @ [BindStreamOpt (s_Name (ws_Stream setup)), DurableOpt (cc_Durable (ws_Consumer setup))]) w1)))"

section \<open>The durable ends up as configured\<close>

text \<open>What the setup asks of the durable, setting by setting, in the groups the code changes them.\<close>

definition limits_meet :: "DurableConsumerConfig \<Rightarrow> NatsConsumerConfig \<Rightarrow> bool" where
  "limits_meet c cc \<longleftrightarrow> (cc_MaxDeliver c > 0 \<longrightarrow> cc_MaxDeliver cc = cc_MaxDeliver c)
     \<and> (cc_RateLimit c > 0 \<longrightarrow> cc_RateLimit cc = cc_RateLimit c)
     \<and> (cc_InactiveThreshold c > 0 \<longrightarrow> cc_InactiveThreshold cc = cc_InactiveThreshold c)
     \<and> (cc_Replicas c > 0 \<longrightarrow> cc_Replicas cc = cc_Replicas c) \<and> (cc_MemoryStorage c \<longrightarrow> cc_MemoryStorage cc)"

definition metadata_meets :: "(string \<times> string) list \<Rightarrow> NatsConsumerConfig \<Rightarrow> bool" where
  "metadata_meets kvs cc \<longleftrightarrow> (\<forall>kv\<in>set kvs. metadata_get cc (fst kv) = snd kv)"

definition waits_meet :: "DurableConsumerConfig \<Rightarrow> NatsConsumerConfig \<Rightarrow> bool" where
  "waits_meet c cc \<longleftrightarrow> (cc_MaxAckPending c > 0 \<longrightarrow> cc_MaxAckPending cc = cc_MaxAckPending c)
     \<and> (cc_AckWait c > 0 \<longrightarrow> cc_AckWait cc = cc_AckWait c) \<and> (cc_Heartbeat c > 0 \<longrightarrow> cc_Heartbeat cc = cc_Heartbeat c)
     \<and> (cc_MaxWaiting c > 0 \<longrightarrow> cc_MaxWaiting cc = cc_MaxWaiting c)
     \<and> (dc_HasAckPolicy c \<longrightarrow> cc_AckPolicy cc = cc_AckPolicy c)
     \<and> (dc_HasReplayPolicy c \<longrightarrow> cc_ReplayPolicy cc = cc_ReplayPolicy c)"

text \<open>A durable that already has a list of filters keeps it when the setup names a single subject.\<close>

definition filters_meet :: "WorkerSetup \<Rightarrow> NatsConsumerConfig \<Rightarrow> bool" where
  "filters_meet setup cc \<longleftrightarrow>
     (if cc_FilterSubjects (ws_Consumer setup) \<noteq> [] then cc_FilterSubjects cc = cc_FilterSubjects (ws_Consumer setup)
      else IsEmpty (ws_Subject setup) \<or> cc_FilterSubject cc = ws_Subject setup \<or> cc_FilterSubjects cc \<noteq> [])"

definition durable_meets :: "WorkerSetup \<Rightarrow> NatsConsumerConfig \<Rightarrow> bool" where
  "durable_meets setup cc \<longleftrightarrow>
     (let c = ws_Consumer setup in
      limits_meet c cc \<and> metadata_meets (cc_Metadata c) cc \<and> waits_meet c cc \<and> filters_meet setup cc
      \<and> (dc_HasDeliverPolicy c \<longrightarrow> cc_DeliverPolicy cc = cc_DeliverPolicy c))"

text \<open>
  A group of changes: afterwards its settings are met; where they were met it changes nothing; and it
  reports a change when it made one.
\<close>

definition settles_on ::
  "(bool \<times> NatsConsumerConfig \<Rightarrow> bool \<times> NatsConsumerConfig) \<Rightarrow> (NatsConsumerConfig \<Rightarrow> bool) \<Rightarrow> bool" where
  "settles_on stage meet \<longleftrightarrow> (\<forall>uc. meet (snd (stage uc))) \<and> (\<forall>uc. meet (snd uc) \<longrightarrow> stage uc = uc)
     \<and> (\<forall>uc. \<not> fst (stage uc) \<longrightarrow> stage uc = uc)"

lemma settles_then:
  assumes "settles_on f p" "settles_on g q" "\<And>uc. p (snd uc) \<Longrightarrow> p (snd (g uc))"
  shows "settles_on (g \<circ> f) (\<lambda>cc. p cc \<and> q cc)"
  using assms unfolding settles_on_def comp_def by metis

lemma settles_cong: "settles_on f p \<Longrightarrow> (\<And>cc. p cc = q cc) \<Longrightarrow> settles_on f q"
  by (simp add: settles_on_def)

lemma set_field_settles:
  assumes "\<And>cc. field (update (\<lambda>_. x) cc) = x"
  shows "settles_on (set_field P field update x) (\<lambda>cc. P \<longrightarrow> field cc = x)"
  using assms by (auto simp: settles_on_def set_field_def set_if_def)

lemma set_field_other:
  "(\<And>cc. F (update (\<lambda>_. x) cc) = F cc) \<Longrightarrow> F (snd (set_field P field update x uc)) = F (snd uc)"
  by (simp add: set_field_def set_if_def)

lemmas set_field_frame =
  set_field_other [where F = cc_MaxDeliver]
  set_field_other [where F = cc_RateLimit]
  set_field_other [where F = cc_InactiveThreshold]
  set_field_other [where F = cc_Replicas]
  set_field_other [where F = cc_MemoryStorage]
  set_field_other [where F = cc_MaxAckPending]
  set_field_other [where F = cc_AckWait]
  set_field_other [where F = cc_Heartbeat]
  set_field_other [where F = cc_MaxWaiting]
  set_field_other [where F = cc_AckPolicy]
  set_field_other [where F = cc_ReplayPolicy]
  set_field_other [where F = cc_Metadata]
  set_field_other [where F = cc_Durable]
  set_field_other [where F = cc_DeliverPolicy]
  set_field_other [where F = cc_FilterSubject]
  set_field_other [where F = cc_FilterSubjects]

lemma limits_settle: "settles_on (durable_limits c) (limits_meet c)"
  unfolding durable_limits_def
  by (rule settles_cong, (rule settles_then, rule set_field_settles, simp)+, rule set_field_settles, simp,
      (simp add: set_field_frame; fail)+) (auto simp: limits_meet_def)

lemma waits_settle: "settles_on (durable_waits c) (waits_meet c)"
  unfolding durable_waits_def
  by (rule settles_cong, (rule settles_then, rule set_field_settles, simp)+, rule set_field_settles, simp,
      (simp add: set_field_frame; fail)+) (auto simp: waits_meet_def)

lemma metadata_get_update [simp]:
  "metadata_get (cc\<lparr> cc_Metadata := AList.update k v (cc_Metadata cc) \<rparr>) k' = (if k' = k then v else metadata_get cc k')"
  by (simp add: metadata_get_def update_conv')

lemma metadata_settle:
  "distinct (map fst kvs) \<Longrightarrow> settles_on (fold metadata_step kvs) (metadata_meets kvs)"
proof (induction kvs)
  case Nil
  then show ?case by (simp add: settles_on_def metadata_meets_def)
next
  case (Cons kv kvs)
  have step: "settles_on (metadata_step kv) (\<lambda>cc. metadata_get cc (fst kv) = snd kv)"
    by (auto simp: settles_on_def metadata_step_def set_if_def)
  have keep: "metadata_get (snd (fold metadata_step kvs uc)) (fst kv) = metadata_get (snd uc) (fst kv)"
    if "fst kv \<notin> fst ` set kvs" for kvs :: "(string \<times> string) list" and uc
    using that
  proof (induction kvs arbitrary: uc)
    case (Cons a kvs)
    then show ?case by (auto simp: metadata_step_def set_if_def)
  qed simp
  have "settles_on (fold metadata_step kvs \<circ> metadata_step kv) (\<lambda>cc. metadata_get cc (fst kv) = snd kv \<and> metadata_meets kvs cc)"
    using Cons keep [of kvs] by (intro settles_then [OF step]) auto
  moreover have "fold metadata_step (kv # kvs) = fold metadata_step kvs \<circ> metadata_step kv" by (simp add: fun_eq_iff)
  moreover have "metadata_meets (kv # kvs) = (\<lambda>cc. metadata_get cc (fst kv) = snd kv \<and> metadata_meets kvs cc)"
    by (simp add: fun_eq_iff metadata_meets_def)
  ultimately show ?case by (simp only:)
qed

lemma filters_settle: "settles_on (durable_filters setup) (filters_meet setup)"
  by (auto simp: settles_on_def durable_filters_def filters_meet_def set_if_def Let_def)

text \<open>What a group leaves alone.\<close>

lemma limits_frame:
  "cc_Metadata (snd (durable_limits c uc)) = cc_Metadata (snd uc)" "cc_Durable (snd (durable_limits c uc)) = cc_Durable (snd uc)"
  by (simp_all add: durable_limits_def set_field_frame)

lemma waits_frame:
  "cc_Metadata (snd (durable_waits c uc)) = cc_Metadata (snd uc)" "cc_Durable (snd (durable_waits c uc)) = cc_Durable (snd uc)"
  "limits_meet d (snd uc) \<Longrightarrow> limits_meet d (snd (durable_waits c uc))"
  by (simp_all add: durable_waits_def set_field_frame limits_meet_def)

lemma metadata_step_frame:
  "cc_Durable (snd (metadata_step kv uc)) = cc_Durable (snd uc)"
  "limits_meet d (snd (metadata_step kv uc)) = limits_meet d (snd uc)"
  by (simp_all add: metadata_step_def set_if_def limits_meet_def)

lemma metadata_frame:
  "cc_Durable (snd (fold metadata_step kvs uc)) = cc_Durable (snd uc)"
  "limits_meet d (snd (fold metadata_step kvs uc)) = limits_meet d (snd uc)"
  by (induction kvs arbitrary: uc) (simp_all add: metadata_step_frame)

lemma filters_frame:
  "cc_Durable (snd (durable_filters setup uc)) = cc_Durable (snd uc)"
  "cc_DeliverPolicy (snd (durable_filters setup uc)) = cc_DeliverPolicy (snd uc)"
  "limits_meet d (snd uc) \<Longrightarrow> limits_meet d (snd (durable_filters setup uc))"
  "metadata_meets kvs (snd uc) \<Longrightarrow> metadata_meets kvs (snd (durable_filters setup uc))"
  "waits_meet d (snd uc) \<Longrightarrow> waits_meet d (snd (durable_filters setup uc))"
  by (simp_all add: durable_filters_def set_if_def limits_meet_def metadata_meets_def metadata_get_def waits_meet_def Let_def)

lemma durable_config_settles:
  assumes keys: "distinct (map fst (cc_Metadata (ws_Consumer setup)))"
    and run: "durable_config setup cc = Inr (u, cc')"
  shows "durable_meets setup cc'" "cc_Durable cc' = cc_Durable cc" "\<not> u \<Longrightarrow> cc' = cc"
    "durable_meets setup cc' \<Longrightarrow> durable_config setup cc' = Inr (False, cc')"
proof -
  let ?c = "ws_Consumer setup"
  define s where "s = durable_waits ?c \<circ> (fold metadata_step (cc_Metadata ?c) \<circ> durable_limits ?c)"
  have st: "settles_on s (\<lambda>cc. (limits_meet ?c cc \<and> metadata_meets (cc_Metadata ?c) cc) \<and> waits_meet ?c cc)"
    unfolding s_def
    by (intro settles_then limits_settle metadata_settle waits_settle keys)
      (simp_all add: metadata_frame waits_frame metadata_meets_def metadata_get_def)
  have all: "settles_on (durable_filters setup \<circ> s) (\<lambda>cc. ((limits_meet ?c cc \<and> metadata_meets (cc_Metadata ?c) cc) \<and> waits_meet ?c cc)
      \<and> filters_meet setup cc)"
    by (intro settles_then [OF st] filters_settle) (simp add: filters_frame)
  have dc: "durable_config setup cc = (if dc_HasDeliverPolicy ?c \<and> cc_DeliverPolicy (snd (s (False, cc))) \<noteq> cc_DeliverPolicy ?c
      then Inl (wrap1 ''setup worker durable=%q: %w (deliver policy)'' (ESent ErrConsumerRecreateRequired))
      else Inr (durable_filters setup (s (False, cc))))" for cc
    by (simp add: durable_config_def s_def Let_def)
  have r: "(u, cc') = (durable_filters setup \<circ> s) (False, cc)"
      and pol: "dc_HasDeliverPolicy ?c \<longrightarrow> cc_DeliverPolicy (snd (s (False, cc))) = cc_DeliverPolicy ?c"
    using run dc [of cc] by (auto split: if_splits)
  have cc': "cc' = snd ((durable_filters setup \<circ> s) (False, cc))" using r by (metis snd_conv)
  show meets: "durable_meets setup cc'"
    using all pol unfolding cc' settles_on_def durable_meets_def Let_def by (simp add: filters_frame)
  show "cc_Durable cc' = cc_Durable cc"
    unfolding cc' s_def by (simp add: filters_frame waits_frame metadata_frame limits_frame)
  show "\<not> u \<Longrightarrow> cc' = cc" using all r unfolding settles_on_def by (metis fst_conv snd_conv)
  assume m: "durable_meets setup cc'"
  then have "s (False, cc') = (False, cc')" "durable_filters setup (False, cc') = (False, cc')"
    using st filters_settle by (auto simp: settles_on_def durable_meets_def Let_def)
  then show "durable_config setup cc' = Inr (False, cc')"
    using dc [of cc'] m by (simp add: durable_meets_def Let_def)
qed

text \<open>
  The consumers of a stream as the server documents them: information about a consumer changes nothing,
  and an update that succeeds stores the configuration it was given.
\<close>

definition consumer_store :: "'w js_env \<Rightarrow> string \<Rightarrow> ('w \<Rightarrow> string \<Rightarrow> NatsConsumerConfig option) \<Rightarrow> bool" where
  "consumer_store js stream K \<longleftrightarrow>
     (\<forall>d w cc. fst (js_ConsumerInfo js stream d w) = Inr cc \<longrightarrow> K w d = Some cc \<and> cc_Durable cc = d)
   \<and> (\<forall>d w. K (snd (js_ConsumerInfo js stream d w)) = K w)
   \<and> (\<forall>cc w info. fst (js_UpdateConsumer js stream cc w) = Inr info
        \<longrightarrow> K (snd (js_UpdateConsumer js stream cc w)) = (K w)(cc_Durable cc \<mapsto> cc))"

lemma runWithContextValue_Inr:
  "runWithContextValue env f w = (Inr x, w') \<Longrightarrow> f w = (Inr x, w')"
  by (auto simp: runWithContextValue_def split: prod.splits option.splits)

lemma wrapping_Inr: "wrapping label f w = (Inr x, w') \<Longrightarrow> f w = (Inr x, w')"
  by (cases "f w"; cases "fst (f w)") (auto simp: wrapping_def)

lemma ConsumerInfo_store:
  assumes "consumer_store js stream K" "ConsumerInfo js stream d w = (Inr cc, w')"
  shows "K w d = Some cc \<and> cc_Durable cc = d \<and> K w' = K w"
proof -
  have "js_ConsumerInfo js stream d w = (Inr cc, w')"
    using assms(2) by (auto simp: ConsumerInfo_def guarded_def split: option.splits
        dest!: runWithContextValue_Inr wrapping_Inr)
  then show ?thesis using assms(1) unfolding consumer_store_def by (metis fst_conv snd_conv)
qed

lemma UpdateConsumer_store:
  assumes "consumer_store js stream K" "UpdateConsumer js stream (Some cc) w = (Inr i, w')"
  shows "K w' = (K w)(cc_Durable cc \<mapsto> cc)"
proof -
  have "js_UpdateConsumer js stream cc w = (Inr i, w')"
    using assms(2) by (auto simp: UpdateConsumer_def guarded_def split: option.splits
        dest!: runWithContextValue_Inr wrapping_Inr)
  then show ?thesis using assms(1) unfolding consumer_store_def by (metis fst_conv snd_conv)
qed

lemma applySetupDurableConfig_meets:
  assumes store: "consumer_store (su_js env) (s_Name (ws_Stream setup)) K"
    and keys: "distinct (map fst (cc_Metadata (ws_Consumer setup)))"
    and run: "applySetupDurableConfig env setup w = (None, w')"
  shows "\<exists>cc. K w' (cc_Durable (ws_Consumer setup)) = Some cc \<and> durable_meets setup cc
    \<and> durable_config setup cc = Inr (False, cc)"
proof -
  let ?d = "cc_Durable (ws_Consumer setup)"
  obtain cc w1 where info: "ConsumerInfo (su_js env) (s_Name (ws_Stream setup)) ?d w = (Inr cc, w1)"
    using run by (auto simp: applySetupDurableConfig_def split: prod.splits sum.splits)
  note i = ConsumerInfo_store [OF store info]
  obtain u cc' where c: "durable_config setup cc = Inr (u, cc')"
    using run info by (auto simp: applySetupDurableConfig_def split: sum.splits)
  note m = durable_config_settles [OF keys c]
  have "K w' ?d = Some cc'"
  proof (cases u)
    case True
    then obtain x where "UpdateConsumer (su_js env) (s_Name (ws_Stream setup)) (Some cc') w1 = (Inr x, w')"
      using run info c by (auto simp: applySetupDurableConfig_def split: prod.splits sum.splits)
    from UpdateConsumer_store [OF store this] i m(2) show ?thesis by simp
  next
    case False
    then have "w' = w1" "cc' = cc" using run info c m(3) by (simp_all add: applySetupDurableConfig_def)
    then show ?thesis using i by simp
  qed
  with m(1) m(4) [OF m(1)] show ?thesis by blast
qed


text \<open>A server that holds the consumers of one stream, and a setup for a durable it has with other settings.\<close>

definition durables_js :: "(string \<times> NatsConsumerConfig) list js_env" where
  "durables_js = (stored_js [])\<lparr>
     js_AddStream := (\<lambda>cfg w. (Inr \<lparr> si_Config = cfg, si_FirstSeq = 0, si_LastSeq = 0 \<rparr>, w)),
     js_ConsumerInfo := (\<lambda>_ d w. (case map_of w d of
        Some cc \<Rightarrow> if cc_Durable cc = d then Inr cc else Inl (ESent NatsErrConsumerNotFound)
      | None \<Rightarrow> Inl (ESent NatsErrConsumerNotFound), w)),
     js_UpdateConsumer := (\<lambda>_ cc w. (Inr cc, (cc_Durable cc, cc) # w)) \<rparr>"

lemma durables_store: "consumer_store durables_js stream map_of"
  by (auto simp: consumer_store_def durables_js_def split: option.splits if_splits)

definition demo_setup_env :: "(unit, (string \<times> NatsConsumerConfig) list) setup_env" where
  "demo_setup_env = \<lparr> su_js = durables_js, su_consumer = demo_consumer 1, su_runtime = demo_cfg,
     su_backpressure = \<lparr> bp_Mode = 1, bp_MaxAckPending = 0, bp_PendingMsgLimit = 0, bp_PendingMsgBuffer = 0 \<rparr>,
     su_QueueSubscribe = (\<lambda>_ _ _ w. (Inr (), w)), su_Unsubscribe = (\<lambda>_ w. w), su_NewInbox = (\<lambda>w. (''_INBOX.1'', w)) \<rparr>"

definition demo_durable :: DurableConsumerConfig where
  "demo_durable =
     \<lparr> cc_Durable = ''D'', cc_FilterSubject = [], cc_FilterSubjects = [], cc_DeliverSubject = [], cc_DeliverGroup = [],
       cc_DeliverPolicy = DeliverAll, cc_ReplayPolicy = ReplayInstant, cc_AckPolicy = AckNone,
       cc_MaxDeliver = 7, cc_AckWait = 0, cc_MaxAckPending = 20, cc_RateLimit = 0, cc_Heartbeat = 0,
       cc_InactiveThreshold = 0, cc_Replicas = 0, cc_MaxWaiting = 0, cc_OptStartSeq = 0, cc_OptStartTime = None,
       cc_FlowControl = False, cc_MemoryStorage = False, cc_Metadata = [(''team'', ''a'')],
       dc_HasAckPolicy = False, dc_HasDeliverPolicy = True, dc_HasReplayPolicy = False \<rparr>"

definition demo_setup :: WorkerSetup where
  "demo_setup = \<lparr> ws_Queue = ''q'', ws_Subject = ''a.b'',
     ws_Stream = no_stream_config\<lparr> s_Name := ''S'', s_Subjects := [''a.*''] \<rparr>, ws_Consumer = demo_durable \<rparr>"

definition demo_durables :: "(string \<times> NatsConsumerConfig) list" where
  "demo_durables = [(''D'', toNatsConsumerConfig (demo_durable\<lparr> cc_MaxDeliver := 3, cc_Metadata := [] \<rparr>))]"

lemma setup_names: "ValidateStreamName ''S'' = None" "ValidateDurableName ''D'' = None" "ValidateQueueName ''q'' = None"
  by code_simp+

lemma setup_subjects: "ValidateSubject ''a.b'' = None" "ValidateSubjects [''a.*''] = None"
  by (simp_all add: ValidateSubject_None_iff validateSubject_None_iff token_ok_def
      hasWhitespace_def contains_any_def asciiSpace_def asciiDEL_def runes_def unicode_is_space_def)

lemma demo_setup_run: "fst (SetupWorker demo_setup_env demo_setup demo_durables) = Inr ()"
proof -
  let ?cc = "snd (hd demo_durables)"
  have valid: "setup_validate demo_setup = None"
    by (simp add: setup_validate_def demo_setup_def demo_durable_def setup_names setup_subjects IsEmpty_def)
  have stream: "CreateOrUpdateStream durables_js (ws_Stream demo_setup) w
      = (Inr \<lparr> si_Config = with_default_replicas (toNatsStreamConfig (ws_Stream demo_setup)), si_FirstSeq = 0, si_LastSeq = 0 \<rparr>, w)" for w
    using setup_subjects
    by (simp add: CreateOrUpdateStream_def manager_ops durables_js_def stored_js_def demo_setup_def setup_names)
  have sub: "setup_subscribe demo_setup_env ''q'' ''a.b'' opts w = (Inr (), w)" for opts w
    by (simp add: setup_subscribe_def QueueSubscribe_def demo_setup_env_def setup_names setup_subjects)
  have info: "ConsumerInfo durables_js ''S'' ''D'' demo_durables = (Inr ?cc, demo_durables)"
    by (simp add: ConsumerInfo_def manager_ops durables_js_def stored_js_def setup_names demo_durables_def
        toNatsConsumerConfig_def demo_durable_def)
  have pol: "cc_DeliverPolicy (snd (fold metadata_step kvs uc)) = cc_DeliverPolicy (snd uc)" for kvs uc
    by (induction kvs arbitrary: uc) (simp_all add: metadata_step_def set_if_def)
  obtain u cc where cfg: "durable_config demo_setup ?cc = Inr (u, cc)"
  proof
    let ?uc = "durable_filters demo_setup (durable_waits (ws_Consumer demo_setup)
        (fold metadata_step (cc_Metadata (ws_Consumer demo_setup)) (durable_limits (ws_Consumer demo_setup) (False, ?cc))))"
    show "durable_config demo_setup ?cc = Inr (fst ?uc, snd ?uc)"
      by (simp add: durable_config_def Let_def durable_waits_def durable_limits_def set_field_frame pol)
        (simp add: demo_durables_def demo_setup_def toNatsConsumerConfig_def demo_durable_def)
  qed
  have "cc_Durable cc = ''D''"
    using durable_config_settles(2) [OF _ cfg]
    by (simp add: demo_setup_def demo_durable_def demo_durables_def toNatsConsumerConfig_def)
  then have update: "UpdateConsumer durables_js ''S'' (Some cc) demo_durables = (Inr cc, (''D'', cc) # demo_durables)"
    by (simp add: UpdateConsumer_def manager_ops durables_js_def stored_js_def setup_names)
  have fields: "s_Name (ws_Stream demo_setup) = ''S''" "cc_Durable (ws_Consumer demo_setup) = ''D''"
      "ws_Queue demo_setup = ''q''" "ws_Subject demo_setup = ''a.b''" "cc_FilterSubjects (ws_Consumer demo_setup) = []"
      "su_js demo_setup_env = durables_js"
    by (simp_all add: demo_setup_def demo_durable_def demo_setup_env_def)
  then show ?thesis
    by (simp add: SetupWorker_def valid stream setup_finish_def sub applySetupDurableConfig_def info cfg update)
qed


text \<open>
  The options of the subscription, by contrast, name the acknowledgement wait twice: the one of the setup
  first, then the one of the client's runtime configuration, which is the one that counts in nats.go.
\<close>

lemma setup_ack_wait_overridden:
  assumes "rc_AckWait (c_cfg c) > 0"
  shows "last (filter (\<lambda>opt. \<exists>d. opt = AckWaitOpt d) (appendConsumerOpts c opts True)) = AckWaitOpt (rc_AckWait (c_cfg c))"
  using assms by (simp add: appendConsumerOpts_def)

end
