(* ===== verification/Monitoring.thy ===== *)
theory Monitoring
  imports Payload Validate "HOL-Library.Word" "HOL-Library.Sublist"
begin

text \<open>
  The client of the servers' monitoring endpoints (\<open>monitoring.go\<close>), which must not be led to the
  metadata services of a cloud: the address filter, the check of a URL, the dialer and \<open>Fetch\<close> with its
  redirects. The resolver, the network, the URL parser and the parser of address literals are parameters.
\<close>

unbundle bit_operations_syntax

section \<open>Addresses\<close>

text \<open>
  \<open>net.IP\<close>: 4 or 16 bytes, nil is the empty list. The methods the code calls, as package \<open>net\<close> has them.
\<close>

type_synonym ip = "8 word list"

definition v4InV6Prefix :: ip where "v4InV6Prefix = [0, 0, 0, 0, 0, 0, 0, 0, 0, 0, 0xff, 0xff]"

definition IPv6zero :: ip where "IPv6zero = [0, 0, 0, 0, 0, 0, 0, 0, 0, 0, 0, 0, 0, 0, 0, 0]"

definition To4 :: "ip \<Rightarrow> ip option" where
  "To4 ip = (if length ip = 4 then Some ip
             else if length ip = 16 \<and> take 12 ip = v4InV6Prefix then Some (drop 12 ip) else None)"

definition ip_Equal :: "ip \<Rightarrow> ip \<Rightarrow> bool" where
  "ip_Equal a b = (if length a = length b then a = b
                   else if length a = 4 \<and> length b = 16 then take 12 b = v4InV6Prefix \<and> a = drop 12 b
                   else if length a = 16 \<and> length b = 4 then take 12 a = v4InV6Prefix \<and> drop 12 a = b
                   else False)"

definition IsUnspecified :: "ip \<Rightarrow> bool" where
  "IsUnspecified ip \<longleftrightarrow> ip_Equal ip (v4InV6Prefix @ [0, 0, 0, 0]) \<or> ip_Equal ip IPv6zero"

definition IsLinkLocalUnicast :: "ip \<Rightarrow> bool" where
  "IsLinkLocalUnicast ip =
     (case To4 ip of
        Some ip4 \<Rightarrow> ip4 ! 0 = 169 \<and> ip4 ! 1 = 254
      | None \<Rightarrow> length ip = 16 \<and> ip ! 0 = 0xfe \<and> ip ! 1 AND 0xc0 = 0x80)"

definition IsLinkLocalMulticast :: "ip \<Rightarrow> bool" where
  "IsLinkLocalMulticast ip =
     (case To4 ip of
        Some ip4 \<Rightarrow> ip4 ! 0 = 224 \<and> ip4 ! 1 = 0 \<and> ip4 ! 2 = 0
      | None \<Rightarrow> length ip = 16 \<and> ip ! 0 = 0xff \<and> ip ! 1 AND 0x0f = 0x02)"

text \<open>\<open>net.ParseIP("fd00:ec2::254")\<close>\<close>

definition aws_imds_v6 :: ip where
  "aws_imds_v6 = [0xfd, 0x00, 0x0e, 0xc2, 0, 0, 0, 0, 0, 0, 0, 0, 0, 0, 0x02, 0x54]"

definition isBlockedMonitoringIP :: "ip \<Rightarrow> bool" where
  "isBlockedMonitoringIP ip =
     (if ip = [] \<or> IsLinkLocalUnicast ip \<or> IsLinkLocalMulticast ip \<or> IsUnspecified ip then True
      else if (case To4 ip of
                 Some ip4 \<Rightarrow> ip4 ! 0 = 100 \<and> ip4 ! 1 = 100 \<and> ip4 ! 2 = 100 \<and> ip4 ! 3 = 200
               | None \<Rightarrow> False) then True
      else if ip_Equal ip aws_imds_v6 then True
      else False)"

section \<open>The network\<close>

text \<open>
  \<open>mn_Addr\<close> is the address the HTTP transport connects to for a URL, \<open>mn_idle\<close> a connection it kept
  alive for that address. \<open>mn_Dial\<close> is \<open>net.Dialer\<close> on an address literal with a port.
\<close>

datatype 'u http_answer = Redirect 'u | Response int "bytes \<times> err option"

record ('u, 'c, 'w) mon_env =
  mn_Parse :: "string \<Rightarrow> 'u result"
  mn_Scheme :: "'u \<Rightarrow> string"
  mn_Hostname :: "'u \<Rightarrow> string"
  mn_Addr :: "'u \<Rightarrow> string"
  mn_ParseIP :: "string \<Rightarrow> ip option"
  mn_SplitHostPort :: "string \<Rightarrow> (string \<times> string) result"
  mn_NewRequest :: "string \<Rightarrow> err option"
  mn_LookupIPAddr :: "string \<Rightarrow> 'w \<Rightarrow> ip list result \<times> 'w"
  mn_Dial :: "ip \<Rightarrow> string \<Rightarrow> 'w \<Rightarrow> 'c result \<times> 'w"
  mn_idle :: "'u \<Rightarrow> 'w \<Rightarrow> 'c option"
  mn_exchange :: "'c \<Rightarrow> 'u \<Rightarrow> 'w \<Rightarrow> 'u http_answer result \<times> 'w"

definition not_allowed :: err where "not_allowed = EMsg ''monitoring url host not allowed''"

text \<open>A nil URL is \<^const>\<open>None\<close>.\<close>

definition validateMonitoringFetchURL :: "('u, 'c, 'w) mon_env \<Rightarrow> 'u option \<Rightarrow> 'w \<Rightarrow> err option \<times> 'w" where
  "validateMonitoringFetchURL env fetchURL w =
     (case fetchURL of
        None \<Rightarrow> (Some not_allowed, w)
      | Some u \<Rightarrow>
          if to_lower (mn_Scheme env u) \<noteq> ''http'' \<and> to_lower (mn_Scheme env u) \<noteq> ''https''
          then (Some (EMsg ''monitoring url scheme must be http or https''), w)
          else
            let host = to_lower (trim_space (mn_Hostname env u)) in
            if IsEmpty host then (Some not_allowed, w)
            else if host = ''metadata.google.internal'' \<or> host = ''metadata.goog'' \<or> host = ''instance-data''
            then (Some not_allowed, w)
            else
              (case mn_ParseIP env host of
                 Some ip \<Rightarrow> (if isBlockedMonitoringIP ip then Some not_allowed else None, w)
               | None \<Rightarrow>
                   (case mn_LookupIPAddr env host w of
                      (Inl e, w1) \<Rightarrow> (Some (wrap1 ''monitoring dns: %w'' e), w1)
                    | (Inr addrs, w1) \<Rightarrow> (if list_ex isBlockedMonitoringIP addrs then Some not_allowed else None, w1))))"

primrec dial_loop ::
  "('u, 'c, 'w) mon_env \<Rightarrow> string \<Rightarrow> ip list \<Rightarrow> err option \<Rightarrow> 'w \<Rightarrow> 'c result \<times> 'w" where
  "dial_loop env port [] lastErr w = (Inl (case lastErr of None \<Rightarrow> not_allowed | Some e \<Rightarrow> e), w)"
| "dial_loop env port (ip # ips) lastErr w =
     (if isBlockedMonitoringIP ip then dial_loop env port ips (Some not_allowed) w
      else
        (case mn_Dial env ip port w of
           (Inr conn, w1) \<Rightarrow> (Inr conn, w1)
         | (Inl dialErr, w1) \<Rightarrow> dial_loop env port ips (Some dialErr) w1))"

definition dialMonitoringContext :: "('u, 'c, 'w) mon_env \<Rightarrow> string \<Rightarrow> 'w \<Rightarrow> 'c result \<times> 'w" where
  "dialMonitoringContext env addr w =
     (case mn_SplitHostPort env addr of
        Inl e \<Rightarrow> (Inl e, w)
      | Inr (host, port) \<Rightarrow>
          (case mn_LookupIPAddr env host w of
             (Inl e, w1) \<Rightarrow> (Inl (wrap1 ''monitoring dns: %w'' e), w1)
           | (Inr ips, w1) \<Rightarrow> dial_loop env port ips None w1))"

section \<open>The HTTP client\<close>

abbreviation defaultMonitoringTimeout :: duration where "defaultMonitoringTimeout \<equiv> 10 * 1000000000"
abbreviation defaultMonitoringMaxBody :: int where "defaultMonitoringMaxBody \<equiv> 8388608"

record monitoringClient =
  mc_Timeout :: duration
  mc_maxBody :: int

definition newMonitoring :: "duration \<Rightarrow> monitoringClient" where
  "newMonitoring timeout =
     \<lparr> mc_Timeout = (if timeout \<le> 0 then defaultMonitoringTimeout else timeout), mc_maxBody = defaultMonitoringMaxBody \<rparr>"

definition checkRedirect :: "('u, 'c, 'w) mon_env \<Rightarrow> 'u \<Rightarrow> 'u list \<Rightarrow> 'w \<Rightarrow> err option \<times> 'w" where
  "checkRedirect env u via w =
     (if length via \<ge> 5 then (Some (EMsg ''monitoring redirect: stopped after 5 redirects''), w)
      else validateMonitoringFetchURL env (Some u) w)"

text \<open>
  \<open>http.Client.Do\<close> with this transport and this \<open>CheckRedirect\<close>: a request takes a kept-alive
  connection or dials; a redirect is followed when the check of the upcoming request allows it, which
  sees the requests made so far. A timeout is an error of the exchange.
\<close>

function http_Do :: "('u, 'c, 'w) mon_env \<Rightarrow> 'u \<Rightarrow> 'u list \<Rightarrow> 'w \<Rightarrow> (int \<times> bytes \<times> err option) result \<times> 'w" where
  "http_Do env u via w =
     (case (case mn_idle env u w of Some c \<Rightarrow> (Inr c, w) | None \<Rightarrow> dialMonitoringContext env (mn_Addr env u) w) of
        (Inl e, w1) \<Rightarrow> (Inl e, w1)
      | (Inr c, w1) \<Rightarrow>
          (case mn_exchange env c u w1 of
             (Inl e, w2) \<Rightarrow> (Inl e, w2)
           | (Inr (Response status body), w2) \<Rightarrow> (Inr (status, body), w2)
           | (Inr (Redirect u'), w2) \<Rightarrow>
               (case checkRedirect env u' (via @ [u]) w2 of
                  (Some e, w3) \<Rightarrow> (Inl e, w3)
                | (None, w3) \<Rightarrow> http_Do env u' (via @ [u]) w3)))"
  by pat_completeness auto

lemma checkRedirect_bound: "checkRedirect env u via w = (None, w') \<Longrightarrow> length via < 5"
  by (simp add: checkRedirect_def split: if_splits)

termination http_Do
  by (relation "measure (\<lambda>(env, u, via, w). 5 - length via)") (auto dest!: checkRedirect_bound [OF sym])

declare http_Do.simps [simp del]

definition fetch_path :: "string \<Rightarrow> string" where
  "fetch_path path = (if IsEmpty path then ''/'' else if hd path \<noteq> CHR ''/'' then CHR ''/'' # path else path)"

text \<open>\<open>strings.TrimRight(baseURL, "/")\<close>\<close>

definition trim_slashes :: "string \<Rightarrow> string" where
  "trim_slashes s = rev (dropWhile (\<lambda>c. c = CHR ''/'') (rev s))"

definition fetch_body :: "monitoringClient \<Rightarrow> int \<times> bytes \<times> err option \<Rightarrow> bytes result" where
  "fetch_body m resp =
     (case resp of (status, body) \<Rightarrow>
        let maxBody = (if mc_maxBody m \<le> 0 then defaultMonitoringMaxBody else mc_maxBody m) in
        case read_limited (nat (i64 (maxBody + 1))) body of
          Inl e \<Rightarrow> Inl (wrap1 ''monitoring read: %w'' e)
        | Inr bs \<Rightarrow>
            if int (length bs) > maxBody then Inl (wrap1 ''%w: exceeds %d bytes'' (ESent ErrMonitoringBodyTooLarge))
            else if status \<ge> 400 then Inl (EMsg (''monitoring %s: status %d: '' @ take 256 bs))
            else Inr bs)"

definition monitoring_Fetch ::
  "('u, 'c, 'w) mon_env \<Rightarrow> monitoringClient \<Rightarrow> string \<Rightarrow> string \<Rightarrow> 'w \<Rightarrow> bytes result \<times> 'w" where
  "monitoring_Fetch env m baseURL path w =
     (let base = trim_slashes baseURL; rawURL = base @ fetch_path path in
      if IsEmpty base then (Inl (EMsg ''monitoring fetch: empty base URL''), w)
      else
        (case mn_Parse env rawURL of
           Inl e \<Rightarrow> (Inl (wrap1 ''monitoring request: %w'' e), w)
         | Inr u \<Rightarrow>
             (case validateMonitoringFetchURL env (Some u) w of
                (Some e, w1) \<Rightarrow> (Inl e, w1)
              | (None, w1) \<Rightarrow>
                  (case mn_NewRequest env rawURL of
                     Some e \<Rightarrow> (Inl (wrap1 ''monitoring request: %w'' e), w1)
                   | None \<Rightarrow>
                       (case http_Do env u [] w1 of
                          (Inl e, w2) \<Rightarrow> (Inl (wrap1 ''monitoring request: %w'' e), w2)
                        | (Inr resp, w2) \<Rightarrow> (fetch_body m resp, w2))))))"

section \<open>Which addresses are blocked\<close>

text \<open>
  The addresses, in the sixteen-byte form: the IPv4 networks 169.254.0.0/16 and 224.0.0.0/24, the
  unspecified addresses, 100.100.100.200 and fd00:ec2::254, and the IPv6 networks fe80::/10 and ffx2::/16.
\<close>

definition ip16 :: "ip \<Rightarrow> ip" where
  "ip16 ip = (if length ip = 4 then v4InV6Prefix @ ip else ip)"

definition forbidden_prefixes :: "ip list" where
  "forbidden_prefixes = map ((@) v4InV6Prefix) [[169, 254], [224, 0, 0], [0, 0, 0, 0], [100, 100, 100, 200]]
     @ [IPv6zero, aws_imds_v6]"

definition forbidden_address :: "ip \<Rightarrow> bool" where
  "forbidden_address ip \<longleftrightarrow> (\<exists>p\<in>set forbidden_prefixes. prefix p (ip16 ip))
     \<or> ip16 ip ! 0 = 0xfe \<and> 0x80 \<le> unat (ip16 ip ! 1) \<and> unat (ip16 ip ! 1) < 0xc0
     \<or> ip16 ip ! 0 = 0xff \<and> unat (ip16 ip ! 1) mod 16 = 2"

lemma and_c0: "(b :: 8 word) AND 0xc0 = 0x80 \<longleftrightarrow> 0x80 \<le> unat b \<and> unat b < 0xc0"
proof -
  have "x AND NOT (mask n) = push_bit n (drop_bit n x)" for x :: "8 word" and n
    by (rule bit_word_eqI) (auto simp: bit_simps)
  moreover have "(0xc0 :: 8 word) = NOT (mask 6)" by (simp add: mask_eq_exp_minus_1)
  ultimately have c0: "b AND 0xc0 = push_bit 6 (drop_bit 6 b)" by metis
  have lt: "unat b < 256" using unsigned_less [of b, where ?'a = nat] by simp
  have d: "unat (drop_bit 6 b) = unat b div 64"
    using lt by (simp only: unsigned_drop_bit_eq) (simp add: drop_bit_eq_div take_bit_eq_mod)
  with lt have "unat (drop_bit 6 b) = 0 \<or> unat (drop_bit 6 b) = 1 \<or> unat (drop_bit 6 b) = 2 \<or> unat (drop_bit 6 b) = 3"
    by linarith
  then have "drop_bit 6 b = 0 \<or> drop_bit 6 b = 1 \<or> drop_bit 6 b = 2 \<or> drop_bit 6 b = 3"
    by (simp add: word_eq_iff_unsigned [where ?'a = nat])
  moreover have "(push_bit 6 0 :: 8 word) \<noteq> 0x80" "(push_bit 6 1 :: 8 word) \<noteq> 0x80" "(push_bit 6 2 :: 8 word) = 0x80"
      "(push_bit 6 3 :: 8 word) \<noteq> 0x80" by simp_all
  ultimately have "push_bit 6 (drop_bit 6 b) = 0x80 \<longleftrightarrow> drop_bit 6 b = 2" by (metis (no_types))
  moreover have "drop_bit 6 b = 2 \<longleftrightarrow> unat b div 64 = 2" using d by (simp add: word_eq_iff_unsigned [where ?'a = nat])
  moreover have "unat b div 64 = 2 \<longleftrightarrow> 0x80 \<le> unat b \<and> unat b < 0xc0" by linarith
  ultimately show ?thesis unfolding c0 by blast
qed

lemma and_0f: "(b :: 8 word) AND 0x0f = 2 \<longleftrightarrow> unat b mod 16 = 2"
proof -
  have "b AND 0x0f = take_bit 4 b" by (simp add: take_bit_eq_mask mask_eq_exp_minus_1)
  moreover have "unat (take_bit 4 b) = unat b mod 16" 
    by (simp only: unsigned_take_bit_eq) (simp add: take_bit_eq_mod)
  ultimately show ?thesis by (simp add: word_eq_iff_unsigned [where ?'a = nat])
qed

lemma list_16: "length xs = 16 \<Longrightarrow> xs = [xs ! 0, xs ! 1, xs ! 2, xs ! 3, xs ! 4, xs ! 5, xs ! 6, xs ! 7, xs ! 8,
    xs ! 9, xs ! 10, xs ! 11, xs ! 12, xs ! 13, xs ! 14, xs ! 15]"
  using map_nth [of xs] by (simp add: upt_conv_Cons numeral_eq_Suc)

lemma list_4: "length xs = 4 \<Longrightarrow> xs = [xs ! 0, xs ! 1, xs ! 2, xs ! 3]"
  using map_nth [of xs] by (simp add: upt_conv_Cons numeral_eq_Suc)

lemmas ip_ops = isBlockedMonitoringIP_def IsLinkLocalUnicast_def IsLinkLocalMulticast_def IsUnspecified_def
  ip_Equal_def To4_def ip16_def forbidden_address_def forbidden_prefixes_def v4InV6Prefix_def IPv6zero_def aws_imds_v6_def
  and_c0 and_0f

lemma isBlocked_iff:
  assumes "length ip = 4 \<or> length ip = 16"
  shows "isBlockedMonitoringIP ip \<longleftrightarrow> forbidden_address ip"
  using assms
proof
  assume "length ip = 4"
  then obtain a b c d where "ip = [a, b, c, d]" using list_4 by blast
  then show ?thesis by (simp add: ip_ops)
next
  assume "length ip = 16"
  then obtain a b c d e f g h i j k l m n p q where "ip = [a, b, c, d, e, f, g, h, i, j, k, l, m, n, p, q]"
    using list_16 by blast
  then show ?thesis by (simp add: ip_ops) argo
qed

section \<open>What is dialled\<close>

text \<open>
  A property of the world that looking up names, talking over a connection and dialling an address that
  is not forbidden all keep.
\<close>

definition net_keeps :: "('u, 'c, 'w) mon_env \<Rightarrow> ('w \<Rightarrow> bool) \<Rightarrow> bool" where
  "net_keeps env I \<longleftrightarrow>
     (\<forall>host w. I w \<longrightarrow> I (snd (mn_LookupIPAddr env host w)))
   \<and> (\<forall>c u w. I w \<longrightarrow> I (snd (mn_exchange env c u w)))
   \<and> (\<forall>ip port w. I w \<longrightarrow> ip \<noteq> [] \<longrightarrow> (length ip = 4 \<or> length ip = 16 \<longrightarrow> \<not> forbidden_address ip)
        \<longrightarrow> I (snd (mn_Dial env ip port w)))"

lemma net_keepsD:
  assumes "net_keeps env I"
  shows "mn_LookupIPAddr env host w = (r, w') \<Longrightarrow> I w \<Longrightarrow> I w'"
    and "mn_exchange env c u w = (x, w') \<Longrightarrow> I w \<Longrightarrow> I w'"
    and "mn_Dial env ip port w = (y, w') \<Longrightarrow> I w \<Longrightarrow> \<not> isBlockedMonitoringIP ip \<Longrightarrow> I w'"
proof -
  show "mn_LookupIPAddr env host w = (r, w') \<Longrightarrow> I w \<Longrightarrow> I w'" "mn_exchange env c u w = (x, w') \<Longrightarrow> I w \<Longrightarrow> I w'"
    using assms unfolding net_keeps_def by (metis snd_conv)+
  assume dial: "mn_Dial env ip port w = (y, w')" "I w" and ip: "\<not> isBlockedMonitoringIP ip"
  then have "ip \<noteq> []" "length ip = 4 \<or> length ip = 16 \<longrightarrow> \<not> forbidden_address ip"
    using isBlocked_iff [of ip] by (auto simp: isBlockedMonitoringIP_def)
  with dial show "I w'" using assms unfolding net_keeps_def by (metis snd_conv)
qed

lemma validate_keeps:
  assumes "net_keeps env I" "validateMonitoringFetchURL env u w = (r, w')" "I w"
  shows "I w'"
  using assms(2,3) net_keepsD(1) [OF assms(1)]
  by (auto simp: validateMonitoringFetchURL_def Let_def split: option.splits sum.splits prod.splits if_splits)

lemma dial_loop_keeps:
  assumes "net_keeps env I"
  shows "dial_loop env port ips lastErr w = (r, w') \<Longrightarrow> I w \<Longrightarrow> I w'"
  by (induction ips arbitrary: lastErr w)
    (auto split: sum.splits prod.splits if_splits dest: net_keepsD(3) [OF assms])

lemma dial_keeps:
  assumes "net_keeps env I" "dialMonitoringContext env addr w = (r, w')" "I w"
  shows "I w'"
  using assms(2,3) net_keepsD(1) [OF assms(1)] dial_loop_keeps [OF assms(1)]
  by (auto simp: dialMonitoringContext_def split: sum.splits prod.splits)

lemma http_Do_keeps:
  assumes "net_keeps env I" "http_Do env u via w = (r, w')" "I w"
  shows "I w'"
  using assms
proof (induction env u via w rule: http_Do.induct)
  case (1 env u via w)
  let ?dial = "case mn_idle env u w of Some c \<Rightarrow> (Inr c, w) | None \<Rightarrow> dialMonitoringContext env (mn_Addr env u) w"
  obtain d w1 where d: "?dial = (d, w1)" by fastforce
  then have w1: "I w1" using "1.prems" dial_keeps by (auto split: option.splits)
  note run = "1.prems"(2) [unfolded http_Do.simps [of env u via w] d]
  show ?case
  proof (cases d)
    case (Inr c)
    obtain x w2 where x: "mn_exchange env c u w1 = (x, w2)" by fastforce
    have w2: "I w2" by (rule net_keepsD(2) [OF "1.prems"(1) x w1])
    show ?thesis
    proof (cases "\<exists>u'. x = Inr (Redirect u')")
      case True
      then obtain u' where u': "x = Inr (Redirect u')" by blast
      obtain v w3 where v: "checkRedirect env u' (via @ [u]) w2 = (v, w3)" by fastforce
      then have w3: "I w3" using validate_keeps "1.prems"(1) w2 by (auto simp: checkRedirect_def split: if_splits)
      show ?thesis
        using run Inr x u' v w3 "1.IH" [OF d [symmetric] Inr x [symmetric] u' refl v [symmetric] _ "1.prems"(1)]
        by (cases v) auto
    qed (use run Inr x w2 in \<open>auto split: sum.splits http_answer.splits\<close>)
  qed (use run w1 in auto)
qed

text \<open>
  C8. \<open>Fetch\<close> never opens a connection to a forbidden address, whatever the resolver answers at each
  lookup and wherever a server redirects to: everything that dialling other addresses keeps is kept by
  \<open>Fetch\<close>. The dialer filters the addresses it looks up itself, so a name that resolves differently after
  the check of the URL does not help. Both forms of an IPv4 address are covered.
\<close>

theorem Fetch_never_dials_forbidden:
  assumes "net_keeps env I" "I w"
  shows "I (snd (monitoring_Fetch env m baseURL path w))"
proof -
  have "I w'" if "http_Do env u [] w1 = (r, w')" "validateMonitoringFetchURL env (Some u) w = (v, w1)" for u r v w' w1
    using http_Do_keeps [OF assms(1) that(1) validate_keeps [OF assms(1) that(2) assms(2)]] .
  then show ?thesis using assms(2) validate_keeps [OF assms(1) _ assms(2)]
    by (auto simp: monitoring_Fetch_def Let_def split: sum.splits prod.splits option.splits)
qed

text \<open>A server whose name first resolves to a public address and from then on to a metadata service.\<close>

definition rebind_env :: "(string, ip, nat \<times> ip list) mon_env" where
  "rebind_env = \<lparr> mn_Parse = Inr, mn_Scheme = (\<lambda>_. ''http''), mn_Hostname = (\<lambda>_. ''m''), mn_Addr = (\<lambda>_. ''m:80''),
     mn_ParseIP = (\<lambda>_. None), mn_SplitHostPort = (\<lambda>_. Inr (''m'', ''80'')), mn_NewRequest = (\<lambda>_. None),
     mn_LookupIPAddr = (\<lambda>_ (n, log). (Inr [if n = 0 then [1, 2, 3, 4] else [169, 254, 169, 254]], (n + 1, log))),
     mn_Dial = (\<lambda>ip _ (n, log). (Inr ip, (n, log @ [ip]))), mn_idle = (\<lambda>_ _. None),
     mn_exchange = (\<lambda>_ _ w. (Inr (Response 200 (''secret'', None)), w)) \<rparr>"

theorem Fetch_never_dials_forbidden_witness:
  "[169, 254, 169, 254] \<notin> set (snd (snd (monitoring_Fetch rebind_env (newMonitoring 0) ''http://m'' ''/'' (0, []))))"
proof -
  have bad: "forbidden_address [169, 254, 169, 254]" by (simp add: ip_ops)
  show ?thesis
    by (rule Fetch_never_dials_forbidden [where I = "\<lambda>w. [169, 254, 169, 254] \<notin> set (snd w)"])
      (auto simp: net_keeps_def rebind_env_def bad)
qed

text \<open>What \<open>Fetch\<close> returns has at most eight MiB, and never comes with an error status.\<close>

lemma fetch_body_bounded:
  assumes "fetch_body m (status, body) = Inr bs"
  shows "int (length bs) \<le> (if mc_maxBody m \<le> 0 then defaultMonitoringMaxBody else mc_maxBody m)" "status < 400"
  using assms by (auto simp: fetch_body_def Let_def split: sum.splits if_splits)

lemma Fetch_bounded:
  assumes "fst (monitoring_Fetch env (newMonitoring timeout) baseURL path w) = Inr bs"
  shows "length bs \<le> 8388608"
  using assms by (auto simp: monitoring_Fetch_def Let_def fetch_body_def newMonitoring_def
      split: if_splits sum.splits prod.splits option.splits)

text \<open>An IPv4 address behind a NAT64 prefix is not recognized: 64:ff9b::169.254.169.254 is dialled.\<close>

lemma nat64_not_blocked:
  "\<not> isBlockedMonitoringIP [0, 0x64, 0xff, 0x9b, 0, 0, 0, 0, 0, 0, 0, 0, 169, 254, 169, 254]"
  by (simp add: ip_ops)

end
