(* ===== verification/PullV2.thy ===== *)
theory PullV2
  imports Pull "HOL-Library.Sublist"
begin

text \<open>
  The pull consumer and the ordered consumer over the new JetStream API (\<open>consumer_pull_v2.go\<close>,
  \<open>consumer_ordered.go\<close>). The pull consumer turns the messages into those of the old API and hands
  batches to the code of the old pull consumer, whose model is used here. Parameters are the consumers of
  the new API, the context and the text of an error.
\<close>

section \<open>Messages of the new API\<close>

record js_msg =
  jm_Subject :: string
  jm_Reply :: string
  jm_Headers :: header
  jm_Data :: bytes

text \<open>
  The result has no subscription, so nats.go gives no metadata for it. A nil message gives nil.
\<close>

definition jetstreamMsgToNATS :: "js_msg \<Rightarrow> msg" where
  "jetstreamMsgToNATS m =
     \<lparr> msg_Subject = jm_Subject m, msg_Reply = jm_Reply m, msg_Data = jm_Data m, msg_Header = jm_Headers m,
       msg_Metadata = None \<rparr>"

text \<open>
  \<open>pw_Fetch\<close> gives the messages that arrive on the channel of the batch and the error of the batch;
  \<open>pw_wait\<close> is the wait for the next one.
\<close>

record ('k, 'w) v2_env =
  pw_Consumer :: "(string \<Rightarrow> string \<Rightarrow> 'w \<Rightarrow> 'k result \<times> 'w) option"
  pw_Fetch :: "'k \<Rightarrow> int \<Rightarrow> pull_opt list \<Rightarrow> 'w \<Rightarrow> (js_msg list \<times> err option) result \<times> 'w"
  pw_wait :: "'w \<Rightarrow> 'w"
  pw_closed :: "'w \<Rightarrow> bool"
  pw_setClosed :: "'w \<Rightarrow> 'w"
  pw_Error :: "err \<Rightarrow> string"

definition newPullConsumerV2 :: "('k, 'w) v2_env \<Rightarrow> string \<Rightarrow> string \<Rightarrow> 'w \<Rightarrow> 'k result \<times> 'w" where
  "newPullConsumerV2 v stream durable w =
     (case pw_Consumer v of
        None \<Rightarrow> (Inl (ESent ErrJetStreamV2Required), w)
      | Some f \<Rightarrow>
          (case f stream durable w of
             (Inl e, w1) \<Rightarrow> (Inl (wrap1 ''pull v2 consumer stream=%q durable=%q: %w'' e), w1)
           | (Inr cons, w1) \<Rightarrow> (Inr cons, w1)))"

definition v2_Close :: "('k, 'w) v2_env \<Rightarrow> 'w \<Rightarrow> err option \<times> 'w" where
  "v2_Close v w = (None, pw_setClosed v w)"

definition ensureOpen :: "('k, 'w) v2_env \<Rightarrow> 'w \<Rightarrow> err option" where
  "ensureOpen v w = (if pw_closed v w then Some (EMsg ''pull: subscription closed'') else None)"

definition isFetchIdleErr :: "('k, 'w) v2_env \<Rightarrow> err \<Rightarrow> bool" where
  "isFetchIdleErr v e \<longleftrightarrow> errors_Is e CtxDeadlineExceeded
     \<or> sublist ''timeout'' (to_lower (pw_Error v e)) \<or> sublist ''no messages'' (pw_Error v e)
     \<or> sublist ''404'' (pw_Error v e) \<or> sublist ''408'' (pw_Error v e)"

section \<open>Fetching\<close>

text \<open>The loop over the channel of the batch.\<close>

fun v2_receive ::
  "('s, 'v, 'w) pull_env \<Rightarrow> ('k, 'w) v2_env \<Rightarrow> js_msg list \<Rightarrow> msg list \<Rightarrow> 'w \<Rightarrow> (msg list \<times> err option) \<times> 'w" where
  "v2_receive env v [] out w = ((out, None), pw_wait v w)"
| "v2_receive env v (m # ms) out w =
     (let w1 = pw_wait v w in
      case pu_ctxErr env w1 of
        Some e \<Rightarrow> ((out, Some e), w1)
      | None \<Rightarrow> v2_receive env v ms (out @ [jetstreamMsgToNATS m]) w1)"

definition v2_collect ::
  "('s, 'v, 'w) pull_env \<Rightarrow> ('k, 'w) v2_env \<Rightarrow> consumer \<Rightarrow> js_msg list \<Rightarrow> err option \<Rightarrow> 'w \<Rightarrow> (msg list \<times> err option) \<times> 'w" where
  "v2_collect env v c ms ferr w =
     (case v2_receive env v ms [] w of
        ((out, Some e), w1) \<Rightarrow> ((out, Some e), w1)
      | ((out, None), w1) \<Rightarrow>
          (case (if out = [] then ferr else None) of
             Some e \<Rightarrow>
               ((out, if isFetchIdleErr v e then None
                      else if errors_Is e CtxCanceled \<or> errors_Is e CtxDeadlineExceeded then Some e
                      else Some (wrap1 ''pull v2 fetch batch=%d: %w'' e)), w1)
           | None \<Rightarrow>
               ((out, None), if c_hasMetrics c then ce_metric (pu_con env) (FetchBatchSize (length out)) w1 else w1)))"

definition v2_Fetch ::
  "('s, 'v, 'w) pull_env \<Rightarrow> ('k, 'w) v2_env \<Rightarrow> 'k \<Rightarrow> consumer \<Rightarrow> int \<Rightarrow> FetchOpt list \<Rightarrow> 'w
     \<Rightarrow> (msg list \<times> err option) \<times> 'w" where
  "v2_Fetch env v cons c batch opts w =
     (case ensureOpen v w of
        Some e \<Rightarrow> (([], Some e), w)
      | None \<Rightarrow>
          let cfg = fold (\<lambda>opt. opt) opts \<lparr> f_maxWait = defaultFetchMaxWait, f_heartbeat = 0 \<rparr> in
          case pu_ctxErr env w of
            Some e \<Rightarrow> (([], Some e), w)
          | None \<Rightarrow>
              (case pw_Fetch v cons batch (fetch_opts cfg) (snd (ce_now (pu_con env) w)) of (r, w1) \<Rightarrow>
                 let w2 = (if c_hasMetrics c then ce_metric (pu_con env) FetchWaitTime (snd (ce_now (pu_con env) w1)) else w1) in
                 case r of
                   Inl e \<Rightarrow>
                     (([], Some (if errors_Is e CtxCanceled \<or> errors_Is e CtxDeadlineExceeded then e
                                 else wrap1 ''pull v2 fetch batch=%d: %w'' e)), w2)
                 | Inr (ms, ferr) \<Rightarrow> v2_collect env v c ms ferr w2))"

text \<open>\<open>FetchNoWait\<close> has a context of its own, which is never done, and waits for a millisecond.\<close>

definition v2_FetchNoWait ::
  "('s, 'v, 'w) pull_env \<Rightarrow> ('k, 'w) v2_env \<Rightarrow> 'k \<Rightarrow> consumer \<Rightarrow> int \<Rightarrow> 'w \<Rightarrow> (msg list \<times> err option) \<times> 'w" where
  "v2_FetchNoWait env v cons c batch w =
     v2_Fetch (env\<lparr> pu_ctxErr := (\<lambda>_. None) \<rparr>) v cons c batch [WithFetchMaxWait 1000000] w"

section \<open>Processing\<close>

text \<open>A batch is given to the three ways of the old pull consumer, with the same order of choices.\<close>

definition v2_processBatch ::
  "('s, 'v, 'w) pull_env \<Rightarrow> compressors \<Rightarrow> 'w MsgHandler \<Rightarrow> processConfig \<Rightarrow> consumer \<Rightarrow> msg list \<Rightarrow> 'w
     \<Rightarrow> (err option \<times> consumer \<times> 'w) option" where
  "v2_processBatch env z handler cfg c messages w =
     (if messages = [] then Some (None, c, w)
      else
        let w1 = snd (ce_now (pu_con env) w);
            finish = (\<lambda>w. if c_hasMetrics c
                          then ce_metric (pu_con env) PullBatchProcessTime (snd (ce_now (pu_con env) w)) else w) in
        if rc_WorkerPoolEnabled (c_cfg c) then
          (case processBatchWithPool env z handler c messages w1 of
             None \<Rightarrow> None
           | Some (Some e, c1, w2) \<Rightarrow> Some (Some e, c1, nakRemaining env messages w2)
           | Some (None, c1, w2) \<Rightarrow> Some (None, c1, finish w2))
        else if pr_concurrency cfg > 1 then
          (case processBatchConcurrent env z c handler (pr_concurrency cfg) messages w1 of
             None \<Rightarrow> None
           | Some (Some e, w2) \<Rightarrow> Some (Some e, c, w2)
           | Some (None, w2) \<Rightarrow> Some (None, c, finish w2))
        else
          (case batch_seq env z c handler messages w1 of
             (Some e, w2) \<Rightarrow> Some (Some e, c, w2)
           | (None, w2) \<Rightarrow> Some (None, c, finish w2)))"

lemma v2_processBatch_same: "v2_processBatch = processBatch"
  by (intro ext) (simp add: v2_processBatch_def processBatch_def Let_def split: prod.splits option.splits)

definition v2_round ::
  "('s, 'v, 'w) pull_env \<Rightarrow> ('k, 'w) v2_env \<Rightarrow> 'k \<Rightarrow> compressors \<Rightarrow> 'w MsgHandler \<Rightarrow> processConfig \<Rightarrow> consumer \<Rightarrow> 'w
     \<Rightarrow> (err \<times> consumer \<times> 'w + consumer \<times> 'w) option" where
  "v2_round env v cons z handler cfg c w =
     (case pu_ctxErr env w of
        Some e \<Rightarrow> Some (Inl (wrap1 ''pull process: %w'' e, c, w))
      | None \<Rightarrow>
          (case adapt_fetch c (pr_batch cfg) of (fetchBatch, pause, c1) \<Rightarrow>
             if pause then
               (case pu_pause env (PauseDuration (c_circuit c1)) w of (cancelled, w1) \<Rightarrow>
                  (case pu_ctxErr env w1 of
                     Some e \<Rightarrow> Some (if cancelled then Inl (wrap1 ''pull process: %w'' e, c1, w1) else Inr (c1, w1))
                   | None \<Rightarrow> Some (Inr (c1, w1))))
             else
               (case v2_Fetch env v cons c1 fetchBatch
                       (WithFetchMaxWait (pr_maxWait cfg)
                        # (if pr_heartbeat cfg > 0 then [WithFetchHeartbeat (pr_heartbeat cfg)] else [])) w of
                  ((messages, Some e), w1) \<Rightarrow>
                    Some (if errors_Is e CtxCanceled
                          then Inl (wrap1 ''pull process: %w'' e, c1,
                                    if messages = [] then w1 else nakRemaining env messages w1)
                          else if errors_Is e CtxDeadlineExceeded \<or> isFetchIdleErr v e then Inr (c1, w1)
                          else Inl (wrap1 ''pull process fetch: %w'' e, c1, w1))
                | ((messages, None), w1) \<Rightarrow>
                    if messages = [] then Some (Inr (c1, w1))
                    else
                      (case v2_processBatch env z handler cfg c1 messages w1 of
                         None \<Rightarrow> None
                       | Some (Some e, c2, w2) \<Rightarrow>
                           Some (if errors_Is e CtxCanceled \<or> errors_Is e CtxDeadlineExceeded \<or> errors_Is e ErrPoolStopped
                                 then Inl (e, c2, w2) else Inr (c2, w2))
                       | Some (None, c2, w2) \<Rightarrow> Some (Inr (c2, w2))))))"

text \<open>\<^const>\<open>None\<close>: the loop runs forever, or a batch does not return.\<close>

partial_function (option) v2_loop ::
  "('s, 'v, 'w) pull_env \<Rightarrow> ('k, 'w) v2_env \<Rightarrow> 'k \<Rightarrow> compressors \<Rightarrow> 'w MsgHandler \<Rightarrow> processConfig \<Rightarrow> consumer \<Rightarrow> 'w
     \<Rightarrow> (err \<times> consumer \<times> 'w) option" where
  "v2_loop env v cons z handler cfg c w =
     (case v2_round env v cons z handler cfg c w of
        None \<Rightarrow> None
      | Some (Inl r) \<Rightarrow> Some r
      | Some (Inr (c1, w1)) \<Rightarrow> v2_loop env v cons z handler cfg c1 w1)"

text \<open>The options are read as in the old pull consumer.\<close>

definition v2_Process ::
  "('s, 'v, 'w) pull_env \<Rightarrow> ('k, 'w) v2_env \<Rightarrow> 'k \<Rightarrow> compressors \<Rightarrow> 'w MsgHandler \<Rightarrow> ProcessOpt list \<Rightarrow> consumer \<Rightarrow> 'w
     \<Rightarrow> (err \<times> consumer \<times> 'w) option" where
  "v2_Process env v cons z handler opts c w = v2_loop env v cons z handler (process_config c opts) c w"

section \<open>What a fetch returns\<close>

text \<open>Without an error all messages of the batch are returned, in their order.\<close>

lemma v2_receive_all:
  "v2_receive env v ms out w = ((out', None), w') \<Longrightarrow> out' = out @ map jetstreamMsgToNATS ms"
  by (induction env v ms out w rule: v2_receive.induct) (auto simp: Let_def split: option.splits)

lemma v2_collect_all:
  assumes "v2_collect env v c ms ferr w = ((out, None), w')" "ms \<noteq> []"
  shows "out = map jetstreamMsgToNATS ms"
  using assms v2_receive_all [of env v ms "[]"]
  by (cases "v2_receive env v ms [] w"; cases "snd (fst (v2_receive env v ms [] w))")
    (auto simp: v2_collect_def split: option.splits if_splits)

text \<open>
  The messages that had arrived when the deadline of the context passed are returned with the error and
  then forgotten: they are neither processed nor given back.
\<close>

lemma deadline_forgets_messages:
  assumes "pu_ctxErr env w = None" "adapt_fetch c (pr_batch cfg) = (n, False, c1)"
    and "v2_Fetch env v cons c1 n (WithFetchMaxWait (pr_maxWait cfg)
           # (if pr_heartbeat cfg > 0 then [WithFetchHeartbeat (pr_heartbeat cfg)] else [])) w
         = ((messages, Some (ESent CtxDeadlineExceeded)), w1)"
  shows "v2_round env v cons z handler cfg c w = Some (Inr (c1, w1))"
  using assms by (simp add: v2_round_def)

section \<open>Nothing is acknowledged\<close>

text \<open>
  The calls of nats.go on messages without a subscription, as they are documented: they return
  \<open>ErrMsgNotBound\<close> and send nothing. \<open>V\<close> is what the server was told; metrics, the clock and the
  listeners do not change it.
\<close>

definition ErrMsgNotBound :: err where
  "ErrMsgNotBound = EMsg ''nats: message is not bound to subscription/connection''"

definition unbound_ops :: "'w con_env \<Rightarrow> ('w \<Rightarrow> 'x) \<Rightarrow> bool" where
  "unbound_ops con V \<longleftrightarrow>
     (\<forall>m w. ce_Ack con m w = (Some ErrMsgNotBound, w) \<and> ce_Nak con m w = (Some ErrMsgNotBound, w)
       \<and> ce_Term con m w = (Some ErrMsgNotBound, w) \<and> (\<forall>d. ce_NakWithDelay con d m w = (Some ErrMsgNotBound, w)))
   \<and> (\<forall>x w. V (ce_metric con x w) = V w) \<and> (\<forall>w. V (snd (ce_now con w)) = V w)
   \<and> (\<forall>f\<in>set (ce_activityListeners con). \<forall>w. V (f w) = V w)
   \<and> (\<forall>f\<in>set (ce_handledListeners con). \<forall>d w. V (f d w) = V w)"

definition handler_quiet :: "'w MsgHandler \<Rightarrow> ('w \<Rightarrow> 'x) \<Rightarrow> bool" where
  "handler_quiet handler V \<longleftrightarrow> (\<forall>m w. V (snd (handler m w)) = V w)"

lemma unbound_quiet:
  assumes "unbound_ops con V"
  shows "ce_Ack con m w = (Some ErrMsgNotBound, w)" "ce_Nak con m w = (Some ErrMsgNotBound, w)"
    "ce_Term con m w = (Some ErrMsgNotBound, w)" "ce_NakWithDelay con d m w = (Some ErrMsgNotBound, w)"
    "V (ce_metric con x w) = V w" "V (snd (ce_now con w)) = V w" "ce_now con w = (t, w') \<Longrightarrow> V w' = V w"
    "V (notifyProcessSuccess con w) = V w" "V (notifyMessageHandled con d w) = V w"
    "V (recordProcessError con c m w) = V w"
proof -
  show ops: "ce_Ack con m w = (Some ErrMsgNotBound, w)" "ce_Nak con m w = (Some ErrMsgNotBound, w)"
    "ce_Term con m w = (Some ErrMsgNotBound, w)" "ce_NakWithDelay con d m w = (Some ErrMsgNotBound, w)"
    "V (ce_metric con x w) = V w" "V (snd (ce_now con w)) = V w" for w x
    using assms by (simp_all add: unbound_ops_def)
  show "ce_now con w = (t, w') \<Longrightarrow> V w' = V w" using ops(6) [of w] by simp
  show "V (notifyProcessSuccess con w) = V w" "V (notifyMessageHandled con d w) = V w"
    unfolding notifyProcessSuccess_def notifyMessageHandled_def
    using assms by (auto intro!: fold_quiet simp: unbound_ops_def)
  show "V (recordProcessError con c m w) = V w"
    using assms by (simp add: recordProcessError_def unbound_ops_def)
qed

lemma process_begin_quiet:
  assumes "unbound_ops con V" "process_begin con c m w = (t, w')"
  shows "V w' = V w"
proof -
  note q = unbound_quiet [OF assms(1)]
  have "V w1 = V w" if "recordMessageMetrics con c m meta w = (t1, w1)" for t1 w1 meta
    using that q(5,7) by (auto simp: recordMessageMetrics_def Let_def split: prod.splits option.splits if_splits)
  then show ?thesis using assms(2) q(7) by (auto simp: process_begin_def Let_def split: prod.splits if_splits)
qed

lemma process_end_quiet:
  assumes "unbound_ops con V"
  shows "V (snd (process_end con c m e w)) = V w"
  using unbound_quiet(1,5,8,10) [OF assms]
  by (auto simp: process_end_def ErrMsgNotBound_def split: option.splits)

lemma processMessage_quiet:
  assumes "unbound_ops con V" "handler_quiet handler V"
  shows "V (snd (processMessage con z c m handler w)) = V w"
proof -
  note q = unbound_quiet [OF assms(1)]
  obtain t w1 where b: "process_begin con c m w = (t, w1)" by fastforce
  note w1 = process_begin_quiet [OF assms(1) b]
  show ?thesis
  proof (cases "if rc_PayloadDecompression (c_cfg c) then maybeDecompressMsg z m else Inr m")
    case (Inl e)
    then show ?thesis using b w1 q(10) by (simp add: processMessage_def)
  next
    case (Inr m')
    obtain e w2 where i: "invokeMsgHandler handler m' w1 = (e, w2)" by fastforce
    then have "V w2 = V w1"
      using assms(2) [unfolded handler_quiet_def, rule_format, of m' w1]
      by (auto simp: invokeMsgHandler_def split: prod.splits handler_result.splits)
    moreover obtain t3 w3 where n: "ce_now con w2 = (t3, w3)" by fastforce
    ultimately show ?thesis
      using Inr b i n w1 q(5,7,9) process_end_quiet [OF assms(1)] by (simp add: processMessage_def Let_def)
  qed
qed

lemma nakRemaining_quiet: "unbound_ops (pu_con env) V \<Longrightarrow> nakRemaining env ms w = w"
  by (induction ms arbitrary: w) (simp_all add: nakRemaining_def unbound_ops_def)

lemma batch_seq_quiet:
  assumes "unbound_ops (pu_con env) V" "handler_quiet handler V"
  shows "V (snd (batch_seq env z c handler ms w)) = V w"
  by (induction ms arbitrary: w)
    (simp_all add: processMessage_quiet [OF assms] nakRemaining_quiet [OF assms(1)] split: option.splits)

lemma conc_sequential_quiet:
  assumes "unbound_ops (pu_con env) V" "handler_quiet handler V"
  shows "V (snd (conc_sequential env z c handler ms w)) = V w"
proof (induction ms arbitrary: w)
  case (Cons m ms)
  then show ?case using processMessage_quiet [OF assms, of z c m w]
    by (cases "processMessage (pu_con env) z c m handler w") (auto split: option.splits)
qed simp

text \<open>The steps of the two batches that goroutines share.\<close>

lemma sched_exec_keeps:
  "(\<And>a s s'. step a s = Some s' \<Longrightarrow> I s' = I s) \<Longrightarrow> I (sched_exec step acts s) = I s"
  by (induction acts arbitrary: s) (auto simp: sched_exec_simps split: option.splits)

lemma conc_step_quiet:
  assumes "unbound_ops (pu_con env) V" "handler_quiet handler V" "conc_step env z c handler a s = Some s'"
  shows "V (k_world s') = V (k_world s)"
proof -
  note q = unbound_quiet(2,5) [OF assms(1)] nakRemaining_quiet [OF assms(1)]
  have "V (k_world s') = V (k_world s)" if "conc_caller env s = Some s'"
    using that q by (auto simp: conc_caller_def split: caller_pc.splits if_splits)
  moreover have "V (k_world s') = V (k_world s)" if "conc_worker env z c handler i s = Some s'" for i
  proof -
    have "V w1 = V (k_world s)" if "processMessage (pu_con env) z c m handler (k_world s) = (e, w1)" for m e w1
      using processMessage_quiet [OF assms(1,2), of z c m "k_world s"] that by simp
    then show ?thesis using that q
      by (auto simp: conc_worker_def split: job_pc.splits list.splits option.splits prod.splits if_splits)
  qed
  ultimately show ?thesis using assms(3) by (auto simp: conc_step_def split: batch_action.splits if_splits)
qed

lemma backpressure_quiet:
  assumes "unbound_ops con V" "handlePoolBackpressure con c m w = (e, c', w')"
  shows "V w' = V w"
  using assms(2) unbound_quiet(2-5) [OF assms(1)]
  by (auto simp: handlePoolBackpressure_def Let_def split: option.splits if_splits)

lemma pbatch_step_quiet:
  assumes "unbound_ops (pu_con env) V" "handler_quiet handler V" "pbatch_step env z handler a s = Some s'"
  shows "V (b_world s') = V (b_world s)"
proof -
  have enq: "V (b_world s') = V (b_world s)" if "enqueue env m ms s = Some s'" for m ms
    using that backpressure_quiet [OF assms(1)]
    by (auto simp: enqueue_def enq_break_def Let_def split: option.splits prod.splits if_splits)
  have closure: "V (b_world (batch_closure env z handler m s1)) = V (b_world s1)" for m s1
    using processMessage_quiet [OF assms(1,2), of z "b_c s1" m "b_world s1"]
    by (auto simp: batch_closure_def split: prod.splits)
  show ?thesis
  proof (cases a)
    case RunCaller
    then show ?thesis using assms(3) enq
      by (auto simp: pbatch_step_def pbatch_caller_def enq_break_def split: enq_pc.splits list.splits option.splits prod.splits if_splits)
  next
    case RunCtxDone
    then show ?thesis using assms(3)
      by (auto simp: pbatch_step_def pbatch_ctx_def enq_break_def Let_def split: enq_pc.splits option.splits)
  next
    case (RunWorker don i)
    then show ?thesis using assms(3) closure
      by (auto simp: pbatch_step_def pbatch_worker_def Let_def split: option.splits if_splits)
  qed
qed


text \<open>A handler that counts its calls, with the acknowledgements the server got.\<close>

definition unbound_con :: "(nat \<times> (string \<times> verdict) list) con_env" where
  "unbound_con = \<lparr> ce_Ack = (\<lambda>_ w. (Some ErrMsgNotBound, w)), ce_Nak = (\<lambda>_ w. (Some ErrMsgNotBound, w)),
     ce_NakWithDelay = (\<lambda>_ _ w. (Some ErrMsgNotBound, w)), ce_Term = (\<lambda>_ w. (Some ErrMsgNotBound, w)),
     ce_InProgress = (\<lambda>_ w. (Some ErrMsgNotBound, w)), ce_Respond = (\<lambda>_ _ w. (Some ErrMsgNotBound, w)),
     ce_metric = (\<lambda>_ w. w), ce_now = (\<lambda>w. (1, w)), ce_activityListeners = [], ce_handledListeners = [] \<rparr>"

definition unbound_env :: "(unit, unit, nat \<times> (string \<times> verdict) list) pull_env" where
  "unbound_env = \<lparr> pu_con = unbound_con, pu_ctxErr = (\<lambda>_. None), pu_sub = (\<lambda>_. None),
     pu_Fetch = (\<lambda>_ _ _ w. (([], None), w)), pu_Unsubscribe = (\<lambda>_ w. (None, w)),
     pu_PullSubscribe = (\<lambda>_ _ _ w. (Inr (), w)), pu_newV2 = None, pu_pause = (\<lambda>_ w. (False, w)),
     pu_sched = (\<lambda>w. ([], w)) \<rparr>"

definition counting_handler :: "(nat \<times> (string \<times> verdict) list) MsgHandler" where
  "counting_handler m w = (HReturn None, (fst w + 1, snd w))"

definition v2_demo_consumer :: consumer where
  "v2_demo_consumer = (demo_consumer 1)\<lparr> c_cfg := demo_cfg\<lparr> rc_WorkerPoolEnabled := False \<rparr> \<rparr>"


section \<open>The ordered consumer\<close>

record OrderedConsumerConfig =
  oc_FilterSubjects :: "string list"
  oc_FilterSubject :: string
  oc_OptStartTime :: "gotime option"
  oc_NamePrefix :: string
  oc_InactiveThreshold :: duration
  oc_OptStartSeq :: nat
  oc_DeliverPolicy :: nat
  oc_ReplayPolicy :: nat
  oc_HasDeliverPolicy :: bool
  oc_HasReplayPolicy :: bool
  oc_HeadersOnly :: bool

text \<open>The configuration of the new API; a policy that is not given has the value zero.\<close>

record js_ordered_config =
  jo_FilterSubjects :: "string list"
  jo_InactiveThreshold :: duration
  jo_HeadersOnly :: bool
  jo_NamePrefix :: string
  jo_OptStartSeq :: nat
  jo_OptStartTime :: "gotime option"
  jo_DeliverPolicy :: nat
  jo_ReplayPolicy :: nat

definition ordered_config :: "OrderedConsumerConfig \<Rightarrow> js_ordered_config" where
  "ordered_config cfg =
     \<lparr> jo_FilterSubjects = (if \<not> IsEmpty (oc_FilterSubject cfg) \<and> oc_FilterSubjects cfg = []
                           then [oc_FilterSubject cfg] else oc_FilterSubjects cfg),
       jo_InactiveThreshold = oc_InactiveThreshold cfg, jo_HeadersOnly = oc_HeadersOnly cfg,
       jo_NamePrefix = oc_NamePrefix cfg, jo_OptStartSeq = oc_OptStartSeq cfg, jo_OptStartTime = oc_OptStartTime cfg,
       jo_DeliverPolicy = (if oc_HasDeliverPolicy cfg then oc_DeliverPolicy cfg else 0),
       jo_ReplayPolicy = (if oc_HasReplayPolicy cfg then oc_ReplayPolicy cfg else 0) \<rparr>"

text \<open>The function the new API calls for each message.\<close>

definition ordered_deliver ::
  "'w con_env \<Rightarrow> compressors \<Rightarrow> consumer \<Rightarrow> 'w MsgHandler \<Rightarrow> js_msg \<Rightarrow> 'w \<Rightarrow> 'w" where
  "ordered_deliver con z c handler m w =
     (let nmsg = jetstreamMsgToNATS m in
      case (if rc_PayloadDecompression (c_cfg c) then maybeDecompressMsg z nmsg else Inr nmsg) of
        Inl _ \<Rightarrow> w
      | Inr nmsg \<Rightarrow>
          (case invokeMsgHandler handler nmsg w of
             (Some _, w1) \<Rightarrow> notifyMessageHandled con 0 w1
           | (None, w1) \<Rightarrow> notifyProcessSuccess con w1))"

record 'x orderedSubscription =
  os_cc :: "'x option"
  os_stopped :: bool
  os_once :: bool

text \<open>\<open>Stop\<close>; the list is what is stopped on the way.\<close>

definition ordered_Stop :: "'x orderedSubscription \<Rightarrow> 'x list \<times> 'x orderedSubscription" where
  "ordered_Stop sub = (if os_once sub then ([], sub)
     else (case os_cc sub of None \<Rightarrow> [] | Some cc \<Rightarrow> [cc], sub\<lparr> os_once := True, os_stopped := True \<rparr>))"

text \<open>
  \<open>jsNew\<close> is \<open>ord_consumer\<close>, \<^const>\<open>None\<close> without the new API; \<open>ord_consume\<close> starts the delivery with the given
  function. A goroutine calls \<open>Stop\<close> when the context is done.
\<close>

definition OrderedSubscribe ::
  "'w con_env \<Rightarrow> compressors \<Rightarrow> consumer
     \<Rightarrow> (string \<Rightarrow> js_ordered_config \<Rightarrow> 'w \<Rightarrow> 'k result \<times> 'w) option
     \<Rightarrow> ('k \<Rightarrow> (js_msg \<Rightarrow> 'w \<Rightarrow> 'w) \<Rightarrow> 'w \<Rightarrow> 'x result \<times> 'w)
     \<Rightarrow> string \<Rightarrow> OrderedConsumerConfig \<Rightarrow> 'w MsgHandler option \<Rightarrow> 'w \<Rightarrow> 'x orderedSubscription result \<times> 'w" where
  "OrderedSubscribe con z c ord_consumer ord_consume stream cfg handler w =
     (case ValidateStreamName stream of
        Some e \<Rightarrow> (Inl (wrap1 ''ordered subscribe stream=%q: %w'' e), w)
      | None \<Rightarrow>
          (case ord_consumer of
             None \<Rightarrow> (Inl (wrap1 ''ordered subscribe stream=%q: %w'' (ESent ErrJetStreamV2Required)), w)
           | Some mk \<Rightarrow>
               (case handler of
                  None \<Rightarrow> (Inl (EMsg ''ordered subscribe stream=%q: handler is nil''), w)
                | Some h \<Rightarrow>
                    (case mk stream (ordered_config cfg) w of
                       (Inl e, w1) \<Rightarrow> (Inl (wrap1 ''ordered consumer stream=%q: %w'' e), w1)
                     | (Inr cons, w1) \<Rightarrow>
                         (case ord_consume cons (ordered_deliver con z c h) w1 of
                            (Inl e, w2) \<Rightarrow> (Inl (wrap1 ''ordered consume stream=%q: %w'' e), w2)
                          | (Inr cc, w2) \<Rightarrow> (Inr \<lparr> os_cc = Some cc, os_stopped = False, os_once = False \<rparr>, w2))))))"

text \<open>However often \<open>Stop\<close> is called, by the caller or on cancellation, the delivery is stopped once.\<close>

lemma ordered_Stop_once:
  assumes "\<not> os_once sub" "os_cc sub = Some cc"
  defines "again \<equiv> \<lambda>(log, sub). (log @ fst (ordered_Stop sub), snd (ordered_Stop sub))"
  shows "(again ^^ Suc n) ([], sub) = ([cc], sub\<lparr> os_once := True, os_stopped := True \<rparr>)"
proof (induction n)
  case 0
  then show ?case using assms by (simp add: ordered_Stop_def)
next
  case (Suc n)
  have "(again ^^ Suc (Suc n)) ([], sub) = again ((again ^^ Suc n) ([], sub))" by simp
  also have "\<dots> = ([cc], sub\<lparr> os_once := True, os_stopped := True \<rparr>)"
    unfolding Suc by (simp add: again_def ordered_Stop_def)
  finally show ?case .
qed

end
