(* ===== verification/Metrics.thy ===== *)
theory Metrics
  imports Shard "HOL-Library.Word"
begin

text \<open>
  The instruments of the client and the collector of connection and JetStream statistics
  (\<open>metrics.go\<close>). The registry of the telemetry library, the statistics of the connection and the
  answers of the server are parameters. What is recorded is a list of events; an instrument that could
  not be created is nil and records nothing. The statistics are unsigned 64-bit numbers.
\<close>

section \<open>Instruments\<close>

datatype instrument_kind = Gauge | Counter | Histogram

text \<open>Field of the struct, kind, and the name after the prefix.\<close>

type_synonym metric_table = "(string \<times> instrument_kind \<times> string) list"

definition connection_metrics :: metric_table where
  "connection_metrics =
     [(''connectionState'', Gauge, ''/connection_state''),
      (''reconnectCount'', Counter, ''/reconnect_count''),
      (''connectionInBytes'', Counter, ''/connection_in_bytes''),
      (''connectionOutBytes'', Counter, ''/connection_out_bytes''),
      (''connectionErrors'', Counter, ''/connection_errors''),
      (''lameDuckEvents'', Counter, ''/lame_duck_events''),
      (''idleHeartbeatMisses'', Counter, ''/idle_heartbeat_misses''),
      (''resubscribeTotal'', Counter, ''/resubscribe_total''),
      (''supervisorGiveUp'', Counter, ''/supervisor_give_up''),
      (''consumerStall'', Counter, ''/consumer_stall''),
      (''slowConsumerDetected'', Counter, ''/slow_consumer_detected''),
      (''behaviorFingerprintAnomaly'', Counter, ''/behavior_fingerprint_anomaly'')]"

definition connection_full_metrics :: metric_table where
  "connection_full_metrics =
     [(''connectionRTT'', Histogram, ''/connection_rtt_seconds''),
      (''jsMemoryBytes'', Gauge, ''/jetstream_memory_bytes''),
      (''jsStorageBytes'', Gauge, ''/jetstream_storage_bytes'')]"

definition publish_metrics :: metric_table where
  "publish_metrics =
     [(''publishTotal'', Counter, ''/publish_total''),
      (''publishErrors'', Counter, ''/publish_errors''),
      (''publishLatency'', Histogram, ''/publish_latency_seconds''),
      (''publishBytes'', Histogram, ''/publish_bytes''),
      (''requestTotal'', Counter, ''/request_total''),
      (''requestErrors'', Counter, ''/request_errors''),
      (''requestLatency'', Histogram, ''/request_latency_seconds''),
      (''requestBytes'', Histogram, ''/request_bytes''),
      (''replyHandled'', Counter, ''/reply_handled''),
      (''replyErrors'', Counter, ''/reply_errors'')]"

definition consume_metrics :: metric_table where
  "consume_metrics =
     [(''messagesReceived'', Counter, ''/messages_received''),
      (''messagesErrors'', Counter, ''/messages_errors''),
      (''handlingTime'', Histogram, ''/message_handling_seconds''),
      (''messageBytes'', Histogram, ''/message_bytes''),
      (''redeliveryTotal'', Counter, ''/redelivery_total''),
      (''ackTotal'', Counter, ''/ack_total''),
      (''nakTotal'', Counter, ''/nak_total''),
      (''termTotal'', Counter, ''/term_total''),
      (''shadowErrorTotal'', Counter, ''/shadow_error_total''),
      (''shadowMismatchTotal'', Counter, ''/shadow_mismatch_total''),
      (''workerQueueDepth'', Gauge, ''/worker_queue_depth''),
      (''slowConsumerEvents'', Counter, ''/slow_consumer_events''),
      (''fetchBatchSize'', Histogram, ''/fetch_batch_size''),
      (''fetchWaitTime'', Histogram, ''/fetch_wait_seconds''),
      (''pullBatchProcessTime'', Histogram, ''/pull_batch_process_seconds''),
      (''pullBatchInflight'', Gauge, ''/pull_batch_inflight'')]"

definition jetstream_metrics :: metric_table where
  "jetstream_metrics =
     [(''streamMessages'', Gauge, ''/stream_messages''),
      (''streamBytes'', Gauge, ''/stream_bytes''),
      (''streamFirstSeq'', Gauge, ''/stream_first_seq''),
      (''streamLastSeq'', Gauge, ''/stream_last_seq''),
      (''streamConsumerCount'', Gauge, ''/stream_consumer_count''),
      (''streamReplicaCount'', Gauge, ''/stream_replica_count''),
      (''consumerNumPending'', Gauge, ''/consumer_num_pending''),
      (''consumerNumAckPending'', Gauge, ''/consumer_num_ack_pending''),
      (''consumerNumRedelivered'', Gauge, ''/consumer_num_redelivered''),
      (''consumerAckFloor'', Gauge, ''/consumer_ack_floor''),
      (''consumerLag'', Gauge, ''/consumer_lag_messages'')]"

text \<open>\<open>MetricsConfig\<close>, where \<open>TrackedConsumer\<close> is a pair of a stream and a durable.\<close>

record metrics_config =
  mx_Prefix :: string
  mx_TrackedStreams :: "string list"
  mx_TrackedConsumers :: "(string \<times> string) list"
  mx_CollectInterval :: duration
  mx_AllowMetrics :: bool
  mx_AllowTracing :: bool
  mx_Lite :: bool
  mx_FixedCardinality :: bool

abbreviation defaultMetricPrefix :: string where "defaultMetricPrefix \<equiv> ''nats''"

definition metric_table :: "bool \<Rightarrow> metric_table" where
  "metric_table lite = connection_metrics @ (if lite then [] else connection_full_metrics)
     @ publish_metrics @ consume_metrics @ (if lite then [] else jetstream_metrics)"

text \<open>The fields that are not nil.\<close>

record clientMetrics =
  cm_fields :: "string list"
  cm_fixedCardinality :: bool
  cm_lite :: bool

text \<open>\<open>registry kind name\<close> is the error of creating an instrument, which is only logged.\<close>

definition newClientMetrics :: "(instrument_kind \<Rightarrow> string \<Rightarrow> err option) \<Rightarrow> metrics_config \<Rightarrow> clientMetrics option" where
  "newClientMetrics registry cfg =
     (if \<not> mx_AllowMetrics cfg then None
      else
        let prefix = (if IsEmpty (mx_Prefix cfg) then defaultMetricPrefix else mx_Prefix cfg) in
        Some \<lparr> cm_fields = map fst (filter (\<lambda>(field, kind, name). registry kind (prefix @ name) = None) (metric_table (mx_Lite cfg))),
               cm_fixedCardinality = mx_FixedCardinality cfg, cm_lite = mx_Lite cfg \<rparr>)"

section \<open>Recording\<close>

text \<open>An event: the field, the value, and the label, absent where the code gives none.\<close>

datatype metric_event = Added string int "string option" | Recorded string int "string option" | RecordedSeconds string duration "string option"

definition metricSubjectLabel :: "clientMetrics option \<Rightarrow> string \<Rightarrow> string" where
  "metricSubjectLabel m subject =
     (case m of None \<Rightarrow> subject | Some cm \<Rightarrow> if cm_fixedCardinality cm then [] else subject)"

definition when_set :: "clientMetrics \<Rightarrow> string \<Rightarrow> metric_event list \<Rightarrow> metric_event list" where
  "when_set cm field es = (if field \<in> set (cm_fields cm) then es else [])"

definition addCounter :: "clientMetrics option \<Rightarrow> string \<Rightarrow> string \<Rightarrow> metric_event list" where
  "addCounter m field subject =
     (case m of None \<Rightarrow> [] | Some cm \<Rightarrow> when_set cm field [Added field 1 (Some (metricSubjectLabel m subject))])"

text \<open>The size is recorded as a float, which holds it exactly.\<close>

definition recordBytesLatency ::
  "clientMetrics option \<Rightarrow> string \<Rightarrow> string \<Rightarrow> string \<Rightarrow> nat \<Rightarrow> duration \<Rightarrow> metric_event list" where
  "recordBytesLatency m bytesHist latencyHist subject nbytes elapsed =
     (case m of
        None \<Rightarrow> []
      | Some cm \<Rightarrow>
          let label = metricSubjectLabel m subject in
          when_set cm bytesHist [Recorded bytesHist (int nbytes) (Some label)]
          @ when_set cm latencyHist [RecordedSeconds latencyHist elapsed (Some label)])"

section \<open>The collector\<close>

record conn_stats =
  st_InBytes :: "64 word"
  st_OutBytes :: "64 word"
  st_connected :: bool
  st_RTT :: "duration result"

record stream_stats =
  ss_Msgs :: "64 word"
  ss_Bytes :: "64 word"
  ss_FirstSeq :: "64 word"
  ss_LastSeq :: "64 word"
  ss_Consumers :: int
  ss_Replicas :: "nat option"

record consumer_stats =
  cs_NumPending :: "64 word"
  cs_NumAckPending :: int
  cs_NumRedelivered :: int
  cs_AckFloor :: "64 word"
  cs_Delivered :: "64 word"

text \<open>The answers of the server at one collection; the stream cluster is \<^const>\<open>None\<close> where it is nil.\<close>

record js_answers =
  ja_Account :: "(64 word \<times> 64 word) result"
  ja_Stream :: "string \<Rightarrow> stream_stats result"
  ja_Consumer :: "string \<Rightarrow> string \<Rightarrow> consumer_stats result"

text \<open>\<open>int64(x)\<close> of an unsigned number is \<^const>\<open>sint\<close>. The result is the new value of \<open>*last\<close> and the events.\<close>

definition recordByteDelta :: "clientMetrics \<Rightarrow> string \<Rightarrow> 64 word \<Rightarrow> 64 word \<Rightarrow> 64 word \<times> metric_event list" where
  "recordByteDelta cm counter current prev =
     (if counter \<notin> set (cm_fields cm) \<or> current < prev then (current, [])
      else
        let delta = sint (current - prev) in
        (current, if delta > 0 then [Added counter delta None] else []))"

text \<open>The two last readings are the state of the collector.\<close>

definition collectConnectionStats ::
  "clientMetrics \<Rightarrow> conn_stats \<Rightarrow> 64 word \<times> 64 word \<Rightarrow> (64 word \<times> 64 word) \<times> metric_event list" where
  "collectConnectionStats cm st prev =
     (case recordByteDelta cm ''connectionInBytes'' (st_InBytes st) (fst prev) of (lastIn, es1) \<Rightarrow>
      case recordByteDelta cm ''connectionOutBytes'' (st_OutBytes st) (snd prev) of (lastOut, es2) \<Rightarrow>
        ((lastIn, lastOut), es1 @ es2 @
           (if \<not> st_connected st \<or> ''connectionRTT'' \<notin> set (cm_fields cm) then []
            else (case st_RTT st of Inl _ \<Rightarrow> [] | Inr rtt \<Rightarrow> [RecordedSeconds ''connectionRTT'' rtt None]))))"

definition collectStream :: "clientMetrics \<Rightarrow> js_answers \<Rightarrow> string \<Rightarrow> stream_stats option \<times> metric_event list" where
  "collectStream cm js name =
     (case ja_Stream js name of
        Inl _ \<Rightarrow> (None, [])
      | Inr info \<Rightarrow>
          (Some info,
           when_set cm ''streamMessages'' [Recorded ''streamMessages'' (sint (ss_Msgs info)) (Some name)]
           @ when_set cm ''streamBytes'' [Recorded ''streamBytes'' (sint (ss_Bytes info)) (Some name)]
           @ when_set cm ''streamFirstSeq'' [Recorded ''streamFirstSeq'' (sint (ss_FirstSeq info)) (Some name)]
           @ when_set cm ''streamLastSeq'' [Recorded ''streamLastSeq'' (sint (ss_LastSeq info)) (Some name)]
           @ when_set cm ''streamConsumerCount'' [Recorded ''streamConsumerCount'' (ss_Consumers info) (Some name)]
           @ (case ss_Replicas info of
                None \<Rightarrow> []
              | Some n \<Rightarrow> when_set cm ''streamReplicaCount'' [Recorded ''streamReplicaCount'' (int n + 1) (Some name)])))"

definition consumer_lag :: "stream_stats \<Rightarrow> consumer_stats \<Rightarrow> int" where
  "consumer_lag st info = max (i64 (sint (ss_LastSeq st) - sint (cs_Delivered info))) 0"

definition collectConsumer ::
  "clientMetrics \<Rightarrow> js_answers \<Rightarrow> string \<Rightarrow> string \<Rightarrow> (string \<rightharpoonup> stream_stats) \<Rightarrow> metric_event list" where
  "collectConsumer cm js stream durable streamCache =
     (case ja_Consumer js stream durable of
        Inl _ \<Rightarrow> []
      | Inr info \<Rightarrow>
          let label = Some (stream @ ''.'' @ durable) in
          when_set cm ''consumerNumPending'' [Recorded ''consumerNumPending'' (sint (cs_NumPending info)) label]
          @ when_set cm ''consumerNumAckPending'' [Recorded ''consumerNumAckPending'' (cs_NumAckPending info) label]
          @ when_set cm ''consumerNumRedelivered'' [Recorded ''consumerNumRedelivered'' (cs_NumRedelivered info) label]
          @ when_set cm ''consumerAckFloor'' [Recorded ''consumerAckFloor'' (sint (cs_AckFloor info)) label]
          @ (if ''consumerLag'' \<in> set (cm_fields cm) then
               (case (case streamCache stream of Some st \<Rightarrow> Inr st | None \<Rightarrow> ja_Stream js stream) of
                  Inl _ \<Rightarrow> []
                | Inr st \<Rightarrow> [Recorded ''consumerLag'' (consumer_lag st info) label])
             else []))"

definition collectJetStream :: "clientMetrics \<Rightarrow> metrics_config \<Rightarrow> js_answers \<Rightarrow> metric_event list" where
  "collectJetStream cm cfg js =
     (let account = (case ja_Account js of
            Inl _ \<Rightarrow> []
          | Inr (memory, store) \<Rightarrow>
              when_set cm ''jsMemoryBytes'' [Recorded ''jsMemoryBytes'' (sint memory) None]
              @ when_set cm ''jsStorageBytes'' [Recorded ''jsStorageBytes'' (sint store) None]);
          streams = map (\<lambda>name. (name, collectStream cm js name)) (mx_TrackedStreams cfg);
          cache = (\<lambda>name. case List.find (\<lambda>(n, si, _). n = name \<and> si \<noteq> None) streams of
                            None \<Rightarrow> None | Some (_, si, _) \<Rightarrow> si) in
      account @ concat (map (snd \<circ> snd) streams)
      @ concat (map (\<lambda>(stream, durable). collectConsumer cm js stream durable cache) (mx_TrackedConsumers cfg)))"

text \<open>A missing connection or JetStream context is \<^const>\<open>None\<close>.\<close>

definition collect ::
  "clientMetrics \<Rightarrow> metrics_config \<Rightarrow> conn_stats option \<Rightarrow> js_answers option \<Rightarrow> 64 word \<times> 64 word
     \<Rightarrow> (64 word \<times> 64 word) \<times> metric_event list" where
  "collect cm cfg conn js prev =
     (case (case conn of None \<Rightarrow> (prev, []) | Some st \<Rightarrow> collectConnectionStats cm st prev) of (prev1, es) \<Rightarrow>
        (prev1, es @ (case js of None \<Rightarrow> [] | Some js \<Rightarrow> if cm_lite cm then [] else collectJetStream cm cfg js)))"

abbreviation defaultMetricsCollectInterval :: duration where "defaultMetricsCollectInterval \<equiv> 15 * Second"

text \<open>The interval at which the collector runs; \<^const>\<open>None\<close> where there is no collector.\<close>

definition newMetricsCollector :: "clientMetrics option \<Rightarrow> metrics_config \<Rightarrow> duration option" where
  "newMetricsCollector metrics cfg =
     (if metrics = None \<or> \<not> mx_AllowMetrics cfg then None
      else Some (if mx_CollectInterval cfg \<le> 0 then defaultMetricsCollectInterval else mx_CollectInterval cfg))"

text \<open>The ticks until the context is done; both readings start at zero.\<close>

definition collector_run ::
  "clientMetrics \<Rightarrow> metrics_config \<Rightarrow> (conn_stats option \<times> js_answers option) list \<Rightarrow> (64 word \<times> 64 word) \<times> metric_event list" where
  "collector_run cm cfg ticks =
     fold (\<lambda>(conn, js) (prev, es). case collect cm cfg conn js prev of (prev', es') \<Rightarrow> (prev', es @ es')) ticks ((0, 0), [])"

section \<open>Names\<close>

text \<open>No two instruments share a name or a field, with and without the statistics of the full set.\<close>

lemma metric_names_distinct: "distinct (map (snd \<circ> snd) (metric_table lite))" "distinct (map fst (metric_table lite))"
proof -
  have full: "metric_table False = connection_metrics @ connection_full_metrics @ publish_metrics @ consume_metrics @ jetstream_metrics"
    by (simp add: metric_table_def)
  have names: "distinct (map (snd \<circ> snd) (metric_table False))" and fields: "distinct (map fst (metric_table False))"
    unfolding full connection_metrics_def connection_full_metrics_def publish_metrics_def consume_metrics_def
      jetstream_metrics_def by code_simp+
  have lite: "metric_table True = connection_metrics @ publish_metrics @ consume_metrics" by (simp add: metric_table_def)
  show "distinct (map (snd \<circ> snd) (metric_table lite))" using names unfolding full by (cases lite) (auto simp: lite full)
  show "distinct (map fst (metric_table lite))" using fields unfolding full by (cases lite) (auto simp: lite full)
qed

section \<open>The byte counters\<close>

text \<open>What a sequence of readings adds to a counter.\<close>

fun counted :: "clientMetrics \<Rightarrow> string \<Rightarrow> 64 word \<Rightarrow> 64 word list \<Rightarrow> int" where
  "counted cm counter prev [] = 0"
| "counted cm counter prev (r # rs) =
     (case recordByteDelta cm counter r prev of (prev', es) \<Rightarrow>
        sum_list (map (\<lambda>e. case e of Added _ d _ \<Rightarrow> d | _ \<Rightarrow> 0) es) + counted cm counter prev' rs)"

lemma sint_small: "unat (x :: 64 word) < 2 ^ 63 \<Longrightarrow> sint x = int (unat x)"
proof -
  assume "unat x < 2 ^ 63"
  then have "int (unat x) < int (2 ^ 63)" by (simp only: of_nat_less_iff)
  then have "signed_take_bit 63 (int (unat x)) = int (unat x)" 
    by (intro signed_take_bit_int_eq_self) (simp_all add: order_trans [OF _ uint_ge_0])
  then show ?thesis by (simp only: sint_uint uint_nat) simp
qed

text \<open>
  As long as the readings do not go down, the counter grows by exactly the bytes between the first and the
  last reading, whatever their number. (Readings below \<open>2 ^ 63\<close>: beyond, a difference may not fit.)
\<close>

lemma byte_counter_exact:
  assumes "counter \<in> set (cm_fields cm)" "sorted (prev # rs)" "unat (last (prev # rs)) < 2 ^ 63"
  shows "counted cm counter prev rs = int (unat (last (prev # rs))) - int (unat prev)"
  using assms(2,3)
proof (induction rs arbitrary: prev)
  case (Cons r rs)
  have le: "prev \<le> r" "r \<le> last (r # rs)" using Cons.prems(1) by (auto simp: sorted_append) 
  have "unat (r - prev) = unat r - unat prev" using le(1) by (simp add: unat_sub)
  moreover have "unat r < 2 ^ 63" "unat prev \<le> unat r" using le Cons.prems(2) by (auto simp: word_le_nat_alt)
  ultimately have "sint (r - prev) = int (unat r) - int (unat prev)" using sint_small [of "r - prev"] by simp
  moreover have "uint prev \<le> uint r" using le(1) by (simp add: word_le_def)
  ultimately show ?case using assms(1) le(1) Cons by (auto simp: recordByteDelta_def Let_def)
qed simp

text \<open>The lag of a consumer is what the stream has beyond the last delivery, never negative.\<close>

lemma consumer_lag_exact:
  assumes "unat (ss_LastSeq st) < 2 ^ 63" "unat (cs_Delivered info) < 2 ^ 63"
  shows "consumer_lag st info = int (unat (ss_LastSeq st) - unat (cs_Delivered info))"
proof -
  define a b where "a = unat (ss_LastSeq st)" and "b = unat (cs_Delivered info)"
  then have "consumer_lag st info = max (i64 (int a - int b)) 0" "a < 2 ^ 63" "b < 2 ^ 63"
    using assms sint_small [OF assms(1)] sint_small [OF assms(2)] unfolding consumer_lag_def a_def b_def by (simp_all only:)
  moreover have "in_i64 (int a - int b)" using \<open>a < 2 ^ 63\<close> \<open>b < 2 ^ 63\<close> by (simp add: in_i64_def)
  ultimately show ?thesis unfolding a_def [symmetric] b_def [symmetric] by (simp add: i64_id max_def)
qed

end
