(* ===== verification/Subscriptions.thy ===== *)
theory Subscriptions
  imports Publisher Consumer
begin

text \<open>
  The handle of a subscription with the goroutine that drains it on cancellation, the end of a push
  consumer (\<open>consumer_push.go\<close>) and the subscriptions of the responder (\<open>responder.go\<close>). The
  subscription of nats.go is a parameter.
\<close>

section \<open>The handle and its goroutine\<close>

record ('s, 'w) sub_ops =
  sb_IsValid :: "'s \<Rightarrow> 'w \<Rightarrow> bool"
  sb_Unsubscribe :: "'s \<Rightarrow> 'w \<Rightarrow> err option \<times> 'w"
  sb_Drain :: "'s \<Rightarrow> 'w \<Rightarrow> err option \<times> 'w"
  sb_Subject :: "'s \<Rightarrow> string"
  sb_SetPendingLimits :: "'s \<Rightarrow> int \<Rightarrow> int \<Rightarrow> 'w \<Rightarrow> err option \<times> 'w"
  sb_Type :: "'s \<Rightarrow> int"
  sb_ctxDone :: "'w \<Rightarrow> bool"

datatype drain_pc = DrainWait | DrainCheck | DrainExit

text \<open>
  \<open>h_ctxs\<close>: the child contexts made for this handle, and whether their cancel function was called;
  \<open>h_drainCancel\<close>: which of them the field \<open>drainCancel\<close> cancels; one goroutine waits for each.
\<close>

record 's sub_handle =
  h_sub :: "'s option"
  h_drainCancel :: "nat option"
  h_ctxs :: "bool list"
  h_drainers :: "drain_pc list"

definition new_handle :: "'s option \<Rightarrow> 's sub_handle" where
  "new_handle sub = \<lparr> h_sub = sub, h_drainCancel = None, h_ctxs = [], h_drainers = [] \<rparr>"

definition drainOnCancel :: "'s sub_handle \<Rightarrow> 's sub_handle" where
  "drainOnCancel h = h\<lparr> h_drainCancel := Some (length (h_ctxs h)), h_ctxs := h_ctxs h @ [False],
     h_drainers := h_drainers h @ [DrainWait] \<rparr>"

text \<open>A child context is done when its cancel function was called or its parent is done.\<close>

definition drainer_step :: "('s, 'w) sub_ops \<Rightarrow> nat \<Rightarrow> 's sub_handle \<times> 'w \<Rightarrow> ('s sub_handle \<times> 'w) option" where
  "drainer_step sop i hw =
     (case hw of (h, w) \<Rightarrow>
      case h_drainers h ! i of
        DrainWait \<Rightarrow>
          if h_ctxs h ! i \<or> sb_ctxDone sop w then Some (h\<lparr> h_drainers := (h_drainers h)[i := DrainCheck] \<rparr>, w) else None
      | DrainCheck \<Rightarrow>
          let h' = h\<lparr> h_drainers := (h_drainers h)[i := DrainExit] \<rparr> in
          Some (case h_sub h of
                  Some s \<Rightarrow> if sb_IsValid sop s w then (h', snd (sb_Drain sop s w)) else (h', w)
                | None \<Rightarrow> (h', w))
      | DrainExit \<Rightarrow> None)"

text \<open>\<open>if s.drainCancel != nil { s.drainCancel(); s.drainCancel = nil }\<close>\<close>

definition handle_cancel :: "'s sub_handle \<Rightarrow> 's sub_handle" where
  "handle_cancel h =
     (case h_drainCancel h of
        None \<Rightarrow> h
      | Some i \<Rightarrow> h\<lparr> h_ctxs := (h_ctxs h)[i := True], h_drainCancel := None \<rparr>)"

text \<open>The calls of the handle; between the cancellation and the call of nats.go goroutines may run.\<close>

definition handle_Unsubscribe :: "('s, 'w) sub_ops \<Rightarrow> 's sub_handle \<Rightarrow> 'w \<Rightarrow> err option \<times> 's sub_handle \<times> 'w" where
  "handle_Unsubscribe sop h w =
     (case h_sub h of
        None \<Rightarrow> (Some (ESent ErrInvalidSubscription), h, w)
      | Some s \<Rightarrow> (case sb_Unsubscribe sop s w of (e, w1) \<Rightarrow> (e, handle_cancel h, w1)))"

definition handle_Drain :: "('s, 'w) sub_ops \<Rightarrow> 's sub_handle \<Rightarrow> 'w \<Rightarrow> err option \<times> 's sub_handle \<times> 'w" where
  "handle_Drain sop h w =
     (case h_sub h of
        None \<Rightarrow> (Some (ESent ErrInvalidSubscription), h, w)
      | Some s \<Rightarrow> (case sb_Drain sop s w of (e, w1) \<Rightarrow> (e, handle_cancel h, w1)))"

definition handle_IsValid :: "('s, 'w) sub_ops \<Rightarrow> 's sub_handle \<Rightarrow> 'w \<Rightarrow> bool" where
  "handle_IsValid sop h w = (case h_sub h of None \<Rightarrow> False | Some s \<Rightarrow> sb_IsValid sop s w)"

definition handle_Subject :: "('s, 'w) sub_ops \<Rightarrow> 's sub_handle \<Rightarrow> string" where
  "handle_Subject sop h = (case h_sub h of None \<Rightarrow> [] | Some s \<Rightarrow> sb_Subject sop s)"

definition handle_SetPendingLimits :: "('s, 'w) sub_ops \<Rightarrow> 's sub_handle \<Rightarrow> int \<Rightarrow> int \<Rightarrow> 'w \<Rightarrow> err option \<times> 'w" where
  "handle_SetPendingLimits sop h msgLimit bytesLimit w =
     (case h_sub h of
        None \<Rightarrow> (Some (ESent ErrInvalidSubscription), w)
      | Some s \<Rightarrow> sb_SetPendingLimits sop s msgLimit bytesLimit w)"

definition handle_Type :: "('s, 'w) sub_ops \<Rightarrow> 's sub_handle \<Rightarrow> int" where
  "handle_Type sop h = (case h_sub h of None \<Rightarrow> -1 | Some s \<Rightarrow> sb_Type sop s)"

text \<open>
  Once \<open>Unsubscribe\<close> or \<open>Drain\<close> was called on a handle whose goroutine waits, the goroutine runs to its
  end in two steps, whatever becomes of the parent context: none is left behind.
\<close>

lemma unsubscribe_releases:
  assumes "h = drainOnCancel (new_handle (Some s))" "handle_Unsubscribe sop h w = (e, h1, w1)"
  shows "\<exists>h2 h3 w3. drainer_step sop 0 (h1, w2) = Some (h2, w2) \<and> drainer_step sop 0 (h2, w2') = Some (h3, w3)
    \<and> h_drainers h3 = [DrainExit]"
  using assms
  by (auto simp: drainOnCancel_def new_handle_def handle_Unsubscribe_def handle_cancel_def drainer_step_def Let_def
      split: prod.splits)

text \<open>
  But the goroutine may run between the cancellation and the call of nats.go. It then sees a valid
  subscription and drains it, so \<open>Unsubscribe\<close> drains first.
\<close>

lemma unsubscribe_may_drain:
  assumes "h = handle_cancel (drainOnCancel (new_handle (Some s)))" "sb_IsValid sop s w"
  shows "\<exists>h1 h2. drainer_step sop 0 (h, w) = Some (h1, w) \<and> drainer_step sop 0 (h1, w) = Some (h2, snd (sb_Drain sop s w))"
  using assms by (auto simp: drainOnCancel_def new_handle_def handle_cancel_def drainer_step_def Let_def)

section \<open>The end of a push consumer\<close>

text \<open>The sampler of the queue depth is started with the consumer under this condition; a tick of it.\<close>

definition starts_sampler :: "RuntimeConsumerConfig \<Rightarrow> bool \<Rightarrow> duration \<Rightarrow> bool" where
  "starts_sampler cfg hasMetrics interval \<longleftrightarrow> rc_WorkerPoolEnabled cfg \<and> hasMetrics \<and> interval > 0"

definition sampler_tick :: "consumer \<Rightarrow> int option" where
  "sampler_tick c =
     (case c_workerPool c of None \<Rightarrow> None | Some pool \<Rightarrow> if c_hasMetrics c then Some (QueueDepth pool) else None)"

datatype stop_call = CloseDepthStop | StopTicker | StopPool | CancelContext

record consumer_end =
  e_depthStop :: bool
  e_depthTicker :: bool
  e_pool :: bool
  e_cancel :: bool
  e_once :: bool

definition consumer_stop :: "consumer_end \<Rightarrow> stop_call list \<times> consumer_end" where
  "consumer_stop s =
     (if e_once s then ([], s)
      else ((if e_depthStop s then [CloseDepthStop] else []) @ (if e_depthTicker s then [StopTicker] else [])
            @ (if e_pool s then [StopPool] else []) @ (if e_cancel s then [CancelContext] else []),
            s\<lparr> e_once := True, e_cancel := False \<rparr>))"

text \<open>A second call does nothing, so no channel is closed twice; the pool is drained before its context ends.\<close>

lemma consumer_stop_twice: "consumer_stop (snd (consumer_stop s)) = ([], snd (consumer_stop s))"
  by (simp add: consumer_stop_def)

section \<open>The responder\<close>

record ResponderConfig =
  rq_AllowMetrics :: bool
  rq_AllowTracing :: bool
  rq_PayloadCompression :: PayloadCompressionMode
  rq_PayloadDecompression :: bool

record responder =
  re_conn :: bool
  re_metrics :: bool
  re_allowMetrics :: bool
  re_allowTracing :: bool
  re_payloadCompression :: PayloadCompressionMode
  re_payloadDecompression :: bool

definition newResponder :: "ResponderConfig \<Rightarrow> bool \<Rightarrow> bool \<Rightarrow> bool \<Rightarrow> responder" where
  "newResponder cfg conn metrics allowTracing =
     \<lparr> re_conn = conn, re_metrics = metrics, re_allowMetrics = rq_AllowMetrics cfg,
       re_allowTracing = (allowTracing \<and> rq_AllowTracing cfg), re_payloadCompression = rq_PayloadCompression cfg,
       re_payloadDecompression = rq_PayloadDecompression cfg \<rparr>"

datatype reply_metric = ReplyHandled | ReplyErrors

text \<open>\<open>tally\<close> adds to a counter under a subject.\<close>

definition recordHandled :: "(reply_metric \<Rightarrow> string \<Rightarrow> 'w \<Rightarrow> 'w) \<Rightarrow> responder \<Rightarrow> string \<Rightarrow> 'w \<Rightarrow> 'w" where
  "recordHandled tally r subject w = (if \<not> re_allowMetrics r \<or> \<not> re_metrics r then w else tally ReplyHandled subject w)"

definition recordError :: "(reply_metric \<Rightarrow> string \<Rightarrow> 'w \<Rightarrow> 'w) \<Rightarrow> responder \<Rightarrow> string \<Rightarrow> 'w \<Rightarrow> 'w" where
  "recordError tally r subject w = (if \<not> re_allowMetrics r \<or> \<not> re_metrics r then w else tally ReplyErrors subject w)"

definition responder_wrap ::
  "(reply_metric \<Rightarrow> string \<Rightarrow> 'w \<Rightarrow> 'w) \<Rightarrow> compressors \<Rightarrow> responder \<Rightarrow> 'w MsgHandler \<Rightarrow> msg \<Rightarrow> 'w \<Rightarrow> 'w" where
  "responder_wrap tally z r handler m w =
     (case (if re_payloadDecompression r then maybeDecompressMsg z m else Inr m) of
        Inl _ \<Rightarrow> recordError tally r (msg_Subject m) w
      | Inr m' \<Rightarrow>
          (case invokeMsgHandler handler m' w of
             (Some _, w1) \<Rightarrow> recordError tally r (msg_Subject m') w1
           | (None, w1) \<Rightarrow> recordHandled tally r (msg_Subject m') w1))"

text \<open>\<open>conn_sub\<close> is the subscription of the connection, with a queue or without.\<close>

definition responder_Subscribe ::
  "(string \<Rightarrow> string option \<Rightarrow> (msg \<Rightarrow> 'w \<Rightarrow> 'w) \<Rightarrow> 'w \<Rightarrow> 's result \<times> 'w) \<Rightarrow> (reply_metric \<Rightarrow> string \<Rightarrow> 'w \<Rightarrow> 'w) \<Rightarrow> compressors
     \<Rightarrow> responder \<Rightarrow> string \<Rightarrow> 'w MsgHandler option \<Rightarrow> 'w \<Rightarrow> 's sub_handle result \<times> 'w" where
  "responder_Subscribe conn_sub tally z r subject handler w =
     (if \<not> re_conn r then (Inl (ESent ErrNatsConnectionNotEstablished), w)
      else
        (case ValidateSubject subject of
           Some e \<Rightarrow> (Inl (wrap1 ''responder subscribe subject=%q: %w'' e), w)
         | None \<Rightarrow>
             (case handler of
                None \<Rightarrow> (Inl (EMsg ''responder subscribe subject=%q: nil handler''), w)
              | Some h \<Rightarrow>
                  (case conn_sub subject None (responder_wrap tally z r h) w of
                     (Inl e, w1) \<Rightarrow> (Inl (wrap1 ''responder subscribe subject=%q: %w'' e), w1)
                   | (Inr sub, w1) \<Rightarrow> (Inr (drainOnCancel (new_handle (Some sub))), w1)))))"

definition responder_QueueSubscribe ::
  "(string \<Rightarrow> string option \<Rightarrow> (msg \<Rightarrow> 'w \<Rightarrow> 'w) \<Rightarrow> 'w \<Rightarrow> 's result \<times> 'w) \<Rightarrow> (reply_metric \<Rightarrow> string \<Rightarrow> 'w \<Rightarrow> 'w) \<Rightarrow> compressors
     \<Rightarrow> responder \<Rightarrow> string \<Rightarrow> string \<Rightarrow> 'w MsgHandler option \<Rightarrow> 'w \<Rightarrow> 's sub_handle result \<times> 'w" where
  "responder_QueueSubscribe conn_sub tally z r queue subject handler w =
     (if \<not> re_conn r then (Inl (ESent ErrNatsConnectionNotEstablished), w)
      else
        (case ValidateSubject subject of
           Some e \<Rightarrow> (Inl (wrap1 ''responder queue subscribe subject=%q: %w'' e), w)
         | None \<Rightarrow>
             (case ValidateQueueName queue of
                Some e \<Rightarrow> (Inl (wrap1 ''responder queue subscribe queue=%q: %w'' e), w)
              | None \<Rightarrow>
                  (case handler of
                     None \<Rightarrow> (Inl (EMsg ''responder queue subscribe subject=%q: nil handler''), w)
                   | Some h \<Rightarrow>
                       (case conn_sub subject (Some queue) (responder_wrap tally z r h) w of
                          (Inl e, w1) \<Rightarrow> (Inl (wrap1 ''responder queue subscribe subject=%q queue=%q: %w'' e), w1)
                        | (Inr sub, w1) \<Rightarrow> (Inr (drainOnCancel (new_handle (Some sub))), w1))))))"

text \<open>
  With metrics, every request counts once: as handled when its handler succeeded, as an error when it
  failed, panicked, or the payload could not be decompressed.
\<close>

lemma responder_counts_once:
  assumes "re_allowMetrics r" "re_metrics r" and quiet: "\<forall>m w. snd (handler m w) = w"
  shows "\<exists>k. responder_wrap (\<lambda>k _ ks. ks @ [k]) z r handler m ks = ks @ [k]
    \<and> (k = ReplyHandled \<longleftrightarrow>
        (\<exists>m'. (if re_payloadDecompression r then maybeDecompressMsg z m else Inr m) = Inr m'
              \<and> fst (handler m' ks) = HReturn None))"
proof -
  have "invokeMsgHandler handler m' ks = (case fst (handler m' ks) of HReturn e \<Rightarrow> e
      | HPanicError e \<Rightarrow> Some (wrap1 ''handler panic: %w'' e) | HPanicValue \<Rightarrow> Some (EMsg ''handler panic: %v''), ks)" for m'
    using quiet [rule_format, of m' ks]
    by (cases "handler m' ks"; cases "fst (handler m' ks)") (simp_all add: invokeMsgHandler_def)
  then show ?thesis using assms(1,2)
    by (auto simp: responder_wrap_def recordHandled_def recordError_def split: sum.splits handler_result.splits option.splits)
qed

end
