(* ===== verification/Tracing.thy ===== *)
theory Tracing
  imports Dlq
begin

text \<open>
  Tracing (\<open>tracing.go\<close>): the spans the library starts and ends and the headers it adds. The telemetry
  library is a parameter; a span is its name, its attributes and the headers its context was read from.
\<close>

section \<open>Header carriers\<close>

text \<open>A carrier from the pool holds what its last user left in it; it is emptied first.\<close>

definition acquireHeaderCarrier :: "(string \<times> string list) list \<Rightarrow> (string \<times> string list) list" where
  "acquireHeaderCarrier pooled = fold (\<lambda>k m. AList.delete k m) (map fst pooled) pooled"

definition fill_carrier :: "(string \<times> string list) list \<Rightarrow> msg option \<Rightarrow> (string \<times> string list) list" where
  "fill_carrier carrier msg =
     (case msg of
        None \<Rightarrow> carrier
      | Some m \<Rightarrow> (case msg_Header m of None \<Rightarrow> carrier | Some h \<Rightarrow> fold (\<lambda>(k, v) c. AList.update k v c) h carrier))"

section \<open>Spans\<close>

datatype span_attr = MessagingSystem | MessagingOperationPublish | MessagingOperationProcess | MessagingOperation string
  | MessagingSubject string | StreamSequence int | DeliveryCount int

text \<open>The context is that of the caller (\<^const>\<open>None\<close>) or the one read from a carrier.\<close>

datatype span = NoopSpan | Started string "span_attr list" "(string \<times> string list) list option"

definition startPublishSpan :: "string \<Rightarrow> bool \<Rightarrow> span" where
  "startPublishSpan subject allowTracing =
     (if \<not> allowTracing then NoopSpan
      else Started ''nats.publish'' [MessagingSystem, MessagingOperationPublish, MessagingSubject subject] None)"

definition startRequestSpan :: "string \<Rightarrow> bool \<Rightarrow> span" where
  "startRequestSpan subject allowTracing =
     (if \<not> allowTracing then NoopSpan
      else Started ''nats.request'' [MessagingSystem, MessagingOperation ''request'', MessagingSubject subject] None)"

definition span_subject :: "msg option \<Rightarrow> string" where
  "span_subject msg = (case msg of None \<Rightarrow> [] | Some m \<Rightarrow> msg_Subject m)"

definition startReplySpan :: "(string \<times> string list) list \<Rightarrow> msg option \<Rightarrow> bool \<Rightarrow> span" where
  "startReplySpan pooled msg allowTracing =
     (if \<not> allowTracing then NoopSpan
      else Started ''nats.reply'' [MessagingSystem, MessagingOperation ''reply'', MessagingSubject (span_subject msg)]
             (Some (fill_carrier (acquireHeaderCarrier pooled) msg)))"

text \<open>The numbers are unsigned in nats.go and are converted to \<open>int64\<close>.\<close>

definition startProcessSpan :: "(string \<times> string list) list \<Rightarrow> msg option \<Rightarrow> bool \<Rightarrow> msg_meta option \<Rightarrow> span" where
  "startProcessSpan pooled msg allowTracing meta =
     (if \<not> allowTracing then NoopSpan
      else Started ''nats.process''
             ([MessagingSystem, MessagingOperationProcess, MessagingSubject (span_subject msg)]
              @ (case meta of
                   None \<Rightarrow> []
                 | Some md \<Rightarrow> [StreamSequence (i64 (int (md_StreamSeq md))), DeliveryCount (i64 (int (md_NumDelivered md)))]))
             (Some (fill_carrier (acquireHeaderCarrier pooled) msg)))"

text \<open>\<open>tel_EndSpan\<close> ends a span with an error; a no-op span does not record. A nil span is \<^const>\<open>None\<close>.\<close>

definition endSpan :: "(span \<Rightarrow> bool) \<Rightarrow> (span \<Rightarrow> err option \<Rightarrow> 'w \<Rightarrow> 'w) \<Rightarrow> span option \<Rightarrow> err option \<Rightarrow> 'w \<Rightarrow> 'w" where
  "endSpan recording tel_EndSpan sp e w =
     (case sp of None \<Rightarrow> w | Some s \<Rightarrow> if recording s then tel_EndSpan s e w else w)"

text \<open>\<open>errp\<close> is a pointer, read when the deferred call runs.\<close>

definition endSpanPtr ::
  "(span \<Rightarrow> bool) \<Rightarrow> (span \<Rightarrow> err option \<Rightarrow> 'w \<Rightarrow> 'w) \<Rightarrow> span option \<Rightarrow> err option option \<Rightarrow> 'w \<Rightarrow> 'w" where
  "endSpanPtr recording tel_EndSpan sp errp w =
     endSpan recording tel_EndSpan sp (case errp of None \<Rightarrow> None | Some e \<Rightarrow> e) w"

section \<open>Headers\<close>

definition traceIDString :: "bytes \<Rightarrow> string" where
  "traceIDString trace_id = hex_EncodeToString trace_id"

text \<open>The slice of the old value is used again where it has room; the map then holds the one value.\<close>

definition setHeaderValue :: "header \<Rightarrow> string \<Rightarrow> string \<Rightarrow> header" where
  "setHeaderValue headers key v = header_Set headers key [v]"

definition TraceIDFromHeader :: "header \<Rightarrow> string" where
  "TraceIDFromHeader h = (case h of None \<Rightarrow> [] | Some _ \<Rightarrow> header_Get h HeaderTraceID)"

text \<open>
  \<open>active\<close> is the trace identifier of the recording span of the context: \<^const>\<open>None\<close> where the span does not
  record, \<open>Some None\<close> where it has none. \<open>tel_InjectContext\<close> is what the telemetry library adds.
\<close>

definition injectTraceContext :: "(header \<Rightarrow> header) \<Rightarrow> bytes option option \<Rightarrow> header \<Rightarrow> header" where
  "injectTraceContext tel_InjectContext active h =
     (case active of
        None \<Rightarrow> h
      | Some tid \<Rightarrow>
          let headers = tel_InjectContext h in
          (case tid of None \<Rightarrow> headers | Some i \<Rightarrow> setHeaderValue headers HeaderTraceID (traceIDString i)))"

section \<open>What tracing does to a message\<close>

text \<open>The context of a message never depends on what an earlier message left in the pooled carrier.\<close>

lemma acquireHeaderCarrier_empty: "acquireHeaderCarrier pooled = []"
proof -
  have "map_of (fold (\<lambda>k m. AList.delete k m) ks m) k = (if k \<in> set ks then None else map_of m k)" for ks m and k :: string
    by (induction ks arbitrary: m) (auto simp: delete_conv')
  from this [of "map fst pooled" pooled] have none: "map_of (acquireHeaderCarrier pooled) k = None" for k
    by (cases "k \<in> fst ` set pooled") (simp_all add: acquireHeaderCarrier_def map_of_eq_None_iff)
  have "k \<notin> fst ` set (acquireHeaderCarrier pooled)" for k using none [of k] unfolding map_of_eq_None_iff .
  then show ?thesis by (cases "acquireHeaderCarrier pooled") auto
qed

lemma process_span_carrier:
  "startProcessSpan pooled msg True meta = startProcessSpan [] msg True meta"
  "startReplySpan pooled msg True = startReplySpan [] msg True"
  by (simp_all add: startProcessSpan_def startReplySpan_def acquireHeaderCarrier_empty)

text \<open>Without tracing nothing is ended, in particular no span of the caller.\<close>

lemma untraced_ends_nothing:
  assumes "\<not> recording NoopSpan"
  shows "endSpanPtr recording tel_EndSpan (Some (startPublishSpan subject False)) errp w = w"
    "endSpanPtr recording tel_EndSpan (Some (startProcessSpan pooled msg False meta)) errp w = w"
  using assms by (simp_all add: endSpanPtr_def endSpan_def startPublishSpan_def startProcessSpan_def)

lemma hex_length: "length (hex_EncodeToString b) = 2 * length b"
  by (induction b) (simp_all add: hex_EncodeToString_def)

text \<open>The identifier that was injected is the one a consumer reads from the header.\<close>

lemma trace_id_roundtrip:
  "TraceIDFromHeader (injectTraceContext tel_InjectContext (Some (Some tid)) h) = traceIDString tid"
  by (auto simp: TraceIDFromHeader_def injectTraceContext_def setHeaderValue_def header_Set_def header_Get_def
      header_lookup_def update_conv' split: option.splits)

text \<open>
  What the publisher asks of the tracing header (\<^const>\<open>inject_laws\<close>) holds for this code as soon as it
  holds of the telemetry library, since the header it adds is another one.
\<close>

lemma inject_laws_hold:
  assumes "\<forall>h k. k = HeaderContentType \<or> k = HeaderContentEncoding \<longrightarrow> header_lookup (tel_InjectContext h) k = header_lookup h k"
  shows "inject_laws (env\<lparr> nt_inject := injectTraceContext tel_InjectContext active \<rparr>)"
proof -
  have "HeaderContentType \<noteq> HeaderTraceID" "HeaderContentEncoding \<noteq> HeaderTraceID"
    by (simp_all add: HeaderContentType_def HeaderContentEncoding_def HeaderTraceID_def)
  then show ?thesis using assms
    by (auto simp: inject_laws_def injectTraceContext_def setHeaderValue_def Let_def split: option.splits)
qed

end
