(* ===== verification/Spec2Isabelle.thy ===== *)
theory Spec2Isabelle
  imports Shard Page WorkerPool_Live Publisher Consumer FlightRecorder Idempotency Dlq Pull Connection Outbox Shadow Fingerprint Objects Incidents Setup Monitoring PullV2 Metrics Subscriptions Tracing
begin

text \<open>
  Verification of the Go library under \<open>src/\<close>, a client for NATS JetStream on top of nats.go.

  \<^bold>\<open>The program.\<close> A client connects (\<open>connection.go\<close>, \<open>auth.go\<close>, \<open>client.go\<close>) and hands out its parts. A
  publisher and a requester validate a subject, encode and compress a payload and send it
  (\<open>publisher.go\<close>, \<open>requester.go\<close>, \<open>codec.go\<close>, \<open>compress.go\<close>, \<open>schema.go\<close>); a responder answers
  (\<open>responder.go\<close>). Push, pull and ordered consumers (\<open>consumer_*.go\<close>) give each message to a handler, in a
  worker pool (\<open>workerpool/\<close>) or in the calling goroutine, and settle it with the server; adaptive
  pressure and a circuit breaker slow them down. Handlers are wrapped by the dead-letter queue (\<open>dlq/\<close>),
  deduplication (\<open>idempotency/\<close>), shadow traffic (\<open>shadow/\<close>) and incident capture. Supervisors and watchers
  keep subscriptions alive and report (\<open>supervisor.go\<close>, \<open>soft_liveness.go\<close>, \<open>slow_consumer.go\<close>,
  \<open>behavior_fingerprint.go\<close>, \<open>flight_recorder.go\<close>, \<open>incident_*.go\<close>). Managers administer streams,
  consumers, buckets and objects, replay moves a consumer back in time, and the outbox stores messages
  until they are published.

  \<^bold>\<open>How Go is modelled.\<close> A string is a list of bytes (\<open>char\<close>), a header a list of keys with values, or nil.
  \<open>int\<close>, \<open>int64\<close> and \<open>time.Duration\<close> are \<open>int\<close> with the wrap-around \<open>i64\<close> where a sum can leave the range;
  unsigned numbers are \<open>nat\<close> with \<open>u64\<close>, or words where bits count (\<open>Monitoring\<close>, \<open>Metrics\<close>); \<open>float64\<close> is a
  rational, rounded after each operation as binary64 prescribes (\<open>Float64\<close>). An error is a value of \<open>err\<close>: a
  sentinel, a text, or a wrapping, searched by \<open>errors_Is\<close>; nil is \<^const>\<open>None\<close>, a result is
  \<open>err + 'a\<close>. A panic, a call that blocks for good and a loop that does not end are \<^const>\<open>None\<close> of an outer option.
  The outside (server, clock, metrics, handlers) is a state \<open>'w\<close> that the operations of an environment record
  take and return; what is asked of them are predicates such as \<open>ack_laws\<close>, \<open>reads_ok\<close>, \<open>obj_laws\<close>,
  \<open>consumer_store\<close> and \<open>net_keeps\<close>, each with an instance in the witness of the property that uses it.
  Goroutines that share state are program counters with one step function per goroutine, one step per atomic
  action; executions are \<open>inductive\<close> predicates or schedules. Mutexes make the methods that hold them atomic.

  \<^bold>\<open>The theories\<close>, in the order they build on each other.
  \<^item> \<open>Prelude\<close>: integers, errors, strings, runes, headers, and the collections \<open>go_int\<close>, \<open>go_err\<close>, \<open>go_str\<close>.
  \<^item> \<open>Shard\<close> (\<open>shard/\<close>, \<open>internal/bytesconv\<close>), \<open>Page\<close> (\<open>page.go\<close>), \<open>Validate\<close> (\<open>validate.go\<close>,
    \<open>consumer_filter.go\<close>, \<open>schedule.go\<close>): shard subjects are well formed and stable; pages of a list put
    together give the list; the tokenizing loop accepts exactly the well-formed subjects; the covering filter of
    several filters matches what they match.
  \<^item> \<open>WorkerPool\<close>, \<open>WorkerPool_Stop\<close>, \<open>WorkerPool_Live\<close> (\<open>workerpool/workerpool.go\<close>): every goroutine of the
    pool. The counters are exact; after \<open>GracefulStop\<close> nothing accepted is lost; the pool never deadlocks, no
    wake-up is missed, and a stop ends.
  \<^item> \<open>Payload\<close>, \<open>Publisher\<close>: compression, encoding, headers, publish, request and reply. What is
    published is what a consumer decodes.
  \<^item> \<open>Float64\<close>, \<open>Pressure\<close> (\<open>adaptive_pressure.go\<close>, \<open>circuit.go\<close>): more load never gives less pressure, with the
    rounding of the floats.
  \<^item> \<open>Consumer\<close> (\<open>ack.go\<close>, \<open>handler_safe.go\<close>, \<open>backpressure.go\<close>, \<open>consumer_push.go\<close>), \<open>Subscriptions\<close> (the rest of
    \<open>consumer_push.go\<close>, \<open>responder.go\<close>), \<open>Pull\<close> (\<open>consumer_pull.go\<close>), \<open>PullV2\<close> (\<open>consumer_pull_v2.go\<close>,
    \<open>consumer_ordered.go\<close>): a message is acknowledged only after its handler succeeded, none is dropped
    silently, each batch that goroutines share is accounted for and returns. The new pull API, however, never
    acknowledges.
  \<^item> \<open>Supervisor\<close>, \<open>Watch\<close>, \<open>FlightRecorder\<close>, \<open>Fingerprint\<close>: retries and backoff stay in bounds, a hopeless
    subscription is given up, an event of a watcher has its reason in the observations, the ring buffer
    refines a bounded log.
  \<^item> \<open>Idempotency\<close>: of two handlers of one id at most one runs, and success is reported for handled ids only.
  \<^item> \<open>Managers\<close>, \<open>Objects\<close>, \<open>Setup\<close> (\<open>stream_manager.go\<close>, \<open>consumer_manager.go\<close>, \<open>kv_manager.go\<close>,
    \<open>object_manager.go\<close>, \<open>setup.go\<close>): every operation over the server's calls; the next message after a
    sequence; what was put is what is got; a setup leaves the durable as it asks.
  \<^item> \<open>Replay\<close> (\<open>replay.go\<close>, \<open>replay_options.go\<close>): ranges by sequence and time, seeking a durable. The binary
    search over times does not end on some gaps.
  \<^item> \<open>Dlq\<close>, \<open>Outbox\<close>, \<open>Shadow\<close>, \<open>Incidents\<close>: a poison message is published before it is terminated and can be
    redriven as it was; a flush publishes at least once and in order; a shadow handler never touches the
    delivery; a capsule holds the messages around a failure and can be loaded again.
  \<^item> \<open>Connection\<close> (\<open>connection.go\<close>, \<open>auth.go\<close>, \<open>client.go\<close>), \<open>Monitoring\<close>, \<open>Metrics\<close>, \<open>Tracing\<close>: options of a
    client are safe, a shutdown ends, no metadata address is dialled, byte counters are exact, the tracing
    header meets what the publisher asks of it.
  \<^item> This theory: headers stay maps on the way of a message through the library.

  \<^bold>\<open>Interfaces.\<close> \<open>bounded_log\<close> (the recorder implements it), \<open>claim_laws\<close> (the key-value store implements
  it) and \<open>message_source\<close> (the stream manager implements it) are locales with the lemmas of their clients.

  \<^bold>\<open>Bounds and fuel.\<close> Loops over lists recurse on them. A call of \<open>tryPublish\<close> that runs alone takes at most the
  steps given as fuel in \<open>publish_run\<close>, which its length bounds; it blocks otherwise. Loops that may not end are
  \<open>partial_function (option)\<close>, and where the property is that they return, that is what is proved
  (\<open>GetMsgRange_correct\<close>, \<open>Shutdown_returns\<close>, \<open>SupervisePullProcess_returns\<close>); \<open>supervisor_gives_up\<close> names
  the number of steps. The redirects of a monitoring request end since the check counts them.

  \<^bold>\<open>Not modelled.\<close>
  \<^item> Libraries: nats.go, the telemetry library, codecs, compressors, the URL parser, TLS, the resolver and
    SHA-256 are parameters.
  \<^item> Log lines, pools of buffers and objects, and the copying of bytes have no effect on the results.
  \<^item> \<open>DefaultConfig\<close> and the constants it uses are values; the accessors of the client return fields; the wrappers
    \<open>Supervise*Bound\<close> and \<open>SupervisePullProcess\<close> of the client only pass a subscription on to the modelled
    supervisors; \<open>WriteJSON\<close> and \<open>LogSnapshot\<close> of the recorder print a snapshot.
  \<^item> The re-exports (\<open>*_reexport.go\<close>) rename the functions of the subpackages.
  \<^item> \<open>tools/loadtest\<close> and \<open>examples/\<close> are programs that call the library with fixed settings.
  \<^item> The memory model: fields that several goroutines use without a lock are read and written atomically here.
\<close>

section \<open>Headers stay maps\<close>

definition header_wf :: "header \<Rightarrow> bool" where
  "header_wf h = (case h of None \<Rightarrow> True | Some m \<Rightarrow> distinct (map fst m))"

lemma header_wf_ops [simp]:
  "header_wf None" "header_wf (Some [])" "header_wf h \<Longrightarrow> header_wf (header_Set h k vs)" "header_wf h \<Longrightarrow> header_wf (header_Del h k)"
  by (auto simp: header_wf_def header_Set_def header_Del_def distinct_update distinct_delete split: option.splits)

lemma header_wf_del_fold: "header_wf h \<Longrightarrow> header_wf (fold (\<lambda>k h. header_Del h k) ks h)"
  by (induction ks arbitrary: h) simp_all

lemma content_header_wf: "header_wf (m_Header m) \<Longrightarrow> header_wf (m_Header (applyContentTypeHeader m))"
  by (auto simp: applyContentTypeHeader_def Let_def split: option.splits)

lemma prepared_header_wf:
  assumes inject: "\<forall>h. header_wf h \<longrightarrow> header_wf (nt_inject env h)" and msg: "header_wf (m_Header msg)"
    and run: "fst (preparePublish env c z p subject msg w) = Inr prep"
  shows "header_wf (m_Header (pp_msg prep))"
proof -
  have compress: "header_wf (snd (applyPayloadCompression z mode data h))" if "header_wf h" for mode data h
    using that by (simp add: applyPayloadCompression_def split: prod.splits)
  define m1 where "m1 = (if p_allowTracing p then msg\<lparr> m_Header := nt_inject env (m_Header msg) \<rparr> else msg)"
  define m2 where "m2 = (if needsContentTypeHeader m1 then applyContentTypeHeader m1 else m1)"
  have "header_wf (m_Header m1)" using inject msg by (simp add: m1_def)
  then have m2: "header_wf (m_Header m2)" by (simp add: m2_def content_header_wf)
  have "\<exists>data. m_Header (pp_msg prep) = snd (applyPayloadCompression z (p_payloadCompression p) data (m_Header m2))"
    using run by (auto simp: preparePublish_def Let_def m1_def m2_def split: option.splits if_splits sum.splits prod.splits)
      (metis snd_conv)+
  with compress [OF m2] show ?thesis by auto
qed

lemma route_headers_wf: "header_wf (route_headers env cfg m reason autopsy)"
proof -
  have start: "header_wf (Some [(HeaderOriginalSubject, [msg_Subject m]), (HeaderReason, [reason])])"
    by (simp add: header_wf_def HeaderOriginalSubject_def HeaderReason_def)
  have copy: "header_wf h \<Longrightarrow> header_wf (copy_header src k h)" for src k h by (simp add: copy_header_def)
  have meta: "header_wf h \<Longrightarrow> header_wf (metadata_headers md h)" for md h by (simp add: metadata_headers_def)
  have aut: "header_wf h \<Longrightarrow> header_wf (applyAutopsyHeaders env h ac data info)" for h ac data info
    by (simp add: applyAutopsyHeaders_def Let_def split: option.splits)
  show ?thesis unfolding route_headers_def Let_def using start by (auto intro!: copy meta aut header_wf_ops(3) split: option.splits)
qed



end
